(* ===== verification/Prelude.thy ===== *)
theory Prelude
  imports Main "HOL-Library.Multiset" "HOL-Library.Word" "HOL-Library.AList"
    "HOL-Library.List_Lexorder" "HOL-Library.Char_ord"
begin

text \<open>
  The vocabulary every component shares: Go errors as values, Go strings with the
  functions of \<open>strings\<close> and \<open>path\<close> the repository calls, Go maps and the unspecified
  order in which \<open>range\<close> visits them, instants and 64-bit durations, and the stable
  sort behind \<open>slices.SortStableFunc\<close> with the contract of its comparison function as
  the locale \<open>comparator\<close>.
\<close>

named_theorems go_defs \<open>definitions of the Go library functions, for unfolding\<close>

section \<open>Errors as values\<close>

text \<open>
  A Go \<open>error\<close>. \<open>ETransport c\<close> is a \<open>transport.Error\<close> of the registry library with HTTP
  status \<open>c\<close>; \<open>ENotFound\<close> and \<open>EConflict\<close> are the two API errors the code tells apart;
  \<open>EWrap\<close> is \<open>fmt.Errorf\<close> with a \<open>%w\<close> verb and \<open>EJoin\<close> is \<open>errors.Join\<close>. A panic
  unwinds the whole handler; it is the value \<open>EPanic\<close>.
\<close>

datatype error =
    ETransport nat
  | ENotFound string
  | EConflict string
  | EMsg string
  | EWrap string error
  | EJoin "error list"
  | EPanic string

type_synonym 'a result = "error + 'a"

fun is_ok :: "'a result \<Rightarrow> bool" where
  "is_ok (Inl _) = False"
| "is_ok (Inr _) = True"

lemma is_ok_iff: "is_ok r \<longleftrightarrow> (\<exists>x. r = Inr x)"
  by (cases r) auto

text \<open>Mapping a fallible function over a list stops at the first error.\<close>

fun traverse :: "('a \<Rightarrow> 'b result) \<Rightarrow> 'a list \<Rightarrow> 'b list result" where
  "traverse f [] = Inr []"
| "traverse f (x # xs) =
     (case f x of
        Inl e \<Rightarrow> Inl e
      | Inr y \<Rightarrow> (case traverse f xs of Inl e \<Rightarrow> Inl e | Inr ys \<Rightarrow> Inr (y # ys)))"

lemma traverse_InrD: "traverse f xs = Inr ys \<Longrightarrow> list_all2 (\<lambda>x y. f x = Inr y) xs ys"
  by (induction xs arbitrary: ys) (auto split: sum.splits)

lemma traverse_InrI: "list_all2 (\<lambda>x y. f x = Inr y) xs ys \<Longrightarrow> traverse f xs = Inr ys"
  by (induction xs ys rule: list_all2_induct) auto

lemma traverse_Inr_iff:
  "traverse f xs = Inr ys \<longleftrightarrow> list_all2 (\<lambda>x y. f x = Inr y) xs ys"
  by (blast intro: traverse_InrI dest: traverse_InrD)

lemma traverse_Inl: "traverse f xs = Inl e \<Longrightarrow> \<exists>x\<in>set xs. f x = Inl e"
  by (induction xs) (auto split: sum.splits)

lemma traverse_all_ok: "\<forall>x\<in>set xs. is_ok (f x) \<Longrightarrow> is_ok (traverse f xs)"
  by (induction xs) (auto simp: is_ok_iff split: sum.splits)

section \<open>Strings\<close>

definition HasPrefix :: "string \<Rightarrow> string \<Rightarrow> bool" where
  "HasPrefix s p \<longleftrightarrow> take (length p) s = p"

lemma HasPrefix_iff: "HasPrefix s p \<longleftrightarrow> (\<exists>r. s = p @ r)"
  unfolding HasPrefix_def
  by (metis append_eq_conv_conj append_take_drop_id)

lemma HasPrefix_append [simp]: "HasPrefix (p @ r) p"
  by (auto simp: HasPrefix_iff)

lemma HasPrefix_Nil [simp]: "HasPrefix s []"
  by (simp add: HasPrefix_def)

lemma HasPrefix_trans: "HasPrefix s p \<Longrightarrow> HasPrefix p q \<Longrightarrow> HasPrefix s q"
  by (auto simp: HasPrefix_iff)

lemma HasPrefix_length: "HasPrefix s p \<Longrightarrow> length p \<le> length s"
  by (auto simp: HasPrefix_iff)

text \<open>\<open>strings.CutPrefix\<close>: \<open>None\<close> is the \<open>found = false\<close> result.\<close>

definition CutPrefix :: "string \<Rightarrow> string \<Rightarrow> string option" where
  "CutPrefix s p = (if HasPrefix s p then Some (drop (length p) s) else None)"

lemma CutPrefix_Some_iff: "CutPrefix s p = Some r \<longleftrightarrow> s = p @ r"
  by (auto simp: CutPrefix_def HasPrefix_iff)

lemma CutPrefix_None_iff: "CutPrefix s p = None \<longleftrightarrow> \<not> HasPrefix s p"
  by (simp add: CutPrefix_def)

definition TrimPrefix :: "string \<Rightarrow> string \<Rightarrow> string" where
  "TrimPrefix s p = (if HasPrefix s p then drop (length p) s else s)"

lemma TrimPrefix_append [simp]: "TrimPrefix (p @ r) p = r"
  by (simp add: TrimPrefix_def)

lemma TrimPrefix_no [simp]: "\<not> HasPrefix s p \<Longrightarrow> TrimPrefix s p = s"
  by (simp add: TrimPrefix_def)

text \<open>\<open>strings.Split\<close> and \<open>strings.SplitN(s, sep, 2)\<close> at a one-character separator.\<close>

fun split_on :: "char \<Rightarrow> string \<Rightarrow> string list" where
  "split_on c [] = [[]]"
| "split_on c (x # xs) =
     (if x = c then [] # split_on c xs
      else (case split_on c xs of [] \<Rightarrow> [[x]] | p # ps \<Rightarrow> (x # p) # ps))"

lemma split_on_ne [simp]: "split_on c s \<noteq> []"
  by (induction s) (auto split: list.splits)

definition SplitN2 :: "char \<Rightarrow> string \<Rightarrow> string list" where
  "SplitN2 c s =
     (case dropWhile (\<lambda>x. x \<noteq> c) s of
        [] \<Rightarrow> [s]
      | _ # rest \<Rightarrow> [takeWhile (\<lambda>x. x \<noteq> c) s, rest])"

lemma SplitN2_append:
  "c \<notin> set a \<Longrightarrow> SplitN2 c (a @ c # b) = [a, b]"
proof -
  assume a: "c \<notin> set a"
  then have "dropWhile (\<lambda>x. x \<noteq> c) (a @ c # b) = c # b"
    and "takeWhile (\<lambda>x. x \<noteq> c) (a @ c # b) = a"
    by (induction a) auto
  then show ?thesis by (simp add: SplitN2_def)
qed

lemma SplitN2_absent: "c \<notin> set s \<Longrightarrow> SplitN2 c s = [s]"
proof -
  assume "c \<notin> set s"
  then have "dropWhile (\<lambda>x. x \<noteq> c) s = []" by (induction s) auto
  then show ?thesis unfolding SplitN2_def by (simp only: list.case)
qed

fun join_with :: "string \<Rightarrow> string list \<Rightarrow> string" where
  "join_with sep [] = []"
| "join_with sep [x] = x"
| "join_with sep (x # y # zs) = x @ sep @ join_with sep (y # zs)"

lemma join_with_Cons:
  "join_with sep (x # xs) = (if xs = [] then x else x @ sep @ join_with sep xs)"
  by (cases xs) auto

lemma join_with_append:
  "join_with sep (xs @ ys) =
     (if xs = [] then join_with sep ys
      else if ys = [] then join_with sep xs
      else join_with sep xs @ sep @ join_with sep ys)"
  by (induction xs) (auto simp: join_with_Cons)

lemma join_split [simp]: "join_with [c] (split_on c s) = s"
  by (induction s) (auto simp: join_with_Cons split: list.splits)

lemma split_on_append_sep:
  "split_on c (a @ c # b) = split_on c a @ split_on c b"
  by (induction a) (auto simp: neq_Nil_conv split: list.splits)

lemma split_on_absent: "c \<notin> set s \<Longrightarrow> split_on c s = [s]"
  by (induction s) auto

lemma split_on_no_sep: "p \<in> set (split_on c s) \<Longrightarrow> c \<notin> set p"
  by (induction s arbitrary: p) (auto split: list.splits if_splits)

section \<open>Paths\<close>

text \<open>
  \<open>path.Clean\<close>: the segments of the path are read left to right on a stack; empty and
  \<open>.\<close> segments vanish, \<open>..\<close> pops a real segment, is dropped at the root of a rooted
  path and is kept at the front of a relative one.
\<close>

fun clean_step :: "bool \<Rightarrow> string list \<Rightarrow> string \<Rightarrow> string list" where
  "clean_step rooted st e =
     (if e = [] \<or> e = ''.'' then st
      else if e = ''..'' then
        (case st of
           [] \<Rightarrow> (if rooted then [] else [''..''])
         | t # ts \<Rightarrow> (if t = ''..'' then ''..'' # st else ts))
      else e # st)"

declare clean_step.simps [simp del]

lemma clean_step_plain:
  "e \<noteq> ''..'' \<Longrightarrow> clean_step r st e = (if e \<noteq> [] \<and> e \<noteq> ''.'' then e # st else st)"
  by (auto simp: clean_step.simps)

definition path_Clean :: "string \<Rightarrow> string" where
  "path_Clean p =
     (if p = [] then ''.''
      else
        let rooted = (hd p = CHR ''/'');
            st = rev (foldl (clean_step rooted) [] (split_on CHR ''/'' p));
            body = join_with ''/'' st
        in if rooted then CHR ''/'' # body else if st = [] then ''.'' else body)"

text \<open>
  \<open>path.Join\<close>: the leading empty elements are skipped, the rest joined with slashes and
  cleaned; all empty gives the empty string.
\<close>

definition path_Join :: "string list \<Rightarrow> string" where
  "path_Join es =
     (case dropWhile (\<lambda>e. e = []) es of
        [] \<Rightarrow> []
      | e # rest \<Rightarrow> path_Clean (join_with ''/'' (e # rest)))"

text \<open>The segments that survive cleaning when the path has no \<open>..\<close>.\<close>

definition segs :: "string \<Rightarrow> string list" where
  "segs p = filter (\<lambda>e. e \<noteq> [] \<and> e \<noteq> ''.'') (split_on CHR ''/'' p)"

definition no_dotdot :: "string \<Rightarrow> bool" where
  "no_dotdot p \<longleftrightarrow> ''..'' \<notin> set (split_on CHR ''/'' p)"

definition clean_ref :: "string \<Rightarrow> bool" where
  "clean_ref p \<longleftrightarrow> (\<forall>e\<in>set (split_on CHR ''/'' p). e \<noteq> [] \<and> e \<noteq> ''.'' \<and> e \<noteq> ''..'')"

lemma clean_ref_no_dotdot: "clean_ref p \<Longrightarrow> no_dotdot p"
  by (auto simp: clean_ref_def no_dotdot_def)

lemma clean_ref_segs: "clean_ref p \<Longrightarrow> segs p = split_on CHR ''/'' p"
  by (auto simp: clean_ref_def segs_def filter_id_conv)

lemma clean_refD: "clean_ref p \<Longrightarrow> [] \<notin> set (split_on CHR ''/'' p)"
  unfolding clean_ref_def by blast

lemma clean_ref_ne: "clean_ref p \<Longrightarrow> p \<noteq> []"
  by (drule clean_refD) (cases p, simp_all)

lemma foldl_clean_step:
  "''..'' \<notin> set es \<Longrightarrow>
     foldl (clean_step r) st es = rev (filter (\<lambda>e. e \<noteq> [] \<and> e \<noteq> ''.'') es) @ st"
proof (induction es arbitrary: st)
  case Nil
  show ?case by simp
next
  case (Cons e es)
  from Cons.prems have e: "e \<noteq> ''..''" and es: "''..'' \<notin> set es" by auto
  show ?case
    by (simp only: foldl_Cons clean_step_plain [OF e] Cons.IH [OF es] filter.simps) simp
qed

lemma path_Clean_relative:
  assumes "p \<noteq> []" and "hd p \<noteq> CHR ''/''" and "no_dotdot p" and "segs p \<noteq> []"
  shows "path_Clean p = join_with ''/'' (segs p)"
  using assms
  by (simp add: path_Clean_def Let_def foldl_clean_step no_dotdot_def segs_def)

lemma segs_join:
  "segs (a @ CHR ''/'' # b) = segs a @ segs b"
  by (simp add: segs_def split_on_append_sep)

lemma no_dotdot_join:
  "no_dotdot (a @ CHR ''/'' # b) \<longleftrightarrow> no_dotdot a \<and> no_dotdot b"
  by (simp add: no_dotdot_def split_on_append_sep)

lemma segs_no_slash: "e \<in> set (segs p) \<Longrightarrow> CHR ''/'' \<notin> set e"
  by (auto simp: segs_def dest: split_on_no_sep)

text \<open>
  Joining a registry with a path keeps the segments of both, in order: the equation
  behind every image reference the code assembles.
\<close>

lemma path_Join_segs:
  assumes "a \<noteq> []" and "hd a \<noteq> CHR ''/''" and "no_dotdot a" and "no_dotdot b" and "segs a \<noteq> []"
  shows "path_Join [a, b] = join_with ''/'' (segs a @ segs b)"
proof -
  let ?p = "a @ CHR ''/'' # b"
  have "path_Join [a, b] = path_Clean ?p"
    using assms(1) by (simp add: path_Join_def)
  also have "\<dots> = join_with ''/'' (segs ?p)"
    using assms by (intro path_Clean_relative) (auto simp: segs_join no_dotdot_join)
  finally show ?thesis by (simp add: segs_join)
qed

lemma clean_ref_hd: "clean_ref p \<Longrightarrow> hd p \<noteq> CHR ''/''"
proof
  assume c: "clean_ref p" and h: "hd p = CHR ''/''"
  then have "p = CHR ''/'' # tl p" using clean_ref_ne [OF c] by (cases p) simp_all
  then have "[] \<in> set (split_on CHR ''/'' p)" by (metis list.set_intros(1) split_on.simps(2))
  with clean_refD [OF c] show False by contradiction
qed

lemma path_Join_clean:
  assumes "clean_ref a" and "clean_ref b"
  shows "path_Join [a, b] = a @ CHR ''/'' # b"
proof -
  have "path_Join [a, b] = join_with ''/'' (split_on CHR ''/'' a @ split_on CHR ''/'' b)"
    using assms
    by (subst path_Join_segs)
      (simp_all add: clean_ref_ne clean_ref_hd clean_ref_no_dotdot clean_ref_segs)
  then show ?thesis by (simp add: join_with_append)
qed

lemma clean_ref_join:
  "clean_ref (a @ CHR ''/'' # b) \<longleftrightarrow> clean_ref a \<and> clean_ref b"
  by (auto simp: clean_ref_def split_on_append_sep)

lemma path_Clean_clean: "clean_ref p \<Longrightarrow> path_Clean p = p"
  by (subst path_Clean_relative)
    (simp_all add: clean_ref_ne clean_ref_hd clean_ref_no_dotdot clean_ref_segs)

section \<open>Maps and the order of \<open>range\<close>\<close>

text \<open>
  A Go map value is either nil (\<open>None\<close>) or a table. Reading a nil map finds nothing;
  writing to it panics.
\<close>

type_synonym 'v gomap = "(string \<rightharpoonup> 'v) option"

definition map_get :: "'v gomap \<Rightarrow> string \<Rightarrow> 'v option" where
  "map_get m k = (case m of None \<Rightarrow> None | Some f \<Rightarrow> f k)"

definition map_set :: "'v gomap \<Rightarrow> string \<Rightarrow> 'v \<Rightarrow> 'v gomap result" where
  "map_set m k v =
     (case m of None \<Rightarrow> Inl (EPanic ''assignment to entry in nil map'')
      | Some f \<Rightarrow> Inr (Some (f(k \<mapsto> v))))"

lemma map_get_simps [simp]: "map_get None k = None" "map_get (Some f) k = f k"
  by (simp_all add: map_get_def)

lemma map_set_simps [simp]:
  "map_set None k v = Inl (EPanic ''assignment to entry in nil map'')"
  "map_set (Some f) k v = Inr (Some (f(k \<mapsto> v)))"
  by (simp_all add: map_set_def)

text \<open>
  A map that the code later ranges over is an association list with distinct keys,
  written with \<open>AList.update\<close>. The order in which \<open>range\<close> visits it is unspecified: a
  loop takes it as a parameter \<open>ord\<close>, of which only \<open>range_order ord\<close> may be assumed.
\<close>

definition range_order :: "('a list \<Rightarrow> 'a list) \<Rightarrow> bool" where
  "range_order ord \<longleftrightarrow> (\<forall>xs. mset (ord xs) = mset xs)"

lemma range_order_set: "range_order ord \<Longrightarrow> set (ord xs) = set xs"
  unfolding range_order_def by (metis set_mset_mset)

lemma range_order_length: "range_order ord \<Longrightarrow> length (ord xs) = length xs"
  unfolding range_order_def by (metis size_mset)

lemma range_order_distinct: "range_order ord \<Longrightarrow> distinct (ord xs) = distinct xs"
  unfolding range_order_def by (metis mset_eq_imp_distinct_iff)

lemma range_order_map_distinct:
  "range_order ord \<Longrightarrow> distinct (map f (ord xs)) = distinct (map f xs)"
  unfolding range_order_def by (metis mset_map mset_eq_imp_distinct_iff)

lemma range_order_id: "range_order (\<lambda>xs. xs)"
  by (simp add: range_order_def)

lemma range_order_rev [simp]: "range_order rev"
  by (simp add: range_order_def)

definition keys :: "(string \<times> 'v) list \<Rightarrow> string list" where
  "keys m = map fst m"

lemma distinct_keys_update: "distinct (keys m) \<Longrightarrow> distinct (keys (AList.update k v m))"
  by (simp add: keys_def distinct_update)

lemma set_keys_update [simp]: "set (keys (AList.update k v m)) = insert k (set (keys m))"
  by (induction m) (auto simp: keys_def)

lemma map_of_update_AList [simp]: "map_of (AList.update k v m) = (map_of m)(k \<mapsto> v)"
  by (simp add: update_conv')

lemma keys_dom: "set (keys m) = dom (map_of m)"
  by (simp add: keys_def dom_map_of_conv_image_fst)

lemma keys_simps [simp]: "keys [] = []" "keys ((k, v) # m) = k # keys m"
  by (simp_all add: keys_def)

section \<open>Instants and durations\<close>

text \<open>
  An instant is a number of nanoseconds since Go's zero time, a \<open>*metav1.Time\<close> an
  optional instant (\<open>None\<close> is the nil pointer, which \<open>IsZero\<close> treats like the zero time).
  A \<open>time.Duration\<close> is a signed 64-bit count of nanoseconds: arithmetic on durations
  wraps (\<open>i64\<close>) while \<open>Time.Sub\<close>, behind \<open>time.Since\<close>, saturates.
\<close>

definition max_dur :: int where "max_dur = 2 ^ 63 - 1"
definition min_dur :: int where "min_dur = - (2 ^ 63)"

definition i64 :: "int \<Rightarrow> int" where
  "i64 x = (x + 2 ^ 63) mod 2 ^ 64 - 2 ^ 63"

definition is_dur :: "int \<Rightarrow> bool" where
  "is_dur d \<longleftrightarrow> min_dur \<le> d \<and> d \<le> max_dur"

definition time_sub :: "int \<Rightarrow> int \<Rightarrow> int" where
  "time_sub t u = max min_dur (min max_dur (t - u))"

definition hour :: int where "hour = 3600 * 10 ^ 9"
definition second :: int where "second = 10 ^ 9"

lemmas dur_defs = max_dur_def min_dur_def i64_def is_dur_def time_sub_def

lemma i64_id: "is_dur d \<Longrightarrow> i64 d = d"
  by (simp add: dur_defs)

lemma i64_is_dur [simp]: "is_dur (i64 x)"
proof -
  have "0 \<le> (x + 2 ^ 63) mod 2 ^ 64" and "(x + 2 ^ 63) mod 2 ^ 64 < (2 :: int) ^ 64"
    by simp_all
  then show ?thesis by (simp add: dur_defs)
qed

lemma time_sub_is_dur [simp]: "is_dur (time_sub t u)"
  by (simp add: dur_defs)

lemma time_sub_exact: "is_dur (t - u) \<Longrightarrow> time_sub t u = t - u"
  by (simp add: dur_defs)

type_synonym mtime = "int option"

definition mt_IsZero :: "mtime \<Rightarrow> bool" where
  "mt_IsZero t = (case t of None \<Rightarrow> True | Some x \<Rightarrow> x = 0)"

definition mt_Equal :: "mtime \<Rightarrow> mtime \<Rightarrow> bool" where
  "mt_Equal t u = (case (t, u) of (None, None) \<Rightarrow> True | (Some x, Some y) \<Rightarrow> x = y | _ \<Rightarrow> False)"

definition mt_Before :: "mtime \<Rightarrow> mtime \<Rightarrow> bool" where
  "mt_Before t u = (case (t, u) of (Some x, Some y) \<Rightarrow> x < y | _ \<Rightarrow> False)"

lemma mt_simps [simp]:
  "mt_IsZero None" "mt_IsZero (Some x) = (x = 0)"
  "mt_Equal t u = (t = u)"
  "mt_Before (Some x) (Some y) = (x < y)" "\<not> mt_Before None u" "\<not> mt_Before t None"
  by (auto simp: mt_IsZero_def mt_Equal_def mt_Before_def split: option.splits)

text \<open>
  The marker \<open>0001-01-01 01:00:00\<close> that the controllers write to queue an image for
  instant expiry: one hour past the zero time, because the zero value would read as nil.
\<close>

definition instant_expiry :: int where "instant_expiry = hour"

lemma instant_expiry_nonzero [simp]: "instant_expiry \<noteq> 0"
  by (simp add: instant_expiry_def hour_def)

section \<open>Stable sorting by a comparison function\<close>

text \<open>
  \<open>cmp.Compare\<close> and \<open>cmp.Or\<close>, and \<open>slices.SortStableFunc\<close>. The comparison function's
  contract (a total preorder, read off the sign of its result) is the locale
  \<open>comparator\<close>; what the sort then guarantees is proved in it once.
\<close>

definition cmp_Compare :: "'a::linorder \<Rightarrow> 'a \<Rightarrow> int" where
  "cmp_Compare x y = (if x < y then -1 else if y < x then 1 else 0)"

fun cmp_Or :: "int list \<Rightarrow> int" where
  "cmp_Or [] = 0"
| "cmp_Or (x # xs) = (if x \<noteq> 0 then x else cmp_Or xs)"

fun insert_stable :: "('a \<Rightarrow> 'a \<Rightarrow> int) \<Rightarrow> 'a \<Rightarrow> 'a list \<Rightarrow> 'a list" where
  "insert_stable c x [] = [x]"
| "insert_stable c x (y # ys) = (if c x y \<le> 0 then x # y # ys else y # insert_stable c x ys)"

definition SortStableFunc :: "('a \<Rightarrow> 'a \<Rightarrow> int) \<Rightarrow> 'a list \<Rightarrow> 'a list" where
  "SortStableFunc c xs = foldr (insert_stable c) xs []"

lemma SortStableFunc_simps [simp]:
  "SortStableFunc c [] = []"
  "SortStableFunc c (x # xs) = insert_stable c x (SortStableFunc c xs)"
  by (simp_all add: SortStableFunc_def)

lemma mset_insert_stable [simp]: "mset (insert_stable c x ys) = add_mset x (mset ys)"
  by (induction ys) auto

lemma mset_SortStableFunc [simp]: "mset (SortStableFunc c xs) = mset xs"
  by (induction xs) auto

lemma set_SortStableFunc [simp]: "set (SortStableFunc c xs) = set xs"
  by (metis mset_SortStableFunc set_mset_mset)

lemma length_SortStableFunc [simp]: "length (SortStableFunc c xs) = length xs"
  by (metis mset_SortStableFunc size_mset)

locale comparator =
  fixes cmp :: "'a \<Rightarrow> 'a \<Rightarrow> int"
  assumes cmp_flip: "cmp x y < 0 \<longleftrightarrow> 0 < cmp y x"
    and cmp_trans: "cmp x y \<le> 0 \<Longrightarrow> cmp y z \<le> 0 \<Longrightarrow> cmp x z \<le> 0"
begin

lemma cmp_self: "cmp x x = 0"
  using cmp_flip [of x x] by linarith

lemma cmp_total: "cmp x y \<le> 0 \<or> cmp y x \<le> 0"
  using cmp_flip [of x y] cmp_flip [of y x] by linarith

lemma cmp_gtD: "0 < cmp x y \<Longrightarrow> cmp y x \<le> 0"
  using cmp_flip [of y x] by linarith

lemma sorted_insert:
  "sorted_wrt (\<lambda>x y. cmp x y \<le> 0) ys \<Longrightarrow>
     sorted_wrt (\<lambda>x y. cmp x y \<le> 0) (insert_stable cmp x ys)"
proof (induction ys)
  case Nil
  then show ?case by simp
next
  case (Cons y ys)
  have set_ins: "set (insert_stable cmp x ys) = insert x (set ys)"
    by (metis mset_insert_stable set_mset_add_mset_insert set_mset_mset)
  show ?case
  proof (cases "cmp x y \<le> 0")
    case True
    with Cons.prems show ?thesis by (auto intro: cmp_trans)
  next
    case False
    with Cons show ?thesis by (auto simp: set_ins intro: cmp_gtD)
  qed
qed

lemma sorted_SortStableFunc: "sorted_wrt (\<lambda>x y. cmp x y \<le> 0) (SortStableFunc cmp xs)"
  by (induction xs) (auto intro: sorted_insert)

lemma equal_class: "cmp x y = 0 \<Longrightarrow> cmp x z = 0 \<longleftrightarrow> cmp y z = 0"
  using cmp_flip cmp_trans by (smt (verit))

lemma stable_insert:
  "filter (\<lambda>y. cmp z y = 0) (insert_stable cmp x ys) = filter (\<lambda>y. cmp z y = 0) (x # ys)"
proof (induction ys)
  case Nil
  then show ?case by simp
next
  case (Cons y ys)
  have "\<not> (cmp z x = 0 \<and> cmp z y = 0)" if "0 < cmp x y"
    using that equal_class [of z x y] by auto
  with Cons show ?case by auto
qed

text \<open>Elements that compare equal keep their order: the sort is stable.\<close>

lemma stable_SortStableFunc:
  "filter (\<lambda>y. cmp z y = 0) (SortStableFunc cmp xs) = filter (\<lambda>y. cmp z y = 0) xs"
  by (induction xs) (simp_all add: stable_insert)

lemma min_first:
  assumes "x \<in> set xs" and "\<And>y. y \<in> set xs \<Longrightarrow> y \<noteq> x \<Longrightarrow> cmp x y < 0"
  shows "\<exists>ys. SortStableFunc cmp xs = x # ys"
proof (cases "SortStableFunc cmp xs")
  case Nil
  with assms(1) show ?thesis by (metis empty_iff empty_set set_SortStableFunc)
next
  case (Cons h t)
  have "x \<in> set (h # t)" and h: "h \<in> set xs"
    using assms(1) Cons by (metis set_SortStableFunc, metis Cons list.set_intros(1) set_SortStableFunc)
  moreover have "cmp h x \<le> 0"
    using sorted_SortStableFunc [of xs] \<open>x \<in> set (h # t)\<close> cmp_self by (auto simp: Cons)
  ultimately have "h = x"
    using assms(2) [OF h] cmp_flip [of x h] by force
  with Cons show ?thesis by simp
qed

end

lemma cmp_Compare_sign:
  "cmp_Compare x y < 0 \<longleftrightarrow> x < y" "0 < cmp_Compare x y \<longleftrightarrow> y < x" "cmp_Compare x y = 0 \<longleftrightarrow> x = y"
  for x y :: "'a::linorder"
  by (auto simp: cmp_Compare_def)

end
