(* ===== verification/Parallel.thy ===== *)
theory Parallel
  imports Prelude
begin

text \<open>
  \<open>internal/parallel/parallel.go\<close>: \<open>FirstSuccessful\<close> starts one goroutine per parameter
  and receives their results from a channel in whatever order they finish. That order is
  the list \<open>arrival\<close> of parameter indices; the receive loop and its inner loop over
  \<open>pending\<close> are \<open>collect\<close> and \<open>drain\<close>. The lemmas show that the outcome depends on no
  arrival order (\<open>collect_spec\<close>) and on no result after the first success in parameter
  order (\<open>collect_early\<close>).
\<close>

section \<open>The model\<close>

text \<open>What one call of \<open>f\<close> returns: \<open>(value, error)\<close>, either of them possibly nil.\<close>

record 'r outcome =
  Value :: "'r option"
  Error :: "error option"

text \<open>
  The inner loop: while the next index to return is pending, return its value with the
  errors before it if it succeeded, else move on. \<open>Inl\<close> is the return.
\<close>

function drain ::
  "'r outcome option list \<Rightarrow> nat \<Rightarrow> ('r option \<times> error option list) + nat" where
  "drain pending nextToReturn =
     (if nextToReturn < length pending then
        (case pending ! nextToReturn of
           None \<Rightarrow> Inr nextToReturn
         | Some res \<Rightarrow>
             (if Error res = None
              then Inl (Value res, map (\<lambda>p. Option.bind p Error) (take nextToReturn pending))
              else drain pending (Suc nextToReturn)))
      else Inr nextToReturn)"
  by pat_completeness auto
termination
  by (relation "measure (\<lambda>(pending, k). length pending - k)") auto

declare drain.simps [simp del]

text \<open>
  The receive loop; when the channel has delivered all the results and none was returned,
  the result is nil with all the errors.
\<close>

fun collect ::
  "'r outcome list \<Rightarrow> nat list \<Rightarrow> 'r outcome option list \<Rightarrow> nat \<Rightarrow> 'r option \<times> error option list"
  where
  "collect outs [] pending nextToReturn = (None, map (\<lambda>p. Option.bind p Error) pending)"
| "collect outs (i # arrival) pending nextToReturn =
     (let pending' = pending[i := Some (outs ! i)]
      in (case drain pending' nextToReturn of
            Inl r \<Rightarrow> r
          | Inr nextToReturn' \<Rightarrow> collect outs arrival pending' nextToReturn'))"

definition FirstSuccessful ::
  "nat list \<Rightarrow> 'p list \<Rightarrow> ('p \<Rightarrow> 'r outcome) \<Rightarrow> 'r option \<times> error option list" where
  "FirstSuccessful arrival params f =
     (let outs = map f params
      in collect outs arrival (replicate (length params) None) 0)"

section \<open>The specification\<close>

text \<open>
  The first success in parameter order with the errors of the ones before it, or nil with
  every error.
\<close>

definition first_success :: "'r outcome list \<Rightarrow> 'r option \<times> error option list" where
  "first_success outs =
     (case dropWhile (\<lambda>r. Error r \<noteq> None) outs of
        [] \<Rightarrow> (None, map Error outs)
      | r # _ \<Rightarrow> (Value r, map Error (takeWhile (\<lambda>r. Error r \<noteq> None) outs)))"

text \<open>
  What the loop keeps: \<open>seen\<close> are the indices received so far; \<open>pending\<close> holds exactly
  their results; the indices below \<open>nextToReturn\<close> are received failures.
\<close>

definition loop_inv ::
  "'r outcome list \<Rightarrow> nat set \<Rightarrow> 'r outcome option list \<Rightarrow> nat \<Rightarrow> bool" where
  "loop_inv outs seen pending k \<longleftrightarrow>
     length pending = length outs \<and> k \<le> length outs \<and>
     (\<forall>i<length outs. pending ! i = (if i \<in> seen then Some (outs ! i) else None)) \<and>
     (\<forall>i<k. i \<in> seen \<and> Error (outs ! i) \<noteq> None)"

definition loop_blocked :: "'r outcome list \<Rightarrow> nat set \<Rightarrow> nat \<Rightarrow> bool" where
  "loop_blocked outs seen k \<longleftrightarrow> k = length outs \<or> k \<notin> seen"

lemma loop_inv_init: "loop_inv outs {} (replicate (length outs) None) 0"
  by (simp add: loop_inv_def)

lemma loop_inv_receive:
  "loop_inv outs seen pending k \<Longrightarrow> i < length outs \<Longrightarrow>
     loop_inv outs (insert i seen) (pending[i := Some (outs ! i)]) k"
  by (auto simp: loop_inv_def nth_list_update)

lemma take_failures:
  assumes "k < length outs" and "\<forall>i<k. Error (outs ! i) \<noteq> None" and "Error (outs ! k) = None"
  shows "takeWhile (\<lambda>r. Error r \<noteq> None) outs = take k outs"
    and "dropWhile (\<lambda>r. Error r \<noteq> None) outs = outs ! k # drop (Suc k) outs"
proof -
  show tw: "takeWhile (\<lambda>r. Error r \<noteq> None) outs = take k outs"
    using assms by (intro takeWhile_eq_take_P_nth) auto
  have "outs = take k outs @ outs ! k # drop (Suc k) outs"
    using assms(1) by (rule id_take_nth_drop)
  with tw show "dropWhile (\<lambda>r. Error r \<noteq> None) outs = outs ! k # drop (Suc k) outs"
    by (metis same_append_eq takeWhile_dropWhile_id)
qed

lemma first_success_at:
  assumes "k < length outs" and "\<forall>i<k. Error (outs ! i) \<noteq> None" and "Error (outs ! k) = None"
  shows "first_success outs = (Value (outs ! k), map Error (take k outs))"
  by (simp add: first_success_def take_failures [OF assms] del: not_None_eq)

lemma first_success_none:
  assumes "\<forall>r\<in>set outs. Error r \<noteq> None"
  shows "first_success outs = (None, map Error outs)"
proof -
  have "dropWhile (\<lambda>r. Error r \<noteq> None) outs = []"
    using assms by (simp add: dropWhile_eq_Nil_conv del: not_None_eq)
  then show ?thesis unfolding first_success_def by (simp only: list.case)
qed

lemma pending_errors:
  assumes "loop_inv outs seen pending k" and "k' \<le> length outs" and "\<forall>i<k'. i \<in> seen"
  shows "map (\<lambda>p. Option.bind p Error) (take k' pending) = map Error (take k' outs)"
  using assms by (intro nth_equalityI) (auto simp: loop_inv_def)

lemma drain_spec:
  assumes "loop_inv outs seen pending k"
  shows "case drain pending k of
           Inl r \<Rightarrow> r = first_success outs
         | Inr k' \<Rightarrow> loop_inv outs seen pending k' \<and> loop_blocked outs seen k'"
  using assms
proof (induction pending k rule: drain.induct)
  case (1 pending k)
  note inv = "1.prems"
  show ?case
  proof (cases "k < length outs \<and> k \<in> seen")
    case False
    with inv have "drain pending k = Inr k"
      by (subst drain.simps) (auto simp: loop_inv_def)
    with False inv show ?thesis by (auto simp: loop_blocked_def loop_inv_def)
  next
    case True
    with inv have k: "k < length pending" "pending ! k = Some (outs ! k)"
      by (auto simp: loop_inv_def)
    show ?thesis
    proof (cases "Error (outs ! k) = None")
      case ok: True
      from inv have "first_success outs = (Value (outs ! k), map Error (take k outs))"
        using True ok by (intro first_success_at) (auto simp: loop_inv_def)
      moreover have "map (\<lambda>p. Option.bind p Error) (take k pending) = map Error (take k outs)"
        using inv True by (intro pending_errors [OF inv]) (auto simp: loop_inv_def)
      ultimately show ?thesis using k ok by (subst drain.simps) simp
    next
      case False
      with inv True have "loop_inv outs seen pending (Suc k)"
        by (auto simp: loop_inv_def less_Suc_eq)
      from "1.IH" [OF k(1) k(2) False this] k False show ?thesis
        by (subst drain.simps) (simp del: not_None_eq)
    qed
  qed
qed

lemma collect_spec:
  assumes "loop_inv outs seen pending k" and "loop_blocked outs seen k"
    and "set arrival \<union> seen = {..<length outs}" and "set arrival \<subseteq> {..<length outs}"
  shows "collect outs arrival pending k = first_success outs"
  using assms
proof (induction arrival arbitrary: seen pending k)
  case Nil
  then have "k = length outs" by (auto simp: loop_inv_def loop_blocked_def)
  with Nil have "\<forall>r\<in>set outs. Error r \<noteq> None" by (auto simp: loop_inv_def in_set_conv_nth)
  moreover have "map (\<lambda>p. Option.bind p Error) (take (length outs) pending)
      = map Error (take (length outs) outs)"
    using Nil by (intro pending_errors [OF Nil(1)]) auto
  ultimately show ?case using Nil by (simp add: first_success_none loop_inv_def)
next
  case (Cons i arrival)
  let ?p = "pending[i := Some (outs ! i)]"
  from Cons.prems have inv: "loop_inv outs (insert i seen) ?p k"
    by (intro loop_inv_receive) auto
  show ?case
  proof (cases "drain ?p k")
    case (Inl r)
    with drain_spec [OF inv] show ?thesis by simp
  next
    case (Inr k')
    with drain_spec [OF inv] have "loop_inv outs (insert i seen) ?p k'"
      and "loop_blocked outs (insert i seen) k'" by auto
    with Inr Cons.prems show ?thesis by (simp add: Cons.IH)
  qed
qed

text \<open>
  Once the first success and everything before it have arrived, nothing that arrives
  later matters, not even whether it ever does.
\<close>

lemma collect_early:
  assumes "loop_inv outs seen pending k" and "loop_blocked outs seen k"
    and "m < length outs" and "Error (outs ! m) = None" and "\<forall>i<m. Error (outs ! i) \<noteq> None"
    and "{..m} \<subseteq> set arrival \<union> seen" and "set arrival \<subseteq> {..<length outs}"
  shows "collect outs (arrival @ later) pending k = first_success outs"
  using assms
proof (induction arrival arbitrary: seen pending k)
  case Nil
  then have "k \<notin> seen \<or> k = length outs" and "{..m} \<subseteq> seen"
    by (auto simp: loop_blocked_def)
  with Nil have "m < k" by (meson atMost_iff le_less_linear subsetD)
  with Nil show ?case by (auto simp: loop_inv_def)
next
  case (Cons i arrival)
  let ?p = "pending[i := Some (outs ! i)]"
  from Cons.prems have inv: "loop_inv outs (insert i seen) ?p k"
    by (intro loop_inv_receive) auto
  show ?case
  proof (cases "drain ?p k")
    case (Inl r)
    with drain_spec [OF inv] show ?thesis by simp
  next
    case (Inr k')
    with drain_spec [OF inv] have "loop_inv outs (insert i seen) ?p k'"
      and "loop_blocked outs (insert i seen) k'" by auto
    with Cons.prems have "collect outs (arrival @ later) ?p k' = first_success outs"
      by (intro Cons.IH) auto
    with Inr show ?thesis by simp
  qed
qed

lemma loop_start:
  "loop_inv (map f ps) {} (replicate (length ps) None) 0 \<and> loop_blocked (map f ps) {} 0"
  using loop_inv_init [of "map f ps"] by (simp add: loop_blocked_def)

lemma FirstSuccessful_spec:
  assumes "mset arrival = mset [0..<length params]"
  shows "FirstSuccessful arrival params f = first_success (map f params)"
proof -
  from assms have "set arrival = {..<length (map f params)}"
    by (metis atLeast_upt length_map set_mset_mset)
  then show ?thesis
    unfolding FirstSuccessful_def Let_def
    using loop_start [of f params] by (intro collect_spec [where seen = "{}"]) auto
qed

lemma first_success_fst:
  "fst (first_success outs) =
     (case dropWhile (\<lambda>r. Error r \<noteq> None) outs of [] \<Rightarrow> None | r # _ \<Rightarrow> Value r)"
  unfolding first_success_def by (simp only: list.case_distrib [of fst] fst_conv)

lemma first_success_find:
  "fst (first_success (map f ps)) =
     (case find (\<lambda>p. Error (f p) = None) ps of None \<Rightarrow> None | Some p \<Rightarrow> Value (f p))"
proof (induction ps)
  case Nil
  then show ?case by (simp add: first_success_fst)
next
  case (Cons p ps)
  then show ?case
    by (cases "Error (f p) = None") (simp_all add: first_success_fst del: not_None_eq)
qed

section \<open>Properties\<close>

text \<open>
  C35. Whatever order the goroutines finish in, \<open>FirstSuccessful\<close> returns the first
  success in the order of its parameters together with the errors of the parameters
  before it, and nil with all the errors when every call failed.
\<close>

theorem FirstSuccessful_order_independent:
  assumes "mset arrival = mset [0..<length params]"
  shows "FirstSuccessful arrival params f = first_success (map f params)"
  using assms by (rule FirstSuccessful_spec)

theorem FirstSuccessful_order_independent_witness:
  "FirstSuccessful [2, 0, 1] [10, 20, 30 :: nat]
     (\<lambda>p. if p < 15 then \<lparr>Value = None, Error = Some (EMsg ''down'')\<rparr>
          else \<lparr>Value = Some p, Error = None\<rparr>) = (Some 20, [Some (EMsg ''down'')])"
  by (subst FirstSuccessful_order_independent) (auto simp: first_success_def)

text \<open>
  The call returns without waiting for the slower, lower-priority calls: as soon as
  the first success and the failures before it have arrived, the result is fixed, and
  the results that arrive later (or never) do not change it.
\<close>

theorem FirstSuccessful_returns_early:
  assumes "m < length params" and "Error (f (params ! m)) = None"
    and "\<forall>i<m. Error (f (params ! i)) \<noteq> None"
    and "{..m} \<subseteq> set arrival" and "set arrival \<subseteq> {..<length params}"
  shows "FirstSuccessful (arrival @ later) params f =
           (Value (f (params ! m)), map (\<lambda>p. Error (f p)) (take m params))"
proof -
  from assms have "first_success (map f params)
      = (Value (map f params ! m), map Error (take m (map f params)))"
    by (intro first_success_at) auto
  moreover have "collect (map f params) (arrival @ later) (replicate (length params) None) 0
      = first_success (map f params)"
    using assms loop_start [of f params]
    by (intro collect_early [where seen = "{}" and m = m]) auto
  ultimately show ?thesis
    using assms(1) by (simp add: FirstSuccessful_def take_map o_def)
qed

theorem FirstSuccessful_returns_early_witness:
  "FirstSuccessful ([1, 0] @ []) [10, 20, 30 :: nat]
     (\<lambda>p. if p < 15 then \<lparr>Value = None, Error = Some (EMsg ''down'')\<rparr>
          else \<lparr>Value = Some p, Error = None\<rparr>) = (Some 20, [Some (EMsg ''down'')])"
  by (subst FirstSuccessful_returns_early [where m = 1]) auto

end
