(* ===== verification/ApiTypes.thy ===== *)
theory ApiTypes
  imports Prelude
begin

text \<open>
  The data the operator works on, as records with the fields of the Go structs that the
  code reads or writes: pods and secrets (\<open>corev1\<close>), and the custom resources of
  \<open>api/kuik/v1alpha1\<close> with their small methods (\<open>Prefix\<close>,
  \<open>GetCredentialSecretForImage\<close>, \<open>Reference\<close>, \<open>ToString\<close>, \<open>ToFilter\<close>).
\<close>

section \<open>Pods and secrets\<close>

datatype PullPolicy = PullUnset | PullAlways | PullNever | PullIfNotPresent

record PodContainer =
  ctr_Name :: string
  ctr_Image :: string
  ctr_ImagePullPolicy :: PullPolicy

record Pod =
  pod_Name :: string
  pod_Namespace :: string
  pod_Labels :: "string gomap"
  pod_Annotations :: "string gomap"
  pod_Containers :: "PodContainer list"
  pod_InitContainers :: "PodContainer list"
  pod_ImagePullSecrets :: "string list"

record Secret =
  sec_Name :: string
  sec_Namespace :: string
  sec_UID :: string
  sec_Type :: string
  sec_Data :: "string \<rightharpoonup> string"
  sec_Labels :: "string \<rightharpoonup> string"

record ObjectMeta =
  om_Name :: string
  om_Namespace :: string
  om_UID :: string
  om_Finalizers :: "string list"
  om_DeletionTimestamp :: mtime

section \<open>Filters\<close>

record FilterItem =
  fi_Image :: string
  fi_Label :: string
  fi_Annotation :: string

text \<open>\<open>ClusterFilterItem\<close> embeds \<open>FilterItem\<close>: a record extension.\<close>

record ClusterFilterItem = FilterItem +
  fi_Namespace :: string

record Filter =
  flt_Include :: "FilterItem list"
  flt_Exclude :: "FilterItem list"

record ClusterFilter =
  cflt_Include :: "ClusterFilterItem list"
  cflt_Exclude :: "ClusterFilterItem list"

record ImageFilterDefinition =
  ifd_Include :: "string list"
  ifd_Exclude :: "string list"

definition Filter_IsEmpty :: "Filter \<Rightarrow> bool" where
  "Filter_IsEmpty f \<longleftrightarrow> length (flt_Include f) + length (flt_Exclude f) = 0"

definition ClusterFilter_IsEmpty :: "ClusterFilter \<Rightarrow> bool" where
  "ClusterFilter_IsEmpty f \<longleftrightarrow> length (cflt_Include f) + length (cflt_Exclude f) = 0"

text \<open>Dropping the namespace dimension of a cluster filter.\<close>

definition ToFilter :: "ClusterFilter \<Rightarrow> Filter" where
  "ToFilter cf =
     \<lparr>flt_Include = map FilterItem.truncate (cflt_Include cf),
      flt_Exclude = map FilterItem.truncate (cflt_Exclude cf)\<rparr>"

lemma truncate_fields [simp]:
  "fi_Image (FilterItem.truncate i) = fi_Image i"
  "fi_Label (FilterItem.truncate i) = fi_Label i"
  "fi_Annotation (FilterItem.truncate i) = fi_Annotation i"
  by (simp_all add: FilterItem.truncate_def)

lemma ToFilter_IsEmpty [simp]: "Filter_IsEmpty (ToFilter cf) = ClusterFilter_IsEmpty cf"
  by (simp add: Filter_IsEmpty_def ClusterFilter_IsEmpty_def ToFilter_def)

section \<open>Mirrors\<close>

record CredentialSecret =
  cs_Name :: string
  cs_Namespace :: string

record Cleanup =
  cl_Enabled :: bool
  cl_Retention :: int

text \<open>Priorities keep their width: \<open>uint\<close> within a resource, \<open>int\<close> across resources.\<close>

record Mirror =
  mir_Priority :: "64 word"
  mir_Registry :: string
  mir_Path :: string
  mir_CredentialSecret :: "CredentialSecret option"
  mir_Cleanup :: "Cleanup option"

record ImageSetMirrorBase =
  isb_Priority :: "64 word"
  isb_ImageFilter :: ImageFilterDefinition
  isb_Cleanup :: Cleanup
  isb_Mirrors :: "Mirror list"

record MirrorStatus =
  ms_Image :: string
  ms_MirroredAt :: mtime
  ms_LastError :: "error option"

record MatchingImage =
  mat_Image :: string
  mat_Mirrors :: "MirrorStatus list"
  mat_UnusedSince :: mtime

record ImageSetMirror =
  ism_Meta :: ObjectMeta
  ism_Base :: ImageSetMirrorBase
  ism_Filter :: Filter
  ism_MatchingImages :: "MatchingImage list"

record ClusterImageSetMirror =
  cism_Meta :: ObjectMeta
  cism_Base :: ImageSetMirrorBase
  cism_Filter :: ClusterFilter
  cism_MatchingImages :: "MatchingImage list"

definition Mirror_Prefix :: "Mirror \<Rightarrow> string" where
  "Mirror_Prefix m = path_Join [mir_Registry m, mir_Path m]"

text \<open>
  \<open>Mirrors.GetCredentialSecretForImage\<close>: the loop's state is the credential found so far
  and the length of the longest prefix.
\<close>

fun credential_loop ::
  "string \<Rightarrow> Mirror list \<Rightarrow> CredentialSecret option \<Rightarrow> nat \<Rightarrow> CredentialSecret option" where
  "credential_loop img [] cred longestPrefixLen = cred"
| "credential_loop img (mirror # ms) cred longestPrefixLen =
     (let pfx = path_Join [mir_Registry mirror, mir_Path mirror]
      in if HasPrefix img pfx \<and> length pfx > longestPrefixLen
         then credential_loop img ms (mir_CredentialSecret mirror) (length pfx)
         else credential_loop img ms cred longestPrefixLen)"

definition GetCredentialSecretForImage :: "Mirror list \<Rightarrow> string \<Rightarrow> CredentialSecret option" where
  "GetCredentialSecretForImage ms img = credential_loop img ms None 0"

section \<open>Replicated image sets\<close>

record ReplicatedUpstream =
  up_Registry :: string
  up_Path :: string
  up_Priority :: "64 word"
  up_DiscardAlternative :: bool
  up_ImageFilter :: ImageFilterDefinition
  up_CredentialSecret :: "CredentialSecret option"

record ReplicatedImageSet =
  ris_Meta :: ObjectMeta
  ris_Priority :: "64 word"
  ris_Upstreams :: "ReplicatedUpstream list"
  ris_Filter :: Filter

record ClusterReplicatedImageSet =
  cris_Meta :: ObjectMeta
  cris_Priority :: "64 word"
  cris_Upstreams :: "ReplicatedUpstream list"
  cris_Filter :: ClusterFilter

text \<open>\<open>ImageReference.Reference\<close>.\<close>

definition ImageReference_Reference :: "string \<Rightarrow> string \<Rightarrow> string" where
  "ImageReference_Reference registry p = (if registry = [] then p else registry @ ''/'' @ p)"

section \<open>Availability\<close>

text \<open>
  \<open>ImageAvailabilityStatus\<close> is a string type; \<open>StatusUnset\<close> is its zero value, the
  others the declared constants.
\<close>

datatype ImageAvailabilityStatus =
    StatusUnset
  | Scheduled
  | Available
  | NotFound
  | Unreachable
  | InvalidAuth
  | UnavailableSecret
  | QuotaExceeded

fun status_string :: "ImageAvailabilityStatus \<Rightarrow> string" where
  "status_string StatusUnset = []"
| "status_string Scheduled = ''Scheduled''"
| "status_string Available = ''Available''"
| "status_string NotFound = ''NotFound''"
| "status_string Unreachable = ''Unreachable''"
| "status_string InvalidAuth = ''InvalidAuth''"
| "status_string UnavailableSecret = ''UnavailableSecret''"
| "status_string QuotaExceeded = ''QuotaExceeded''"

record MonitoredImage =
  mon_Image :: string
  mon_Status :: ImageAvailabilityStatus
  mon_UnusedSince :: mtime
  mon_LastError :: "error option"
  mon_LastMonitor :: mtime
  mon_Original :: bool

record ClusterImageSetAvailability =
  cisa_Meta :: ObjectMeta
  cisa_UnusedImageExpiry :: int
  cisa_ImageFilter :: ImageFilterDefinition
  cisa_Filter :: ClusterFilter
  cisa_ImageCount :: int
  cisa_Images :: "MonitoredImage list"

section \<open>Choosing the credential of an image\<close>

text \<open>
  The loop returns the credential of the first of the mirrors whose prefix is the longest
  one that the image has, provided that prefix is longer than the bound it started with.
\<close>

definition prefix_len :: "string \<Rightarrow> Mirror \<Rightarrow> nat" where
  "prefix_len img m = (if HasPrefix img (Mirror_Prefix m) then length (Mirror_Prefix m) else 0)"

lemma credential_loop_step:
  "credential_loop img (m # ms) cred n =
     (if prefix_len img m > n then credential_loop img ms (mir_CredentialSecret m) (prefix_len img m)
      else credential_loop img ms cred n)"
  by (simp add: prefix_len_def Mirror_Prefix_def Let_def)

lemma credential_loop_none:
  "\<forall>m\<in>set ms. prefix_len img m \<le> n \<Longrightarrow> credential_loop img ms cred n = cred"
  by (induction ms) (simp_all add: credential_loop_step del: credential_loop.simps(2))

lemma credential_loop_first:
  assumes "n < prefix_len img m"
    and "\<forall>x\<in>set before. prefix_len img x < prefix_len img m"
    and "\<forall>x\<in>set after. prefix_len img x \<le> prefix_len img m"
  shows "credential_loop img (before @ m # after) cred n = mir_CredentialSecret m"
  using assms
proof (induction before arbitrary: cred n)
  case Nil
  then show ?case
    by (simp add: credential_loop_step credential_loop_none del: credential_loop.simps(2))
next
  case (Cons b bs)
  then show ?case
    by (simp add: credential_loop_step del: credential_loop.simps(2))
qed

lemma find_split:
  "\<forall>x\<in>set before. \<not> P x \<Longrightarrow> P m \<Longrightarrow> find P (before @ m # after) = Some m"
  by (induction before) auto

text \<open>
  \<open>GetCredentialSecretForImage\<close> picks the most specific mirror: the credential of
  the first mirror, in declaration order, among those whose prefix is the longest that the
  image starts with; an image that starts with no mirror's prefix has no credential.
\<close>

theorem credential_longest_prefix:
  "GetCredentialSecretForImage ms img =
     (let longest = Max (insert 0 (set (map (prefix_len img) ms)))
      in if longest = 0 then None
         else Option.bind (find (\<lambda>m. prefix_len img m = longest) ms) mir_CredentialSecret)"
proof -
  let ?n = "Max (insert 0 (set (map (prefix_len img) ms)))"
  have le: "prefix_len img m \<le> ?n" if "m \<in> set ms" for m
    using that by (intro Max_ge) auto
  have n: "?n \<in> insert 0 (set (map (prefix_len img) ms))" by (rule Max_in) auto
  show ?thesis
  proof (cases "?n = 0")
    case True
    with le have "\<forall>m\<in>set ms. prefix_len img m \<le> 0" by metis
    then have "credential_loop img ms None 0 = None" by (rule credential_loop_none)
    with True show ?thesis by (simp add: GetCredentialSecretForImage_def)
  next
    case False
    with n have "\<exists>m\<in>set ms. prefix_len img m = ?n" by auto
    from split_list_first_prop [OF this]
    obtain before m after where ms: "ms = before @ m # after"
      and m: "prefix_len img m = ?n" and before: "\<forall>x\<in>set before. prefix_len img x \<noteq> ?n"
      by blast
    have lt: "\<forall>x\<in>set before. prefix_len img x < prefix_len img m"
      using before le ms m by (metis Un_iff le_neq_implies_less set_append)
    have le': "\<forall>x\<in>set after. prefix_len img x \<le> prefix_len img m"
      using le ms m by (metis Un_iff list.set_intros(2) set_append)
    have "find (\<lambda>m. prefix_len img m = ?n) (before @ m # after) = Some m"
      using m before by (intro find_split) auto
    then have "find (\<lambda>m. prefix_len img m = ?n) ms = Some m" using ms by metis
    moreover have "credential_loop img ms None 0 = mir_CredentialSecret m"
      unfolding ms using lt le' m False by (intro credential_loop_first) auto
    ultimately show ?thesis
      using False by (simp add: GetCredentialSecretForImage_def Let_def)
  qed
qed

end
