(* ===== verification/Filters.thy ===== *)
theory Filters
  imports ApiTypes
begin

text \<open>
  \<open>internal/filter\<close> (include/exclude regex filters, prefix filters, pod filters) and the
  unified \<open>spec.filter\<close> of \<open>api/kuik/v1alpha1/filter_types.go\<close>. Compiling a regular
  expression and parsing a label selector are parameters: \<open>rx\<close> maps a pattern to its
  matcher and \<open>sel\<close> a selector string to its predicate on label sets, \<open>None\<close> when the
  text is rejected. The Go interface \<open>filterSelector\<close>, implemented by \<open>Filter\<close> and
  \<open>ClusterFilter\<close>, is the locale \<open>filter_selector\<close>; both kinds interpret it.
\<close>

type_synonym regexp_compile = "string \<Rightarrow> (string \<Rightarrow> bool) option"
type_synonym selector_parse = "string \<Rightarrow> ((string \<rightharpoonup> string) \<Rightarrow> bool) option"

section \<open>Include/exclude filters on strings\<close>

record IncludeExcludeFilter =
  ief_include :: "(string \<Rightarrow> bool) list"
  ief_exclude :: "(string \<Rightarrow> bool) list"

text \<open>Every pattern is anchored before it is compiled.\<close>

definition compile_anchored :: "regexp_compile \<Rightarrow> string \<Rightarrow> (string \<Rightarrow> bool) result" where
  "compile_anchored rx p =
     (case rx (''^('' @ p @ '')$'') of
        None \<Rightarrow> Inl (EMsg ''error parsing regexp'')
      | Some m \<Rightarrow> Inr m)"

definition CompileIncludeExcludeFilter ::
  "regexp_compile \<Rightarrow> string list \<Rightarrow> string list \<Rightarrow> IncludeExcludeFilter result" where
  "CompileIncludeExcludeFilter rx inc exc =
     (case traverse (compile_anchored rx) inc of
        Inl e \<Rightarrow> Inl e
      | Inr is \<Rightarrow>
          (case traverse (compile_anchored rx) exc of
             Inl e \<Rightarrow> Inl e
           | Inr es \<Rightarrow> Inr \<lparr>ief_include = is, ief_exclude = es\<rparr>))"

definition IncludeExclude_Match :: "IncludeExcludeFilter \<Rightarrow> string \<Rightarrow> bool" where
  "IncludeExclude_Match f s =
     (if list_ex (\<lambda>m. m s) (ief_include f) then \<not> list_ex (\<lambda>m. m s) (ief_exclude f) else False)"

text \<open>The value of the interface type \<open>filter.Filter\<close> is its \<open>Match\<close> method.\<close>

definition compiled_match ::
  "regexp_compile \<Rightarrow> string list \<Rightarrow> string list \<Rightarrow> (string \<Rightarrow> bool) result" where
  "compiled_match rx inc exc =
     map_sum (\<lambda>e. e) IncludeExclude_Match (CompileIncludeExcludeFilter rx inc exc)"

record PrefixFilter =
  pf_Filter :: "string \<Rightarrow> bool"
  pf_prefix :: string

definition AddPrefixToFilter :: "string \<Rightarrow> (string \<Rightarrow> bool) result \<Rightarrow> PrefixFilter result" where
  "AddPrefixToFilter pfx builder =
     (case builder of Inl e \<Rightarrow> Inl e | Inr f \<Rightarrow> Inr \<lparr>pf_Filter = f, pf_prefix = pfx\<rparr>)"

definition Prefix_Match :: "PrefixFilter \<Rightarrow> string \<Rightarrow> bool" where
  "Prefix_Match p s =
     (case CutPrefix s (pf_prefix p) of None \<Rightarrow> False | Some after \<Rightarrow> pf_Filter p after)"

text \<open>\<open>ImageFilterDefinition.Build\<close> and \<open>BuildWithRegistry\<close>.\<close>

definition ImageFilter_Build :: "regexp_compile \<Rightarrow> ImageFilterDefinition \<Rightarrow> (string \<Rightarrow> bool) result" where
  "ImageFilter_Build rx i =
     compiled_match rx
       (if length (ifd_Include i) = 0 \<and> length (ifd_Exclude i) > 0 then [''.*''] else ifd_Include i)
       (ifd_Exclude i)"

definition ImageFilter_BuildWithRegistry ::
  "regexp_compile \<Rightarrow> ImageFilterDefinition \<Rightarrow> string \<Rightarrow> (string \<Rightarrow> bool) result" where
  "ImageFilter_BuildWithRegistry rx i registry =
     map_sum (\<lambda>e. e) Prefix_Match (AddPrefixToFilter registry (ImageFilter_Build rx i))"

section \<open>Pod filters\<close>

record PodFilter =
  pdf_includeLabels :: "((string \<rightharpoonup> string) \<Rightarrow> bool) list"
  pdf_excludeLabels :: "((string \<rightharpoonup> string) \<Rightarrow> bool) list"
  pdf_includeAnnotations :: "((string \<rightharpoonup> string) \<Rightarrow> bool) list"
  pdf_excludeAnnotations :: "((string \<rightharpoonup> string) \<Rightarrow> bool) list"

definition parse_selector :: "selector_parse \<Rightarrow> string \<Rightarrow> ((string \<rightharpoonup> string) \<Rightarrow> bool) result" where
  "parse_selector sel e =
     (case sel e of None \<Rightarrow> Inl (EMsg ''unable to parse requirement'') | Some s \<Rightarrow> Inr s)"

definition parseSelectors ::
  "selector_parse \<Rightarrow> string list \<Rightarrow> ((string \<rightharpoonup> string) \<Rightarrow> bool) list result" where
  "parseSelectors sel entries = traverse (parse_selector sel) entries"

definition CompilePodFilter ::
  "selector_parse \<Rightarrow> string list \<Rightarrow> string list \<Rightarrow> string list \<Rightarrow> string list \<Rightarrow> PodFilter result" where
  "CompilePodFilter sel includeLabels excludeLabels includeAnnotations excludeAnnotations =
     (case parseSelectors sel includeLabels of Inl e \<Rightarrow> Inl e | Inr il \<Rightarrow>
     (case parseSelectors sel excludeLabels of Inl e \<Rightarrow> Inl e | Inr el \<Rightarrow>
     (case parseSelectors sel includeAnnotations of Inl e \<Rightarrow> Inl e | Inr ia \<Rightarrow>
     (case parseSelectors sel excludeAnnotations of Inl e \<Rightarrow> Inl e | Inr ea \<Rightarrow>
        Inr \<lparr>pdf_includeLabels = il, pdf_excludeLabels = el,
             pdf_includeAnnotations = ia, pdf_excludeAnnotations = ea\<rparr>))))"

definition matchSelectorSets ::
  "('v \<Rightarrow> bool) list \<Rightarrow> ('v \<Rightarrow> bool) list \<Rightarrow> 'v \<Rightarrow> bool" where
  "matchSelectorSets inc exc v =
     (if length inc > 0 \<and> \<not> list_ex (\<lambda>s. s v) inc then False
      else \<not> list_ex (\<lambda>s. s v) exc)"

text \<open>A nil label map is the empty label set.\<close>

definition label_set :: "string gomap \<Rightarrow> (string \<rightharpoonup> string)" where
  "label_set m = (\<lambda>k. map_get m k)"

definition PodFilter_Match :: "PodFilter \<Rightarrow> Pod \<Rightarrow> bool" where
  "PodFilter_Match f pod =
     (if \<not> matchSelectorSets (pdf_includeLabels f) (pdf_excludeLabels f) (label_set (pod_Labels pod))
      then False
      else matchSelectorSets (pdf_includeAnnotations f) (pdf_excludeAnnotations f)
             (label_set (pod_Annotations pod)))"

section \<open>The unified filter\<close>

definition collectStrings :: "'a list \<Rightarrow> ('a \<Rightarrow> string) \<Rightarrow> string list" where
  "collectStrings items get = filter (\<lambda>v. v \<noteq> []) (map get items)"

definition defaultedToMatchAll :: "string list \<Rightarrow> string list" where
  "defaultedToMatchAll inc = (if length inc = 0 then [''.*''] else inc)"

definition Filter_BuildImageFilter :: "regexp_compile \<Rightarrow> Filter \<Rightarrow> (string \<Rightarrow> bool) result" where
  "Filter_BuildImageFilter rx f =
     compiled_match rx (defaultedToMatchAll (collectStrings (flt_Include f) fi_Image))
       (collectStrings (flt_Exclude f) fi_Image)"

definition Filter_BuildPodMatcher :: "selector_parse \<Rightarrow> Filter \<Rightarrow> (Pod \<Rightarrow> bool) result" where
  "Filter_BuildPodMatcher sel f =
     (case CompilePodFilter sel
             (collectStrings (flt_Include f) fi_Label) (collectStrings (flt_Exclude f) fi_Label)
             (collectStrings (flt_Include f) fi_Annotation) (collectStrings (flt_Exclude f) fi_Annotation)
      of Inl e \<Rightarrow> Inl e | Inr podFilter \<Rightarrow> Inr (PodFilter_Match podFilter))"

definition ClusterFilter_BuildImageFilter ::
  "regexp_compile \<Rightarrow> ClusterFilter \<Rightarrow> (string \<Rightarrow> bool) result" where
  "ClusterFilter_BuildImageFilter rx cf = Filter_BuildImageFilter rx (ToFilter cf)"

definition ClusterFilter_BuildPodMatcher ::
  "regexp_compile \<Rightarrow> selector_parse \<Rightarrow> ClusterFilter \<Rightarrow> (Pod \<Rightarrow> bool) result" where
  "ClusterFilter_BuildPodMatcher rx sel cf =
     (case Filter_BuildPodMatcher sel (ToFilter cf) of
        Inl e \<Rightarrow> Inl e
      | Inr podMatch \<Rightarrow>
          (case compiled_match rx
                  (defaultedToMatchAll (collectStrings (cflt_Include cf) fi_Namespace))
                  (collectStrings (cflt_Exclude cf) fi_Namespace) of
             Inl e \<Rightarrow> Inl e
           | Inr nsMatch \<Rightarrow> Inr (\<lambda>pod. podMatch pod \<and> nsMatch (pod_Namespace pod))))"

definition matchAllPods :: "Pod \<Rightarrow> bool" where
  "matchAllPods pod = True"

text \<open>
  \<open>podMatcher\<close> and \<open>imageFilter\<close> take a value of the interface \<open>filterSelector\<close>: its
  methods are arguments.
\<close>

definition podMatcher ::
  "('f \<Rightarrow> bool) \<Rightarrow> ('f \<Rightarrow> (Pod \<Rightarrow> bool) result) \<Rightarrow> 'f \<Rightarrow> (Pod \<Rightarrow> bool) result" where
  "podMatcher isEmpty buildPodMatcher f =
     (if isEmpty f then Inr matchAllPods else buildPodMatcher f)"

definition imageFilter ::
  "('f \<Rightarrow> bool) \<Rightarrow> ('f \<Rightarrow> (string \<Rightarrow> bool) result) \<Rightarrow> 'f \<Rightarrow> (string \<Rightarrow> bool) result \<Rightarrow>
     (string \<Rightarrow> bool) result" where
  "imageFilter isEmpty buildImageFilter f legacy =
     (if isEmpty f then legacy else buildImageFilter f)"

text \<open>The accessors of the five kinds.\<close>

definition ISM_PodMatcher :: "selector_parse \<Rightarrow> ImageSetMirror \<Rightarrow> (Pod \<Rightarrow> bool) result" where
  "ISM_PodMatcher sel i = podMatcher Filter_IsEmpty (Filter_BuildPodMatcher sel) (ism_Filter i)"

definition ISM_ImageFilter :: "regexp_compile \<Rightarrow> ImageSetMirror \<Rightarrow> (string \<Rightarrow> bool) result" where
  "ISM_ImageFilter rx i =
     imageFilter Filter_IsEmpty (Filter_BuildImageFilter rx) (ism_Filter i)
       (ImageFilter_Build rx (isb_ImageFilter (ism_Base i)))"

definition CISM_PodMatcher ::
  "regexp_compile \<Rightarrow> selector_parse \<Rightarrow> ClusterImageSetMirror \<Rightarrow> (Pod \<Rightarrow> bool) result" where
  "CISM_PodMatcher rx sel c =
     podMatcher ClusterFilter_IsEmpty (ClusterFilter_BuildPodMatcher rx sel) (cism_Filter c)"

definition CISM_ImageFilter :: "regexp_compile \<Rightarrow> ClusterImageSetMirror \<Rightarrow> (string \<Rightarrow> bool) result" where
  "CISM_ImageFilter rx c =
     imageFilter ClusterFilter_IsEmpty (ClusterFilter_BuildImageFilter rx) (cism_Filter c)
       (ImageFilter_Build rx (isb_ImageFilter (cism_Base c)))"

definition RIS_PodMatcher :: "selector_parse \<Rightarrow> ReplicatedImageSet \<Rightarrow> (Pod \<Rightarrow> bool) result" where
  "RIS_PodMatcher sel r = podMatcher Filter_IsEmpty (Filter_BuildPodMatcher sel) (ris_Filter r)"

definition CRIS_PodMatcher ::
  "regexp_compile \<Rightarrow> selector_parse \<Rightarrow> ClusterReplicatedImageSet \<Rightarrow> (Pod \<Rightarrow> bool) result" where
  "CRIS_PodMatcher rx sel c =
     podMatcher ClusterFilter_IsEmpty (ClusterFilter_BuildPodMatcher rx sel) (cris_Filter c)"

definition CISA_PodMatcher ::
  "regexp_compile \<Rightarrow> selector_parse \<Rightarrow> ClusterImageSetAvailability \<Rightarrow> (Pod \<Rightarrow> bool) result" where
  "CISA_PodMatcher rx sel c =
     podMatcher ClusterFilter_IsEmpty (ClusterFilter_BuildPodMatcher rx sel) (cisa_Filter c)"

definition CISA_ImageFilter ::
  "regexp_compile \<Rightarrow> ClusterImageSetAvailability \<Rightarrow> (string \<Rightarrow> bool) result" where
  "CISA_ImageFilter rx c =
     imageFilter ClusterFilter_IsEmpty (ClusterFilter_BuildImageFilter rx) (cisa_Filter c)
       (ImageFilter_Build rx (cisa_ImageFilter c))"

section \<open>What the compiled filters match\<close>

text \<open>
  The documented meaning of a dimension: some include item matches (or there is none) and
  no exclude item does. \<open>rx_matches\<close> and \<open>sel_matches\<close> read one item.
\<close>

definition passes :: "(string \<Rightarrow> 'v \<Rightarrow> bool) \<Rightarrow> string list \<Rightarrow> string list \<Rightarrow> 'v \<Rightarrow> bool" where
  "passes item inc exc v \<longleftrightarrow>
     (inc = [] \<or> (\<exists>p\<in>set inc. item p v)) \<and> \<not> (\<exists>p\<in>set exc. item p v)"

definition rx_matches :: "regexp_compile \<Rightarrow> string \<Rightarrow> string \<Rightarrow> bool" where
  "rx_matches rx p s = (case rx (''^('' @ p @ '')$'') of None \<Rightarrow> False | Some m \<Rightarrow> m s)"

definition sel_matches :: "selector_parse \<Rightarrow> string \<Rightarrow> (string \<rightharpoonup> string) \<Rightarrow> bool" where
  "sel_matches sel p l = (case sel p of None \<Rightarrow> False | Some m \<Rightarrow> m l)"

text \<open>What RE2 documents of the pattern \<open>.*\<close>: it matches every string without a newline.\<close>

definition no_newline :: "string \<Rightarrow> bool" where
  "no_newline s \<longleftrightarrow> CHR 0x0A \<notin> set s"

definition dot_star_matches_all :: "regexp_compile \<Rightarrow> bool" where
  "dot_star_matches_all rx \<longleftrightarrow> (\<forall>s. no_newline s \<longrightarrow> rx_matches rx ''.*'' s)"

lemma passes_exclude: "p \<in> set exc \<Longrightarrow> item p v \<Longrightarrow> \<not> passes item inc exc v"
  by (auto simp: passes_def)

lemma passes_none [simp]: "passes item [] [] v"
  by (simp add: passes_def)

lemma list_ex_all2:
  "list_all2 (\<lambda>x m. f x = Inr m) xs ms \<Longrightarrow>
     list_ex (\<lambda>m. m v) ms \<longleftrightarrow> (\<exists>x\<in>set xs. case f x of Inl e \<Rightarrow> False | Inr m \<Rightarrow> m v)"
  by (induction xs ms rule: list_all2_induct) auto

lemma list_ex_compiled:
  "traverse (compile_anchored rx) ps = Inr ms \<Longrightarrow>
     list_ex (\<lambda>m. m s) ms \<longleftrightarrow> (\<exists>p\<in>set ps. rx_matches rx p s)"
  by (drule traverse_InrD, drule list_ex_all2 [where v = s])
    (auto simp: compile_anchored_def rx_matches_def split: option.splits)

lemma list_ex_selectors:
  "parseSelectors sel ps = Inr ms \<Longrightarrow>
     list_ex (\<lambda>m. m l) ms \<longleftrightarrow> (\<exists>p\<in>set ps. sel_matches sel p l)"
  unfolding parseSelectors_def
  by (drule traverse_InrD, drule list_ex_all2 [where v = l])
    (auto simp: parse_selector_def sel_matches_def split: option.splits)

lemma parseSelectors_length: "parseSelectors sel ps = Inr ms \<Longrightarrow> length ms = length ps"
  unfolding parseSelectors_def by (metis traverse_InrD list_all2_lengthD)

lemma compiled_match_iff:
  assumes "compiled_match rx inc exc = Inr m"
  shows "m s \<longleftrightarrow> (\<exists>p\<in>set inc. rx_matches rx p s) \<and> \<not> (\<exists>p\<in>set exc. rx_matches rx p s)"
proof -
  from assms obtain ims ems where "traverse (compile_anchored rx) inc = Inr ims"
    and "traverse (compile_anchored rx) exc = Inr ems"
    and "m = IncludeExclude_Match \<lparr>ief_include = ims, ief_exclude = ems\<rparr>"
    by (auto simp: compiled_match_def CompileIncludeExcludeFilter_def split: sum.splits)
  then show ?thesis by (simp add: IncludeExclude_Match_def list_ex_compiled)
qed

lemma compiled_match_ne:
  "inc \<noteq> [] \<Longrightarrow> compiled_match rx inc exc = Inr m \<Longrightarrow> m s = passes (rx_matches rx) inc exc s"
  by (simp add: compiled_match_iff passes_def)

lemma compiled_match_default:
  assumes "compiled_match rx (defaultedToMatchAll inc) exc = Inr m"
    and "dot_star_matches_all rx" and "no_newline s"
  shows "m s = passes (rx_matches rx) inc exc s"
  using assms by (cases inc)
    (auto simp: compiled_match_iff passes_def defaultedToMatchAll_def dot_star_matches_all_def)

lemma matchSelectorSets_iff:
  assumes "parseSelectors sel inc = Inr ims" and "parseSelectors sel exc = Inr ems"
  shows "matchSelectorSets ims ems l = passes (sel_matches sel) inc exc l"
  using parseSelectors_length [OF assms(1)]
  by (auto simp: matchSelectorSets_def passes_def list_ex_selectors [OF assms(1)]
      list_ex_selectors [OF assms(2)])

lemma CompilePodFilter_Match:
  assumes "CompilePodFilter sel il el ia ea = Inr f"
  shows "PodFilter_Match f pod \<longleftrightarrow>
           passes (sel_matches sel) il el (label_set (pod_Labels pod)) \<and>
           passes (sel_matches sel) ia ea (label_set (pod_Annotations pod))"
  using assms
  by (auto simp: CompilePodFilter_def PodFilter_Match_def matchSelectorSets_iff split: sum.splits)

lemma Prefix_Match_iff:
  "Prefix_Match p s \<longleftrightarrow> (\<exists>r. s = pf_prefix p @ r \<and> pf_Filter p r)"
  by (auto simp: Prefix_Match_def CutPrefix_Some_iff CutPrefix_None_iff HasPrefix_iff split: option.splits)

section \<open>The interface \<open>filterSelector\<close>\<close>

datatype dimension = DimImage | DimLabel | DimAnnotation | DimNamespace

fun item_of :: "dimension \<Rightarrow> FilterItem \<Rightarrow> string" where
  "item_of DimImage i = fi_Image i"
| "item_of DimLabel i = fi_Label i"
| "item_of DimAnnotation i = fi_Annotation i"
| "item_of DimNamespace i = []"

fun cluster_item_of :: "dimension \<Rightarrow> ClusterFilterItem \<Rightarrow> string" where
  "cluster_item_of DimImage i = fi_Image i"
| "cluster_item_of DimLabel i = fi_Label i"
| "cluster_item_of DimAnnotation i = fi_Annotation i"
| "cluster_item_of DimNamespace i = fi_Namespace i"

abbreviation filter_inc :: "Filter \<Rightarrow> dimension \<Rightarrow> string list" where
  "filter_inc f d \<equiv> collectStrings (flt_Include f) (item_of d)"

abbreviation filter_exc :: "Filter \<Rightarrow> dimension \<Rightarrow> string list" where
  "filter_exc f d \<equiv> collectStrings (flt_Exclude f) (item_of d)"

abbreviation cluster_inc :: "ClusterFilter \<Rightarrow> dimension \<Rightarrow> string list" where
  "cluster_inc f d \<equiv> collectStrings (cflt_Include f) (cluster_item_of d)"

abbreviation cluster_exc :: "ClusterFilter \<Rightarrow> dimension \<Rightarrow> string list" where
  "cluster_exc f d \<equiv> collectStrings (cflt_Exclude f) (cluster_item_of d)"

text \<open>
  The contract the accessors and their callers rely on: \<open>inc\<close> and \<open>exc\<close> give the items of
  a filter per dimension, the pod matcher reads the label, annotation and namespace
  dimensions, and the image filter the image dimension.
\<close>

locale filter_selector =
  fixes rx :: regexp_compile
    and sel :: selector_parse
    and isEmpty :: "'f \<Rightarrow> bool"
    and buildPodMatcher :: "'f \<Rightarrow> (Pod \<Rightarrow> bool) result"
    and buildImageFilter :: "'f \<Rightarrow> (string \<Rightarrow> bool) result"
    and inc :: "'f \<Rightarrow> dimension \<Rightarrow> string list"
    and exc :: "'f \<Rightarrow> dimension \<Rightarrow> string list"
  assumes empty_items: "isEmpty f \<Longrightarrow> inc f d = [] \<and> exc f d = []"
    and image_contract: "buildImageFilter f =
        compiled_match rx (defaultedToMatchAll (inc f DimImage)) (exc f DimImage)"
    and pod_contract: "buildPodMatcher f = Inr m \<Longrightarrow> dot_star_matches_all rx \<Longrightarrow>
        no_newline (pod_Namespace pod) \<Longrightarrow>
        m pod \<longleftrightarrow> passes (sel_matches sel) (inc f DimLabel) (exc f DimLabel) (label_set (pod_Labels pod))
          \<and> passes (sel_matches sel) (inc f DimAnnotation) (exc f DimAnnotation)
              (label_set (pod_Annotations pod))
          \<and> passes (rx_matches rx) (inc f DimNamespace) (exc f DimNamespace) (pod_Namespace pod)"
begin

text \<open>The pod matcher the accessors return, whether or not the filter is empty.\<close>

lemma podMatcher_passes:
  assumes "podMatcher isEmpty buildPodMatcher f = Inr m"
    and "dot_star_matches_all rx" and "no_newline (pod_Namespace pod)"
  shows "m pod \<longleftrightarrow> passes (sel_matches sel) (inc f DimLabel) (exc f DimLabel) (label_set (pod_Labels pod))
           \<and> passes (sel_matches sel) (inc f DimAnnotation) (exc f DimAnnotation)
               (label_set (pod_Annotations pod))
           \<and> passes (rx_matches rx) (inc f DimNamespace) (exc f DimNamespace) (pod_Namespace pod)"
proof (cases "isEmpty f")
  case True
  with assms(1) have "m = matchAllPods" by (simp add: podMatcher_def)
  with empty_items [OF True] show ?thesis by (simp add: matchAllPods_def)
next
  case False
  with assms show ?thesis by (simp add: podMatcher_def pod_contract)
qed

lemma imageFilter_passes:
  assumes "imageFilter isEmpty buildImageFilter f legacy = Inr m" and "\<not> isEmpty f"
    and "dot_star_matches_all rx" and "no_newline img"
  shows "m img = passes (rx_matches rx) (inc f DimImage) (exc f DimImage) img"
  using assms by (simp add: imageFilter_def image_contract compiled_match_default)

lemma imageFilter_legacy: "isEmpty f \<Longrightarrow> imageFilter isEmpty buildImageFilter f legacy = legacy"
  by (simp add: imageFilter_def)

end

interpretation namespaced: filter_selector rx sel Filter_IsEmpty "Filter_BuildPodMatcher sel"
    "Filter_BuildImageFilter rx" filter_inc filter_exc
  for rx sel
proof unfold_locales
  fix f :: Filter and d
  assume "Filter_IsEmpty f"
  then show "filter_inc f d = [] \<and> filter_exc f d = []"
    by (simp add: Filter_IsEmpty_def collectStrings_def)
next
  fix f :: Filter
  have "item_of DimImage = fi_Image" by (rule ext) simp
  then show "Filter_BuildImageFilter rx f
      = compiled_match rx (defaultedToMatchAll (filter_inc f DimImage)) (filter_exc f DimImage)"
    by (simp add: Filter_BuildImageFilter_def)
next
  fix f :: Filter and m and pod :: Pod
  assume "Filter_BuildPodMatcher sel f = Inr m"
  moreover have "item_of DimLabel = fi_Label" "item_of DimAnnotation = fi_Annotation"
    by (rule ext, simp)+
  moreover have "collectStrings xs (item_of DimNamespace) = []" for xs
    by (simp add: collectStrings_def)
  ultimately show "m pod \<longleftrightarrow>
      passes (sel_matches sel) (filter_inc f DimLabel) (filter_exc f DimLabel) (label_set (pod_Labels pod))
      \<and> passes (sel_matches sel) (filter_inc f DimAnnotation) (filter_exc f DimAnnotation)
          (label_set (pod_Annotations pod))
      \<and> passes (rx_matches rx) (filter_inc f DimNamespace) (filter_exc f DimNamespace) (pod_Namespace pod)"
    by (auto simp: Filter_BuildPodMatcher_def CompilePodFilter_Match split: sum.splits)
qed

lemma cluster_item_of_fun:
  "cluster_item_of DimImage = fi_Image" "cluster_item_of DimLabel = fi_Label"
  "cluster_item_of DimAnnotation = fi_Annotation" "cluster_item_of DimNamespace = fi_Namespace"
  by (rule ext, simp)+

lemma collect_truncate:
  "collectStrings (map FilterItem.truncate is) (item_of d) =
     (if d = DimNamespace then [] else collectStrings is (cluster_item_of d))"
  by (cases d) (simp_all add: collectStrings_def o_def cluster_item_of_fun)

lemma ToFilter_items:
  "filter_inc (ToFilter cf) d = (if d = DimNamespace then [] else cluster_inc cf d)"
  "filter_exc (ToFilter cf) d = (if d = DimNamespace then [] else cluster_exc cf d)"
  by (simp_all add: ToFilter_def collect_truncate)

interpretation clusterwide: filter_selector rx sel ClusterFilter_IsEmpty
    "ClusterFilter_BuildPodMatcher rx sel" "ClusterFilter_BuildImageFilter rx" cluster_inc cluster_exc
  for rx sel
proof unfold_locales
  fix f :: ClusterFilter and d
  assume "ClusterFilter_IsEmpty f"
  then show "cluster_inc f d = [] \<and> cluster_exc f d = []"
    by (simp add: ClusterFilter_IsEmpty_def collectStrings_def)
next
  fix f :: ClusterFilter
  show "ClusterFilter_BuildImageFilter rx f
      = compiled_match rx (defaultedToMatchAll (cluster_inc f DimImage)) (cluster_exc f DimImage)"
    by (simp add: ClusterFilter_BuildImageFilter_def namespaced.image_contract ToFilter_items)
next
  fix f :: ClusterFilter and m and pod :: Pod
  assume m: "ClusterFilter_BuildPodMatcher rx sel f = Inr m"
    and rx: "dot_star_matches_all rx" "no_newline (pod_Namespace pod)"
  from m obtain pm nm where pm: "Filter_BuildPodMatcher sel (ToFilter f) = Inr pm"
    and nm: "compiled_match rx (defaultedToMatchAll (cluster_inc f DimNamespace))
               (cluster_exc f DimNamespace) = Inr nm"
    and "m = (\<lambda>pod. pm pod \<and> nm (pod_Namespace pod))"
    by (auto simp: ClusterFilter_BuildPodMatcher_def cluster_item_of_fun split: sum.splits)
  then show "m pod \<longleftrightarrow>
      passes (sel_matches sel) (cluster_inc f DimLabel) (cluster_exc f DimLabel) (label_set (pod_Labels pod))
      \<and> passes (sel_matches sel) (cluster_inc f DimAnnotation) (cluster_exc f DimAnnotation)
          (label_set (pod_Annotations pod))
      \<and> passes (rx_matches rx) (cluster_inc f DimNamespace) (cluster_exc f DimNamespace) (pod_Namespace pod)"
    using namespaced.pod_contract [OF pm rx] compiled_match_default [OF nm rx]
    by (simp add: ToFilter_items)
qed

section \<open>Properties\<close>

text \<open>Parameters for the witnesses: literal patterns plus \<open>.*\<close>, and presence selectors.\<close>

definition literal_rx :: regexp_compile where
  "literal_rx p =
     (if p = ''^([)$'' then None
      else Some (\<lambda>s. p = ''^(.*)$'' \<or> p = ''^('' @ s @ '')$''))"

definition presence_sel :: selector_parse where
  "presence_sel k = (if k = [] then None else Some (\<lambda>l. l k \<noteq> None))"

lemma literal_rx_dot_star: "dot_star_matches_all literal_rx"
  by (simp add: dot_star_matches_all_def rx_matches_def literal_rx_def)

text \<open>
  C38. The pods a \<open>ClusterImageSetMirror\<close> applies to are the ones the documentation
  names: within the label, annotation and namespace dimensions some include item matches
  (or the dimension has none), across them all dimensions must pass, and any matching
  exclude item drops the pod.
\<close>

theorem cluster_pod_filter_documented:
  assumes "CISM_PodMatcher rx sel c = Inr m"
    and "dot_star_matches_all rx" and "no_newline (pod_Namespace pod)"
  shows "m pod \<longleftrightarrow>
     passes (sel_matches sel) (cluster_inc (cism_Filter c) DimLabel) (cluster_exc (cism_Filter c) DimLabel)
       (label_set (pod_Labels pod)) \<and>
     passes (sel_matches sel) (cluster_inc (cism_Filter c) DimAnnotation)
       (cluster_exc (cism_Filter c) DimAnnotation) (label_set (pod_Annotations pod)) \<and>
     passes (rx_matches rx) (cluster_inc (cism_Filter c) DimNamespace)
       (cluster_exc (cism_Filter c) DimNamespace) (pod_Namespace pod)"
  using assms unfolding CISM_PodMatcher_def by (rule clusterwide.podMatcher_passes)

definition example_meta :: "string \<Rightarrow> string \<Rightarrow> ObjectMeta" where
  "example_meta name ns =
     \<lparr>om_Name = name, om_Namespace = ns, om_UID = ''uid-'' @ name, om_Finalizers = [],
      om_DeletionTimestamp = None\<rparr>"

definition example_base :: "64 word \<Rightarrow> Mirror list \<Rightarrow> ImageSetMirrorBase" where
  "example_base prio ms =
     \<lparr>isb_Priority = prio, isb_ImageFilter = \<lparr>ifd_Include = [], ifd_Exclude = []\<rparr>,
      isb_Cleanup = \<lparr>cl_Enabled = False, cl_Retention = 0\<rparr>, isb_Mirrors = ms\<rparr>"

definition example_cism :: "ClusterFilterItem list \<Rightarrow> ClusterFilterItem list \<Rightarrow> ClusterImageSetMirror" where
  "example_cism inc exc =
     \<lparr>cism_Meta = example_meta ''global'' [], cism_Base = example_base 0 [],
      cism_Filter = \<lparr>cflt_Include = inc, cflt_Exclude = exc\<rparr>, cism_MatchingImages = []\<rparr>"

definition example_pod :: "string \<Rightarrow> (string \<rightharpoonup> string) \<Rightarrow> Pod" where
  "example_pod ns labels =
     \<lparr>pod_Name = ''web'', pod_Namespace = ns, pod_Labels = Some labels, pod_Annotations = None,
      pod_Containers = [], pod_InitContainers = [], pod_ImagePullSecrets = []\<rparr>"

theorem cluster_pod_filter_documented_witness:
  "\<exists>m. CISM_PodMatcher literal_rx presence_sel
        (example_cism [\<lparr>fi_Image = [], fi_Label = ''app'', fi_Annotation = [], fi_Namespace = []\<rparr>]
           [\<lparr>fi_Image = [], fi_Label = [], fi_Annotation = [], fi_Namespace = ''dev''\<rparr>]) = Inr m \<and>
      m (example_pod ''prod'' [''app'' \<mapsto> ''x'']) \<and> \<not> m (example_pod ''dev'' [''app'' \<mapsto> ''x''])
      \<and> \<not> m (example_pod ''prod'' Map.empty)"
  (is "\<exists>m. ?M = Inr m \<and> _")
proof -
  have "is_ok ?M"
    by (simp add: CISM_PodMatcher_def podMatcher_def ClusterFilter_BuildPodMatcher_def
        Filter_BuildPodMatcher_def CompilePodFilter_def parseSelectors_def parse_selector_def
        example_cism_def ToFilter_def collectStrings_def presence_sel_def compiled_match_def
        CompileIncludeExcludeFilter_def compile_anchored_def literal_rx_def defaultedToMatchAll_def
        ClusterFilter_IsEmpty_def)
  then obtain m where m: "?M = Inr m" by (auto simp: is_ok_iff)
  note iff = cluster_pod_filter_documented [OF m literal_rx_dot_star]
  have "m (example_pod ''prod'' [''app'' \<mapsto> ''x''])" "\<not> m (example_pod ''dev'' [''app'' \<mapsto> ''x''])"
    "\<not> m (example_pod ''prod'' Map.empty)"
    by (subst iff, simp add: example_pod_def no_newline_def,
        simp add: example_pod_def example_cism_def collectStrings_def passes_def rx_matches_def
          sel_matches_def literal_rx_def presence_sel_def label_set_def)+
  with m show ?thesis by blast
qed

text \<open>
  With a non-empty \<open>spec.filter\<close> the images an \<open>ImageSetMirror\<close> selects are the
  ones the documentation names, on the whole reference: some image include item matches
  (or there is none, as in a filter of label items only) and no image exclude item does.
\<close>

theorem image_filter_documented:
  assumes "ISM_ImageFilter rx i = Inr m" and "\<not> Filter_IsEmpty (ism_Filter i)"
    and "dot_star_matches_all rx" and "no_newline img"
  shows "m img \<longleftrightarrow>
     passes (rx_matches rx) (filter_inc (ism_Filter i) DimImage) (filter_exc (ism_Filter i) DimImage) img"
  using assms unfolding ISM_ImageFilter_def by (rule namespaced.imageFilter_passes)

definition example_ism ::
  "string \<Rightarrow> 64 word \<Rightarrow> FilterItem list \<Rightarrow> FilterItem list \<Rightarrow> Mirror list \<Rightarrow> ImageSetMirror" where
  "example_ism ns prio inc exc ms =
     \<lparr>ism_Meta = example_meta ''team'' ns, ism_Base = example_base prio ms,
      ism_Filter = \<lparr>flt_Include = inc, flt_Exclude = exc\<rparr>, ism_MatchingImages = []\<rparr>"

theorem image_filter_documented_witness:
  "\<exists>m. ISM_ImageFilter literal_rx
        (example_ism ''prod'' 0 [] [\<lparr>fi_Image = ''docker.io/evil:1'', fi_Label = [], fi_Annotation = []\<rparr>] [])
        = Inr m \<and> m ''docker.io/good:1'' \<and> \<not> m ''docker.io/evil:1''"
  (is "\<exists>m. ISM_ImageFilter literal_rx ?i = Inr m \<and> _")
proof -
  have "is_ok (ISM_ImageFilter literal_rx ?i)"
    by (simp add: ISM_ImageFilter_def imageFilter_def Filter_BuildImageFilter_def example_ism_def
        collectStrings_def compiled_match_def CompileIncludeExcludeFilter_def compile_anchored_def
        literal_rx_def defaultedToMatchAll_def Filter_IsEmpty_def)
  then obtain m where m: "ISM_ImageFilter literal_rx ?i = Inr m" by (auto simp: is_ok_iff)
  have ne: "\<not> Filter_IsEmpty (ism_Filter ?i)" by (simp add: Filter_IsEmpty_def example_ism_def)
  have "m ''docker.io/good:1''" "\<not> m ''docker.io/evil:1''"
    by (subst image_filter_documented [OF m ne literal_rx_dot_star], simp add: no_newline_def,
        simp add: example_ism_def collectStrings_def passes_def rx_matches_def literal_rx_def)+
  with m show ?thesis by blast
qed

text \<open>
  A mirror resource with neither \<open>spec.filter\<close> nor \<open>spec.imageFilter\<close> selects
  every pod but no image at all: its image filter compiles, and matches nothing.
\<close>

theorem empty_filter_matches_no_image:
  assumes "ClusterFilter_IsEmpty (cism_Filter c)"
    and "isb_ImageFilter (cism_Base c) = \<lparr>ifd_Include = [], ifd_Exclude = []\<rparr>"
  shows "\<exists>pm im. CISM_PodMatcher rx sel c = Inr pm \<and> (\<forall>pod. pm pod) \<and>
                 CISM_ImageFilter rx c = Inr im \<and> (\<forall>img. \<not> im img)"
  using assms
  by (simp add: CISM_PodMatcher_def podMatcher_def matchAllPods_def [abs_def] CISM_ImageFilter_def
      clusterwide.imageFilter_legacy ImageFilter_Build_def compiled_match_def
      CompileIncludeExcludeFilter_def IncludeExclude_Match_def)

theorem empty_filter_matches_no_image_witness:
  "\<exists>pm im. CISM_PodMatcher literal_rx presence_sel (example_cism [] []) = Inr pm \<and> (\<forall>pod. pm pod) \<and>
           CISM_ImageFilter literal_rx (example_cism [] []) = Inr im \<and> (\<forall>img. \<not> im img)"
  by (rule empty_filter_matches_no_image)
    (simp_all add: example_cism_def example_base_def ClusterFilter_IsEmpty_def)

text \<open>
  An upstream's image filter, built with its registry, matches the images of that registry
  whose remainder the patterns match.
\<close>

lemma BuildWithRegistry_iff:
  assumes "ImageFilter_BuildWithRegistry rx i registry = Inr m"
  shows "\<exists>f. ImageFilter_Build rx i = Inr f \<and> (\<forall>s. m s \<longleftrightarrow> (\<exists>r. s = registry @ r \<and> f r))"
  using assms
  by (auto simp: ImageFilter_BuildWithRegistry_def AddPrefixToFilter_def Prefix_Match_iff
      split: sum.splits)

lemma BuildWithRegistry_prefix:
  "ImageFilter_BuildWithRegistry rx i registry = Inr m \<Longrightarrow> m s \<Longrightarrow> HasPrefix s registry"
  by (auto dest!: BuildWithRegistry_iff)

end
