(* ===== verification/References.thy ===== *)
theory References
  imports Filters
begin

text \<open>
  \<open>internal/internal.go\<close>: image references. The parser of the distribution library,
  \<open>reference.ParseNormalizedNamed\<close>, is the parameter \<open>parse\<close>; what it documents, that a
  normalised reference contains its registry and parses to itself, is \<open>normalizing parse\<close>.
\<close>

text \<open>A \<open>reference.Named\<close>: its \<open>Name()\<close> (no tag) and its \<open>String()\<close>.\<close>

record Named =
  nmd_Name :: string
  nmd_String :: string

type_synonym ref_parser = "string \<Rightarrow> Named result"

definition normalizing :: "ref_parser \<Rightarrow> bool" where
  "normalizing parse \<longleftrightarrow>
     (\<forall>s n. parse s = Inr n \<longrightarrow> CHR ''/'' \<in> set (nmd_String n) \<and> parse (nmd_String n) = Inr n)"

definition RegistryAndPathFromReference :: "ref_parser \<Rightarrow> string \<Rightarrow> (string \<times> string) result" where
  "RegistryAndPathFromReference parse img =
     (case parse img of
        Inl e \<Rightarrow> Inl e
      | Inr named \<Rightarrow>
          (case SplitN2 CHR ''/'' (nmd_String named) of
             p0 # p1 # _ \<Rightarrow> Inr (p0, p1)
           | _ \<Rightarrow> Inl (EPanic ''index out of range'')))"

definition NormalizeAndMatch ::
  "ref_parser \<Rightarrow> (string \<Rightarrow> bool) \<Rightarrow> string \<Rightarrow> (Named \<times> bool) result" where
  "NormalizeAndMatch parse match img =
     (case parse img of Inl e \<Rightarrow> Inl e | Inr named \<Rightarrow> Inr (named, match (nmd_String named)))"

text \<open>Reading a secret from the API server is the parameter \<open>get\<close>.\<close>

definition GetPullSecretsFromPod ::
  "(string \<Rightarrow> string \<Rightarrow> Secret result) \<Rightarrow> Pod \<Rightarrow> Secret list result" where
  "GetPullSecretsFromPod get pod = traverse (get (pod_Namespace pod)) (pod_ImagePullSecrets pod)"

lemma split_at_first: "c \<in> set s \<Longrightarrow> \<exists>a b. s = a @ c # b \<and> c \<notin> set a"
  by (meson split_list_first)

lemma RegistryAndPath_parts:
  assumes "normalizing parse" and "parse img = Inr n"
  shows "\<exists>r p. RegistryAndPathFromReference parse img = Inr (r, p) \<and>
               nmd_String n = r @ CHR ''/'' # p \<and> CHR ''/'' \<notin> set r"
proof -
  from assms have "CHR ''/'' \<in> set (nmd_String n)" by (auto simp: normalizing_def)
  then obtain r p where "nmd_String n = r @ CHR ''/'' # p" and "CHR ''/'' \<notin> set r"
    by (meson split_at_first)
  then show ?thesis by (simp add: RegistryAndPathFromReference_def assms(2) SplitN2_append)
qed

lemma normalizing_String: "normalizing parse \<Longrightarrow> parse s = Inr n \<Longrightarrow> parse (nmd_String n) = Inr n"
  by (auto simp: normalizing_def)

text \<open>
  A parser for the witnesses: a name with a slash is taken as it is, any other is a Docker
  Hub library image.
\<close>

definition example_parse :: ref_parser where
  "example_parse s =
     (if s = [] then Inl (EMsg ''invalid reference format'')
      else
        let full = (if CHR ''/'' \<in> set s then s else ''docker.io/library/'' @ s)
        in Inr \<lparr>nmd_Name = full, nmd_String = full\<rparr>)"

lemma example_parse_normalizing: "normalizing example_parse"
  by (auto simp: normalizing_def example_parse_def Let_def split: if_splits)

text \<open>
  With a parser that keeps its documented contract, splitting a valid reference never
  runs out of range: it gives the registry and the path of the normalised reference, and
  the registry holds no slash.
\<close>

theorem registry_and_path_total:
  assumes "normalizing parse" and "parse img = Inr n"
  shows "\<exists>r p. RegistryAndPathFromReference parse img = Inr (r, p) \<and>
               nmd_String n = r @ CHR ''/'' # p \<and> CHR ''/'' \<notin> set r"
  using assms by (rule RegistryAndPath_parts)

theorem registry_and_path_total_witness:
  "\<exists>r p. RegistryAndPathFromReference example_parse ''nginx:1'' = Inr (r, p) \<and>
         ''docker.io/library/nginx:1'' = r @ CHR ''/'' # p \<and> CHR ''/'' \<notin> set r"
  using registry_and_path_total [OF example_parse_normalizing, of "''nginx:1''"
      "\<lparr>nmd_Name = ''docker.io/library/nginx:1'', nmd_String = ''docker.io/library/nginx:1''\<rparr>"]
  by (simp add: example_parse_def Let_def)

end
