(* ===== verification/MirrorMerge.thy ===== *)
theory MirrorMerge
  imports References
begin

text \<open>
  The bookkeeping of \<open>internal/controller/kuik/mirror_reconciler.go\<close>: which images of which
  pods a mirror resource covers, which are still in use, and how the status of the resource is
  merged from its previous content and the current pods. Go maps are association lists with
  distinct keys; the order in which a map is visited is the parameter \<open>ord\<close>.
\<close>

section \<open>Images of pods\<close>

definition has_digest :: "string \<Rightarrow> bool" where
  "has_digest img \<longleftrightarrow> CHR ''@'' \<in> set img"

definition pod_container_images :: "Pod \<Rightarrow> string list" where
  "pod_container_images pod = map ctr_Image (pod_InitContainers pod @ pod_Containers pod)"

definition normalized_name :: "ref_parser \<Rightarrow> string \<Rightarrow> string option" where
  "normalized_name parse img =
     (if has_digest img then None
      else case parse img of Inl _ \<Rightarrow> None | Inr named \<Rightarrow> Some (nmd_String named))"

text \<open>\<open>normalizedImageNamesFromPod\<close>: the keys of a map, in the order of first insertion.\<close>

definition normalizedImageNamesFromPod :: "ref_parser \<Rightarrow> Pod \<Rightarrow> string list" where
  "normalizedImageNamesFromPod parse pod =
     rev (remdups (rev (List.map_filter (normalized_name parse) (pod_container_images pod))))"

text \<open>
  With the original-images annotation: current images map to false, then original ones to
  true. \<open>originals\<close> are the values of the decoded annotation in visiting order.
\<close>

definition normalizedImageNamesMapFromAnnotatedPod ::
  "ref_parser \<Rightarrow> (string \<Rightarrow> string list) \<Rightarrow> Pod \<Rightarrow> (string \<times> bool) list" where
  "normalizedImageNamesMapFromAnnotatedPod parse originals pod =
     (let current = List.map_filter (normalized_name parse) (pod_container_images pod);
          stashed = (case map_get (pod_Annotations pod) ''kuik.enix.io/original-images'' of
                       None \<Rightarrow> [] | Some s \<Rightarrow> originals s)
      in foldl (\<lambda>m img. AList.update img True m)
           (foldl (\<lambda>m img. AList.update img False m) [] current)
           (List.map_filter (normalized_name parse) stashed))"

definition podsInUseImages :: "ref_parser \<Rightarrow> (string \<Rightarrow> string list) \<Rightarrow> Pod list \<Rightarrow> string list" where
  "podsInUseImages parse originals pods =
     concat (map (\<lambda>p. keys (normalizedImageNamesMapFromAnnotatedPod parse originals p)) pods)"

section \<open>Mirror prefixes\<close>

text \<open>\<open>getAllMirrorPrefixes\<close> on the two lists it reads: the prefixes per namespace.\<close>

definition getAllMirrorPrefixes ::
  "ClusterImageSetMirror list \<Rightarrow> ImageSetMirror list \<Rightarrow> bool \<Rightarrow> string \<Rightarrow> string list" where
  "getAllMirrorPrefixes cisms isms ignoreNamespaces ns =
     (if ns = [] then concat (map (\<lambda>c. map Mirror_Prefix (isb_Mirrors (cism_Base c))) cisms) else [])
     @ concat (map (\<lambda>i. map Mirror_Prefix (isb_Mirrors (ism_Base i)))
         (filter (\<lambda>i. (if ignoreNamespaces then [] else om_Namespace (ism_Meta i)) = ns) isms))"

definition is_mirrored_name :: "(string \<Rightarrow> string list) \<Rightarrow> string \<Rightarrow> string \<Rightarrow> bool" where
  "is_mirrored_name prefixes ns img = list_ex (\<lambda>p. HasPrefix img p) (prefixes [] @ prefixes ns)"

definition add_pod_images ::
  "ref_parser \<Rightarrow> (string list \<Rightarrow> string list) \<Rightarrow> (string \<Rightarrow> bool) \<Rightarrow> (string \<Rightarrow> string list) \<Rightarrow> Pod \<Rightarrow>
     (string \<times> Pod) list \<Rightarrow> (string \<times> Pod) list" where
  "add_pod_images parse ord match prefixes pod m =
     foldl (\<lambda>m img.
         if is_mirrored_name prefixes (pod_Namespace pod) img then m
         else if match img then AList.update img pod m else m)
       m (ord (normalizedImageNamesFromPod parse pod))"

definition podsByNormalizedMatchingImages ::
  "ref_parser \<Rightarrow> (string list \<Rightarrow> string list) \<Rightarrow> (string \<Rightarrow> bool) \<Rightarrow> (string \<Rightarrow> string list) \<Rightarrow> Pod list \<Rightarrow>
     (string \<times> Pod) list" where
  "podsByNormalizedMatchingImages parse ord match prefixes pods =
     foldl (\<lambda>m pod. add_pod_images parse ord match prefixes pod m) [] pods"

section \<open>Merging\<close>

fun add_missing :: "string list \<Rightarrow> MirrorStatus list \<Rightarrow> MirrorStatus list \<Rightarrow> MirrorStatus list" where
  "add_missing currentImages currentMirrors [] = currentMirrors"
| "add_missing currentImages currentMirrors (m # expected) =
     (if ms_Image m \<in> set currentImages then add_missing currentImages currentMirrors expected
      else add_missing currentImages (currentMirrors @ [m]) expected)"

definition mergeMirrors :: "MirrorStatus list \<Rightarrow> MirrorStatus list \<Rightarrow> MirrorStatus list" where
  "mergeMirrors currentMirrors expectedMirrors =
     add_missing (map ms_Image currentMirrors) currentMirrors expectedMirrors"

definition expected_mirrors :: "Mirror list \<Rightarrow> string \<Rightarrow> MirrorStatus list result" where
  "expected_mirrors mirrors img =
     traverse (\<lambda>m. case SplitN2 CHR ''/'' img of
                 _ # rest # _ \<Rightarrow>
                   Inr \<lparr>ms_Image = path_Join [mir_Registry m, mir_Path m, rest],
                        ms_MirroredAt = None, ms_LastError = None\<rparr>
               | _ \<Rightarrow> Inl (EPanic ''index out of range'')) mirrors"

text \<open>The new value of \<open>UnusedSince\<close> of one image.\<close>

definition unused_since :: "int \<Rightarrow> bool \<Rightarrow> bool \<Rightarrow> mtime \<Rightarrow> mtime" where
  "unused_since now match in_use previous =
     (if \<not> match then
        (if \<not> mt_Equal previous (Some instant_expiry) then Some instant_expiry else previous)
      else if \<not> in_use then (if mt_IsZero previous then Some now else previous)
      else None)"

fun updateUnusedSince ::
  "ref_parser \<Rightarrow> int \<Rightarrow> (string \<times> MatchingImage) list \<Rightarrow> string list \<Rightarrow> MatchingImage list \<Rightarrow>
     (string \<Rightarrow> bool) \<Rightarrow> (string \<times> MatchingImage) list result" where
  "updateUnusedSince parse now m inUse [] match = Inr m"
| "updateUnusedSince parse now m inUse (img # imgs) match =
     (case NormalizeAndMatch parse match (mat_Image img) of
        Inl e \<Rightarrow> Inl e
      | Inr (named, ok) \<Rightarrow>
          (let key = nmd_String named;
               expected = (case map_of m key of None \<Rightarrow> [] | Some x \<Rightarrow> mat_Mirrors x);
               img' = img\<lparr>mat_UnusedSince := unused_since now ok (key \<in> set inUse) (mat_UnusedSince img),
                          mat_Mirrors := mergeMirrors (mat_Mirrors img) expected\<rparr>
           in updateUnusedSince parse now (AList.update key img' m) inUse imgs match))"

definition matching_entries :: "Mirror list \<Rightarrow> string list \<Rightarrow> (string \<times> MatchingImage) list result" where
  "matching_entries mirrors imgs =
     traverse (\<lambda>img. case expected_mirrors mirrors img of
                 Inl e \<Rightarrow> Inl e
               | Inr ms \<Rightarrow> Inr (img, \<lparr>mat_Image = img, mat_Mirrors = ms, mat_UnusedSince = None\<rparr>)) imgs"

text \<open>The result: the pods by matching image and the new status.\<close>

definition mergePreviousAndCurrentMatchingImages ::
  "ref_parser \<Rightarrow> (string \<Rightarrow> string list) \<Rightarrow> (string list \<Rightarrow> string list) \<Rightarrow> int \<Rightarrow> Pod list \<Rightarrow>
     Mirror list \<Rightarrow> MatchingImage list \<Rightarrow> (string \<Rightarrow> string list) \<Rightarrow> (string \<Rightarrow> bool) \<Rightarrow>
     ((string \<times> Pod) list \<times> MatchingImage list) result" where
  "mergePreviousAndCurrentMatchingImages parse originals ord now pods mirrors status prefixes match =
     (let byImage = podsByNormalizedMatchingImages parse ord match prefixes pods
      in (case matching_entries mirrors (ord (keys byImage)) of
            Inl e \<Rightarrow> Inl e
          | Inr entries \<Rightarrow>
              (case updateUnusedSince parse now entries (podsInUseImages parse originals pods) status match of
                 Inl e \<Rightarrow> Inl e
               | Inr m \<Rightarrow> Inr (byImage, map (\<lambda>k. the (map_of m k)) (ord (keys m))))))"

section \<open>The images covered\<close>

lemma set_map_filter: "set (List.map_filter f xs) = {y. \<exists>x\<in>set xs. f x = Some y}"
  by (force simp: List.map_filter_def)

lemma normalized_names_iff:
  "img \<in> set (normalizedImageNamesFromPod parse pod) \<longleftrightarrow>
     (\<exists>i\<in>set (pod_container_images pod). normalized_name parse i = Some img)"
  by (simp add: normalizedImageNamesFromPod_def set_map_filter)

lemma add_pod_images_keys:
  assumes "range_order ord"
  shows "set (keys (add_pod_images parse ord match prefixes pod m)) =
     set (keys m) \<union> {img \<in> set (normalizedImageNamesFromPod parse pod).
        match img \<and> \<not> is_mirrored_name prefixes (pod_Namespace pod) img}"
proof -
  have "set (keys (foldl (\<lambda>m img. if is_mirrored_name prefixes (pod_Namespace pod) img then m
         else if match img then AList.update img pod m else m) m imgs)) =
      set (keys m) \<union> {img \<in> set imgs. match img \<and> \<not> is_mirrored_name prefixes (pod_Namespace pod) img}"
    for imgs by (induction imgs arbitrary: m) auto
  then show ?thesis by (simp add: add_pod_images_def range_order_set [OF assms])
qed

lemma pods_by_images_keys:
  assumes "range_order ord"
  shows "set (keys (podsByNormalizedMatchingImages parse ord match prefixes pods)) =
     {img. \<exists>pod\<in>set pods. img \<in> set (normalizedImageNamesFromPod parse pod)
        \<and> match img \<and> \<not> is_mirrored_name prefixes (pod_Namespace pod) img}"
proof -
  have "set (keys (foldl (\<lambda>m pod. add_pod_images parse ord match prefixes pod m) m pods)) =
      set (keys m) \<union> {img. \<exists>pod\<in>set pods. img \<in> set (normalizedImageNamesFromPod parse pod)
        \<and> match img \<and> \<not> is_mirrored_name prefixes (pod_Namespace pod) img}" for m
    by (induction pods arbitrary: m) (auto simp: add_pod_images_keys [OF assms])
  then show ?thesis by (simp add: podsByNormalizedMatchingImages_def)
qed

lemma pods_by_images_distinct: "distinct (keys (podsByNormalizedMatchingImages parse ord match prefixes pods))"
proof -
  have pod: "distinct (keys m) \<Longrightarrow> distinct (keys (add_pod_images parse ord match prefixes pod m))" for m pod
  proof -
    have "distinct (keys m) \<Longrightarrow> distinct (keys (foldl (\<lambda>m img. if is_mirrored_name prefixes (pod_Namespace pod) img then m
         else if match img then AList.update img pod m else m) m imgs))" for imgs
      by (induction imgs arbitrary: m) (auto simp: distinct_keys_update)
    then show "distinct (keys m) \<Longrightarrow> distinct (keys (add_pod_images parse ord match prefixes pod m))"
      by (simp add: add_pod_images_def)
  qed
  have "distinct (keys m) \<Longrightarrow>
      distinct (keys (foldl (\<lambda>m pod. add_pod_images parse ord match prefixes pod m) m pods))" for m
    by (induction pods arbitrary: m) (simp_all add: pod)
  then show ?thesis by (simp add: podsByNormalizedMatchingImages_def)
qed

section \<open>Merging mirrors\<close>

lemma add_missing_spec:
  "add_missing imgs cur expected = cur @ filter (\<lambda>m. ms_Image m \<notin> set imgs) expected"
  by (induction expected arbitrary: cur) auto

lemma mergeMirrors_spec:
  "mergeMirrors cur expected = cur @ filter (\<lambda>m. ms_Image m \<notin> ms_Image ` set cur) expected"
  by (simp add: mergeMirrors_def add_missing_spec)

text \<open>
  Merging mirrors loses and repeats nothing: the mirrors already recorded keep their
  place and their state, every expected mirror is present afterwards, and mirrors that were
  distinct stay so; merging the same expectation again changes nothing.
\<close>

theorem merge_mirrors_complete:
  assumes "distinct (map ms_Image cur)" and "distinct (map ms_Image expected)"
  shows "take (length cur) (mergeMirrors cur expected) = cur
     \<and> ms_Image ` set (mergeMirrors cur expected) = ms_Image ` set cur \<union> ms_Image ` set expected
     \<and> distinct (map ms_Image (mergeMirrors cur expected))
     \<and> mergeMirrors (mergeMirrors cur expected) expected = mergeMirrors cur expected"
proof -
  have "distinct (map ms_Image (filter (\<lambda>m. ms_Image m \<notin> ms_Image ` set cur) expected))"
    using assms(2) by (rule distinct_map_filter)
  then show ?thesis
    using assms(1) by (auto simp: mergeMirrors_spec filter_empty_conv image_iff)
qed

definition example_mirror_status :: "string \<Rightarrow> mtime \<Rightarrow> MirrorStatus" where
  "example_mirror_status img t = \<lparr>ms_Image = img, ms_MirroredAt = t, ms_LastError = None\<rparr>"

theorem merge_mirrors_complete_witness:
  "mergeMirrors (mergeMirrors [example_mirror_status ''m/a'' (Some 5)]
       [example_mirror_status ''m/a'' None, example_mirror_status ''n/a'' None])
     [example_mirror_status ''m/a'' None, example_mirror_status ''n/a'' None]
   = mergeMirrors [example_mirror_status ''m/a'' (Some 5)]
       [example_mirror_status ''m/a'' None, example_mirror_status ''n/a'' None]"
  using merge_mirrors_complete [of "[example_mirror_status ''m/a'' (Some 5)]"
      "[example_mirror_status ''m/a'' None, example_mirror_status ''n/a'' None]"]
  by (simp add: example_mirror_status_def)

section \<open>Mirror loops\<close>

lemma add_pod_images_lookup:
  assumes "range_order ord" and "map_of (add_pod_images parse ord match prefixes pod m) img = Some q"
  shows "map_of m img = Some q
    \<or> q = pod \<and> img \<in> set (normalizedImageNamesFromPod parse pod) \<and> match img
        \<and> \<not> is_mirrored_name prefixes (pod_Namespace pod) img"
proof -
  have "map_of (foldl (\<lambda>m img. if is_mirrored_name prefixes (pod_Namespace pod) img then m
         else if match img then AList.update img pod m else m) m imgs) img = Some q \<Longrightarrow>
      map_of m img = Some q \<or> q = pod \<and> img \<in> set imgs \<and> match img
        \<and> \<not> is_mirrored_name prefixes (pod_Namespace pod) img" for imgs
  proof (induction imgs arbitrary: m)
    case Nil
    then show ?case by simp
  next
    case (Cons x xs)
    let ?m = "if is_mirrored_name prefixes (pod_Namespace pod) x then m
         else if match x then AList.update x pod m else m"
    from Cons.prems have "map_of (foldl (\<lambda>m img. if is_mirrored_name prefixes (pod_Namespace pod) img then m
         else if match img then AList.update img pod m else m) ?m xs) img = Some q" by simp
    from Cons.IH [OF this] show ?case by (cases "img = x") (auto split: if_splits)
  qed
  from this [of "ord (normalizedImageNamesFromPod parse pod)"] show ?thesis
    using assms(2) by (simp add: add_pod_images_def range_order_set [OF assms(1)])
qed

lemma pods_by_images_lookup:
  assumes "range_order ord"
    and "map_of (podsByNormalizedMatchingImages parse ord match prefixes pods) img = Some pod"
  shows "pod \<in> set pods \<and> img \<in> set (normalizedImageNamesFromPod parse pod) \<and> match img
    \<and> \<not> is_mirrored_name prefixes (pod_Namespace pod) img"
proof -
  have "map_of (foldl (\<lambda>m pod. add_pod_images parse ord match prefixes pod m) m pods) img = Some pod \<Longrightarrow>
      map_of m img = Some pod
      \<or> pod \<in> set pods \<and> img \<in> set (normalizedImageNamesFromPod parse pod) \<and> match img
        \<and> \<not> is_mirrored_name prefixes (pod_Namespace pod) img" for m
    by (induction pods arbitrary: m) (auto dest: add_pod_images_lookup [OF assms(1)])
  from this [of "[]"] assms(2) show ?thesis by (auto simp: podsByNormalizedMatchingImages_def)
qed

text \<open>A mirror whose registry is a host and whose paths do not climb.\<close>

definition plain_mirror :: "Mirror \<Rightarrow> bool" where
  "plain_mirror m \<longleftrightarrow> mir_Registry m \<noteq> [] \<and> hd (mir_Registry m) \<noteq> CHR ''/'' \<and>
     no_dotdot (mir_Registry m) \<and> no_dotdot (mir_Path m) \<and> segs (mir_Registry m) \<noteq> []"

lemma HasPrefix_join_segs: "A \<noteq> [] \<Longrightarrow> HasPrefix (join_with ''/'' (A @ B)) (join_with ''/'' A)"
  using HasPrefix_append [of "join_with ''/'' A" "[]"] by (auto simp: join_with_append)

lemma mirror_image_prefix:
  assumes "plain_mirror m" and "no_dotdot rest"
  shows "HasPrefix (path_Join [mir_Registry m, mir_Path m, rest]) (Mirror_Prefix m)"
proof -
  let ?r = "mir_Registry m" and ?p = "mir_Path m"
  let ?full = "?r @ CHR ''/'' # ?p @ CHR ''/'' # rest"
  have "path_Join [?r, ?p, rest] = path_Clean ?full"
    using assms(1) by (simp add: path_Join_def plain_mirror_def)
  also have "\<dots> = join_with ''/'' (segs ?full)"
    using assms by (intro path_Clean_relative) (auto simp: plain_mirror_def segs_join no_dotdot_join)
  also have "segs ?full = (segs ?r @ segs ?p) @ segs rest" by (simp add: segs_join)
  finally have "path_Join [?r, ?p, rest] = join_with ''/'' ((segs ?r @ segs ?p) @ segs rest)" .
  moreover have "Mirror_Prefix m = join_with ''/'' (segs ?r @ segs ?p)"
    using assms(1) unfolding Mirror_Prefix_def by (intro path_Join_segs) (simp_all add: plain_mirror_def)
  moreover have "segs ?r @ segs ?p \<noteq> []" using assms(1) by (simp add: plain_mirror_def)
  ultimately show ?thesis using HasPrefix_join_segs by metis
qed

lemma SplitN2_two: "SplitN2 c s = a # b # rs \<Longrightarrow> s = a @ c # b \<and> rs = []"
proof -
  assume sp: "SplitN2 c s = a # b # rs"
  show ?thesis
  proof (cases "dropWhile (\<lambda>x. x \<noteq> c) s")
    case Nil
    with sp show ?thesis by (simp add: SplitN2_def)
  next
    case (Cons d ds)
    then have "d = c" by (metis (mono_tags) hd_dropWhile list.distinct(1) list.sel(1))
    moreover have "s = takeWhile (\<lambda>x. x \<noteq> c) s @ d # ds" by (metis Cons takeWhile_dropWhile_id)
    ultimately show ?thesis using sp Cons by (simp add: SplitN2_def)
  qed
qed

lemma expected_mirror_image:
  assumes "expected_mirrors mirrors img = Inr ms" and "x \<in> set ms"
  shows "\<exists>m\<in>set mirrors. \<exists>host rest. img = host @ CHR ''/'' # rest
    \<and> x = \<lparr>ms_Image = path_Join [mir_Registry m, mir_Path m, rest], ms_MirroredAt = None, ms_LastError = None\<rparr>"
proof -
  let ?f = "\<lambda>m. case SplitN2 CHR ''/'' img of
                 _ # rest # _ \<Rightarrow>
                   Inr \<lparr>ms_Image = path_Join [mir_Registry m, mir_Path m, rest],
                        ms_MirroredAt = None, ms_LastError = None\<rparr>
               | _ \<Rightarrow> Inl (EPanic ''index out of range'')"
  from assms(1) have "list_all2 (\<lambda>m y. ?f m = Inr y) mirrors ms"
    unfolding expected_mirrors_def by (rule traverse_InrD)
  then have len: "length mirrors = length ms" and nth: "\<forall>i<length ms. ?f (mirrors ! i) = Inr (ms ! i)"
    by (simp_all only: list_all2_conv_all_nth) simp
  from assms(2) obtain i where i: "i < length ms" "x = ms ! i" by (auto simp: in_set_conv_nth)
  let ?m = "mirrors ! i"
  have m: "?m \<in> set mirrors" using i len by simp
  have f: "?f ?m = Inr x" using nth i by blast
  then obtain host rest rs where sp: "SplitN2 CHR ''/'' img = host # rest # rs"
    by (cases "SplitN2 CHR ''/'' img" rule: remdups_adj.cases) simp_all
  have "img = host @ CHR ''/'' # rest" using SplitN2_two [OF sp] by simp
  moreover have "x = \<lparr>ms_Image = path_Join [mir_Registry ?m, mir_Path ?m, rest], ms_MirroredAt = None, ms_LastError = None\<rparr>"
    using f sp by simp
  ultimately show ?thesis using m by blast
qed


definition example_mirror :: "string \<Rightarrow> string \<Rightarrow> Mirror" where
  "example_mirror reg p =
     \<lparr>mir_Priority = 0, mir_Registry = reg, mir_Path = p,
      mir_CredentialSecret = Some \<lparr>cs_Name = ''creds'', cs_Namespace = ''kuik''\<rparr>, mir_Cleanup = None\<rparr>"

definition example_clusterwide :: ClusterImageSetMirror where
  "example_clusterwide = (example_cism [] [])\<lparr>cism_Base := example_base 0 [example_mirror ''m.io'' ''copy'']\<rparr>"


section \<open>The merged status\<close>

text \<open>
  What the status should hold, as a set: every image it already had with its use brought up
  to date, and a fresh entry for every image that only the pods have.
\<close>

definition norm_key :: "ref_parser \<Rightarrow> string \<Rightarrow> string" where
  "norm_key parse img = (case parse img of Inl _ \<Rightarrow> img | Inr n \<Rightarrow> nmd_String n)"

definition expected_for :: "Mirror list \<Rightarrow> string set \<Rightarrow> string \<Rightarrow> MirrorStatus list" where
  "expected_for mirrors current key =
     (if key \<in> current then (case expected_mirrors mirrors key of Inl _ \<Rightarrow> [] | Inr ms \<Rightarrow> ms) else [])"

definition refreshed ::
  "ref_parser \<Rightarrow> int \<Rightarrow> (string \<Rightarrow> bool) \<Rightarrow> string set \<Rightarrow> (string \<Rightarrow> MirrorStatus list) \<Rightarrow>
     MatchingImage \<Rightarrow> MatchingImage" where
  "refreshed parse now match inUse expected img =
     (let key = norm_key parse (mat_Image img)
      in img\<lparr>mat_UnusedSince := unused_since now (match key) (key \<in> inUse) (mat_UnusedSince img),
             mat_Mirrors := mergeMirrors (mat_Mirrors img) (expected key)\<rparr>)"

definition wf_status :: "ref_parser \<Rightarrow> MatchingImage list \<Rightarrow> bool" where
  "wf_status parse imgs \<longleftrightarrow>
     list_all (\<lambda>i. is_ok (parse (mat_Image i))) imgs \<and> distinct (map (norm_key parse \<circ> mat_Image) imgs)"

lemma refreshed_Image [simp]: "mat_Image (refreshed parse now match inUse expected img) = mat_Image img"
  by (simp add: refreshed_def Let_def)

lemma updateUnusedSince_result:
  assumes "list_all (\<lambda>i. is_ok (parse (mat_Image i))) imgs"
    and "distinct (map (norm_key parse \<circ> mat_Image) imgs)"
    and "\<forall>i\<in>set imgs. expected (norm_key parse (mat_Image i)) =
           (case map_of m (norm_key parse (mat_Image i)) of None \<Rightarrow> [] | Some x \<Rightarrow> mat_Mirrors x)"
  shows "\<exists>m'. updateUnusedSince parse now m inUse imgs match = Inr m'
    \<and> (\<forall>k. map_of m' k = (case find (\<lambda>i. norm_key parse (mat_Image i) = k) imgs of
             None \<Rightarrow> map_of m k
           | Some i \<Rightarrow> Some (refreshed parse now match (set inUse) expected i)))
    \<and> (distinct (keys m) \<longrightarrow> distinct (keys m'))"
  using assms
proof (induction imgs arbitrary: m)
  case Nil
  then show ?case by simp
next
  case (Cons i imgs)
  obtain n where n: "parse (mat_Image i) = Inr n" using Cons.prems(1) by (auto simp: is_ok_iff)
  then have key: "norm_key parse (mat_Image i) = nmd_String n" by (simp add: norm_key_def)
  let ?i = "refreshed parse now match (set inUse) expected i"
  let ?m = "AList.update (nmd_String n) ?i m"
  have step: "updateUnusedSince parse now m inUse (i # imgs) match = updateUnusedSince parse now ?m inUse imgs match"
    using Cons.prems(3) key by (simp add: NormalizeAndMatch_def n refreshed_def Let_def)
  have fresh: "norm_key parse (mat_Image j) \<noteq> nmd_String n" if "j \<in> set imgs" for j
    using Cons.prems(2) that key by (auto simp: image_iff)
  obtain m' where m': "updateUnusedSince parse now ?m inUse imgs match = Inr m'"
    "\<And>k. map_of m' k = (case find (\<lambda>i. norm_key parse (mat_Image i) = k) imgs of
             None \<Rightarrow> map_of ?m k
           | Some i \<Rightarrow> Some (refreshed parse now match (set inUse) expected i))"
    "distinct (keys ?m) \<longrightarrow> distinct (keys m')"
    using Cons.IH [of ?m] Cons.prems fresh by auto
  have "find (\<lambda>i. norm_key parse (mat_Image i) = nmd_String n) imgs = None"
    using fresh by (auto simp: find_None_iff)
  with m'(2) have look: "map_of m' k = (case find (\<lambda>i. norm_key parse (mat_Image i) = k) (i # imgs) of
             None \<Rightarrow> map_of m k
           | Some i \<Rightarrow> Some (refreshed parse now match (set inUse) expected i))" for k
    using key by (cases "k = nmd_String n"; cases "find (\<lambda>i. norm_key parse (mat_Image i) = k) imgs") simp_all
  have dist: "distinct (keys m) \<longrightarrow> distinct (keys m')"
    using m'(3) distinct_keys_update [of m "nmd_String n" ?i] by simp
  show ?case
    by (rule exI [of _ m'], intro conjI allI) (rule step [unfolded m'(1)], rule look, rule dist)
qed

definition new_entry :: "Mirror list \<Rightarrow> string \<Rightarrow> MatchingImage" where
  "new_entry mirrors key =
     \<lparr>mat_Image = key, mat_Mirrors = expected_for mirrors {key} key, mat_UnusedSince = None\<rparr>"

lemma expected_mirrors_total:
  assumes "CHR ''/'' \<in> set img"
  shows "is_ok (expected_mirrors mirrors img)"
proof -
  obtain a b where "img = a @ CHR ''/'' # b" "CHR ''/'' \<notin> set a" using split_at_first [OF assms] by blast
  then have "SplitN2 CHR ''/'' img = [a, b]" by (simp add: SplitN2_append)
  then show ?thesis unfolding expected_mirrors_def by (intro traverse_all_ok) simp
qed

lemma matching_entries_total:
  assumes "\<forall>img\<in>set imgs. CHR ''/'' \<in> set img"
  shows "matching_entries mirrors imgs = Inr (map (\<lambda>k. (k, new_entry mirrors k)) imgs)"
  unfolding matching_entries_def
proof (rule traverse_InrI, unfold list_all2_conv_all_nth, intro conjI allI impI)
  fix i assume "i < length imgs"
  then have "is_ok (expected_mirrors mirrors (imgs ! i))" using assms by (intro expected_mirrors_total) simp
  with \<open>i < length imgs\<close> show "(case expected_mirrors mirrors (imgs ! i) of Inl e \<Rightarrow> Inl e
      | Inr ms \<Rightarrow> Inr (imgs ! i, \<lparr>mat_Image = imgs ! i, mat_Mirrors = ms, mat_UnusedSince = None\<rparr>))
      = Inr (map (\<lambda>k. (k, new_entry mirrors k)) imgs ! i)"
    by (auto simp: is_ok_iff new_entry_def expected_for_def)
qed simp

lemma normalized_names_parse:
  assumes "normalizing parse" and "img \<in> set (normalizedImageNamesFromPod parse pod)"
  shows "\<exists>n. parse img = Inr n \<and> nmd_String n = img \<and> CHR ''/'' \<in> set img"
proof -
  from assms(2) obtain i where i: "normalized_name parse i = Some img" by (auto simp: normalized_names_iff)
  then obtain n where "parse i = Inr n" "nmd_String n = img"
    by (cases "parse i") (auto simp: normalized_name_def split: if_splits)
  with assms(1) show ?thesis by (auto simp: normalizing_def)
qed

lemma current_names_parse:
  assumes "normalizing parse" and "range_order ord"
    and "img \<in> set (keys (podsByNormalizedMatchingImages parse ord match prefixes pods))"
  shows "\<exists>n. parse img = Inr n \<and> nmd_String n = img \<and> CHR ''/'' \<in> set img"
  using assms normalized_names_parse [OF assms(1)] by (auto simp: pods_by_images_keys)

lemma map_of_map_pair: "map_of (map (\<lambda>k. (k, f k)) ks) k = (if k \<in> set ks then Some (f k) else None)"
  by (induction ks) auto

lemma find_key_Some:
  assumes "distinct (map f xs)" and "x \<in> set xs"
  shows "find (\<lambda>y. f y = f x) xs = Some x"
  using assms by (induction xs) auto

lemma merge_spec:
  assumes ord: "range_order ord" and norm: "normalizing parse" and wf: "wf_status parse status"
    and by_def: "byImage = podsByNormalizedMatchingImages parse ord match prefixes pods"
    and up_def: "up = refreshed parse now match (set (podsInUseImages parse originals pods))
                   (expected_for mirrors (set (keys byImage)))"
  shows "\<exists>status'. mergePreviousAndCurrentMatchingImages parse originals ord now pods mirrors status prefixes match
        = Inr (byImage, status')
    \<and> wf_status parse status'
    \<and> set status' = up ` set status
        \<union> new_entry mirrors ` (set (keys byImage) - (norm_key parse \<circ> mat_Image) ` set status)"
proof -
  let ?nk = "norm_key parse \<circ> mat_Image"
  let ?cur = "ord (keys byImage)"
  let ?m0 = "map (\<lambda>k. (k, new_entry mirrors k)) ?cur"
  have cur: "set ?cur = set (keys byImage)" by (rule range_order_set [OF ord])
  have names: "\<exists>n. parse k = Inr n \<and> nmd_String n = k \<and> CHR ''/'' \<in> set k" if "k \<in> set (keys byImage)" for k
    using current_names_parse [OF norm ord] that by (simp add: by_def)
  have entries: "matching_entries mirrors ?cur = Inr ?m0"
    using names cur by (intro matching_entries_total) auto
  have m0: "map_of ?m0 k = (if k \<in> set (keys byImage) then Some (new_entry mirrors k) else None)" for k
    by (simp add: map_of_map_pair cur)
  have dist: "distinct (map ?nk status)" and ok: "list_all (\<lambda>i. is_ok (parse (mat_Image i))) status"
    using wf by (auto simp: wf_status_def)
  have expd: "\<forall>i\<in>set status. expected_for mirrors (set (keys byImage)) (norm_key parse (mat_Image i)) =
      (case map_of ?m0 (norm_key parse (mat_Image i)) of None \<Rightarrow> [] | Some x \<Rightarrow> mat_Mirrors x)"
    unfolding m0 by (simp add: expected_for_def new_entry_def)
  obtain m' where m': "updateUnusedSince parse now ?m0 (podsInUseImages parse originals pods) status match = Inr m'"
    and look: "\<And>k. map_of m' k = (case find (\<lambda>i. norm_key parse (mat_Image i) = k) status of
             None \<Rightarrow> map_of ?m0 k | Some i \<Rightarrow> Some (up i))"
    and dk: "distinct (keys ?m0) \<longrightarrow> distinct (keys m')"
    unfolding up_def using updateUnusedSince_result [OF ok dist expd] by blast
  have "keys ?m0 = ?cur" by (simp add: keys_def comp_def)
  with dk have dkeys: "distinct (keys m')"
    using range_order_distinct [OF ord] pods_by_images_distinct by (simp add: by_def)
  have prev: "map_of m' (?nk i) = Some (up i)" if "i \<in> set status" for i
    using look find_key_Some [OF dist that] by simp
  have other: "map_of m' k = map_of ?m0 k" if "k \<notin> ?nk ` set status" for k
  proof -
    have "find (\<lambda>i. norm_key parse (mat_Image i) = k) status = None"
      using that by (auto simp: find_None_iff)
    then show ?thesis using look by simp
  qed
  let ?status' = "map (\<lambda>k. the (map_of m' k)) (ord (keys m'))"
  have upimg: "mat_Image (up i) = mat_Image i" for i by (simp add: up_def)
  have keyed: "is_ok (parse (mat_Image x)) \<and> ?nk x = k" if "map_of m' k = Some x" for k x
  proof (cases "k \<in> ?nk ` set status")
    case True
    then obtain i where "i \<in> set status" "k = ?nk i" by blast
    with prev [of i] that ok show ?thesis by (auto simp: upimg list_all_iff)
  next
    case False
    with other that have "k \<in> set (keys byImage)" "x = new_entry mirrors k"
      by (auto simp: m0 split: if_splits)
    with names [of k] show ?thesis by (auto simp: new_entry_def norm_key_def)
  qed
  have keysm: "k \<in> set (keys m') \<longleftrightarrow> (\<exists>x. map_of m' k = Some x)" for k by (auto simp: keys_dom)
  have "map ?nk ?status' = ord (keys m')"
    using keyed keysm range_order_set [OF ord] by (auto intro!: map_idI)
  then have "distinct (map ?nk ?status')" using dkeys range_order_distinct [OF ord] by metis
  moreover have "list_all (\<lambda>i. is_ok (parse (mat_Image i))) ?status'"
    using keyed keysm range_order_set [OF ord] by (fastforce simp: list_all_iff)
  ultimately have "wf_status parse ?status'" by (simp add: wf_status_def)
  moreover have "set ?status' = ran (map_of m')"
    using keysm range_order_set [OF ord] by (force simp: ran_def)
  moreover have "ran (map_of m') = up ` set status \<union> new_entry mirrors ` (set (keys byImage) - ?nk ` set status)"
    (is "_ = ?R")
  proof
    show "ran (map_of m') \<subseteq> ?R"
    proof
      fix x assume "x \<in> ran (map_of m')"
      then obtain k where k: "map_of m' k = Some x" by (auto simp: ran_def)
      show "x \<in> ?R"
      proof (cases "k \<in> ?nk ` set status")
        case True
        then show ?thesis using prev k by force
      next
        case False
        with other k show ?thesis by (auto simp: m0 split: if_splits)
      qed
    qed
    show "?R \<subseteq> ran (map_of m')"
    proof
      fix x assume "x \<in> ?R"
      then consider i where "i \<in> set status" "x = up i"
        | k where "k \<in> set (keys byImage)" "k \<notin> ?nk ` set status" "x = new_entry mirrors k" by blast
      then show "x \<in> ran (map_of m')"
        using prev other m0 by cases (metis ranI)+
    qed
  qed
  moreover have "mergePreviousAndCurrentMatchingImages parse originals ord now pods mirrors status prefixes match
      = Inr (byImage, ?status')"
    by (simp only: mergePreviousAndCurrentMatchingImages_def Let_def by_def [symmetric] entries m' sum.case)
  ultimately show ?thesis by blast
qed


definition example_matching :: "string \<Rightarrow> MirrorStatus list \<Rightarrow> mtime \<Rightarrow> MatchingImage" where
  "example_matching img ms t = \<lparr>mat_Image = img, mat_Mirrors = ms, mat_UnusedSince = t\<rparr>"


end
