(* ===== verification/Urls.thy ===== *)
theory Urls
  imports Prelude
begin

text \<open>
  What the credential matching uses of Go's standard library: \<open>url.Parse\<close> on an
  \<open>https\<close> URL, \<open>net.SplitHostPort\<close>, \<open>filepath.Match\<close> and the two base64 decoders.
  Strings are byte strings, so a \<open>?\<close> of a glob matches one byte.
\<close>

section \<open>\<open>url.Parse\<close>\<close>

definition cut_at :: "char \<Rightarrow> string \<Rightarrow> string \<times> string" where
  "cut_at c s = (takeWhile (\<lambda>x. x \<noteq> c) s, tl (dropWhile (\<lambda>x. x \<noteq> c) s))"

text \<open>The part after the last occurrence of \<open>c\<close>, and the part before it.\<close>

definition cut_last :: "char \<Rightarrow> string \<Rightarrow> (string \<times> string) option" where
  "cut_last c s =
     (if c \<in> set s
      then Some (rev (tl (dropWhile (\<lambda>x. x \<noteq> c) (rev s))), rev (takeWhile (\<lambda>x. x \<noteq> c) (rev s)))
      else None)"

definition is_digit :: "char \<Rightarrow> bool" where
  "is_digit c \<longleftrightarrow> CHR ''0'' \<le> c \<and> c \<le> CHR ''9''"

definition is_letter :: "char \<Rightarrow> bool" where
  "is_letter c \<longleftrightarrow> (CHR ''a'' \<le> c \<and> c \<le> CHR ''z'') \<or> (CHR ''A'' \<le> c \<and> c \<le> CHR ''Z'')"

definition hex_val :: "char \<Rightarrow> nat option" where
  "hex_val c =
     (if is_digit c then Some (of_char c - 48)
      else if CHR ''a'' \<le> c \<and> c \<le> CHR ''f'' then Some (of_char c - 87)
      else if CHR ''A'' \<le> c \<and> c \<le> CHR ''F'' then Some (of_char c - 55)
      else None)"

definition host_char :: "char \<Rightarrow> bool" where
  "host_char c \<longleftrightarrow> is_letter c \<or> is_digit c \<or> 128 \<le> (of_char c :: nat)
     \<or> c \<in> set ''-_.~!$&()*+,;=:[]<>\"'' \<or> c = CHR 39"

text \<open>Percent decoding; \<open>ok\<close> are the bytes that may appear, \<open>okx\<close> the escapes allowed.\<close>

fun unescape :: "(char \<Rightarrow> bool) \<Rightarrow> (nat \<Rightarrow> bool) \<Rightarrow> string \<Rightarrow> string option" where
  "unescape ok okx [] = Some []"
| "unescape ok okx (c # cs) =
     (if c = CHR ''%'' then
        (case cs of
           h # l # rest \<Rightarrow>
             (case (hex_val h, hex_val l) of
                (Some a, Some b) \<Rightarrow>
                  if okx (16 * a + b)
                  then map_option (\<lambda>r. char_of (16 * a + b) # r) (unescape ok okx rest) else None
              | _ \<Rightarrow> None)
         | _ \<Rightarrow> None)
      else if ok c then map_option (\<lambda>r. c # r) (unescape ok okx cs)
      else None)"

definition valid_optional_port :: "string \<Rightarrow> bool" where
  "valid_optional_port p \<longleftrightarrow> p = [] \<or> (hd p = CHR '':'' \<and> list_all is_digit (tl p))"

text \<open>
  \<open>parseHost\<close>: an IP literal in brackets is kept to its closing bracket (zone identifiers
  are decoded like the rest of the host here); any other host may end in a numeric port.
\<close>

definition parse_host :: "string \<Rightarrow> string option" where
  "parse_host h =
     (let okx = (\<lambda>n. 128 \<le> n \<or> n = 37)
      in if HasPrefix h ''['' then
           (case cut_last CHR '']'' h of
              None \<Rightarrow> None
            | Some (_, colon_port) \<Rightarrow>
                if valid_optional_port colon_port then unescape host_char okx h else None)
         else
           (case cut_last CHR '':'' h of
              Some (_, port) \<Rightarrow>
                if list_all is_digit port then unescape host_char (\<lambda>n. 128 \<le> n) h else None
            | None \<Rightarrow> unescape host_char (\<lambda>n. 128 \<le> n) h))"

definition userinfo_char :: "char \<Rightarrow> bool" where
  "userinfo_char c \<longleftrightarrow> is_letter c \<or> is_digit c \<or> c \<in> set ''-._:~!$&()*+,;=%@'' \<or> c = CHR 39"

definition parse_authority :: "string \<Rightarrow> string option" where
  "parse_authority a =
     (case cut_last CHR ''@'' a of
        None \<Rightarrow> parse_host a
      | Some (user, host) \<Rightarrow>
          if list_all userinfo_char user \<and> unescape (\<lambda>_. True) (\<lambda>_. True) user \<noteq> None
          then parse_host host else None)"

record URL =
  url_Host :: string
  url_Path :: string

text \<open>\<open>url.Parse(scheme + "://" + s)\<close>: the host and the decoded path.\<close>

definition url_Parse :: "string \<Rightarrow> URL option" where
  "url_Parse s =
     (let (u, fragment) = cut_at CHR ''#'' s;
          rest = fst (cut_at CHR ''?'' u);
          authority = fst (cut_at CHR ''/'' rest);
          path = drop (length authority) rest
      in if \<exists>c\<in>set u. (of_char c :: nat) < 32 \<or> c = CHR 127 then None
         else (case (parse_authority authority, unescape (\<lambda>_. True) (\<lambda>_. True) path,
                     unescape (\<lambda>_. True) (\<lambda>_. True) fragment) of
                 (Some h, Some p, Some f) \<Rightarrow> Some \<lparr>url_Host = h, url_Path = p\<rparr>
               | _ \<Rightarrow> None))"

section \<open>\<open>net.SplitHostPort\<close>\<close>

definition SplitHostPort :: "string \<Rightarrow> (string \<times> string) option" where
  "SplitHostPort hp =
     (case cut_last CHR '':'' hp of
        None \<Rightarrow> None
      | Some (before, port) \<Rightarrow>
          if HasPrefix hp ''['' then
            (let (inner, after) = cut_at CHR '']'' hp
             in if CHR '']'' \<notin> set hp \<or> before \<noteq> inner @ '']''
                   \<or> CHR ''['' \<in> set (tl hp) \<or> CHR '']'' \<in> set after
                then None else Some (tl inner, port))
          else if CHR '':'' \<in> set before \<or> CHR ''['' \<in> set hp \<or> CHR '']'' \<in> set hp
          then None else Some (before, port))"

section \<open>\<open>filepath.Match\<close>\<close>

datatype GlobTerm = GStar | GAny | GClass bool "(char \<times> char) list" | GLit char

definition get_esc :: "string \<Rightarrow> (char \<times> string) option" where
  "get_esc s =
     (case s of
        [] \<Rightarrow> None
      | c # cs \<Rightarrow>
          if c = CHR ''-'' \<or> c = CHR '']'' then None
          else if c = CHR 92
          then (case cs of d # e # ds \<Rightarrow> Some (d, e # ds) | _ \<Rightarrow> None)
          else if cs = [] then None else Some (c, cs))"

text \<open>The ranges of a character class up to its closing bracket.\<close>

fun class_ranges :: "nat \<Rightarrow> string \<Rightarrow> bool \<Rightarrow> ((char \<times> char) list \<times> string) option" where
  "class_ranges 0 s some = None"
| "class_ranges (Suc n) s some =
     (if some \<and> HasPrefix s '']'' then Some ([], tl s)
      else
        (case get_esc s of
           None \<Rightarrow> None
         | Some (lo, s1) \<Rightarrow>
             (if HasPrefix s1 ''-'' then
                (case get_esc (tl s1) of
                   None \<Rightarrow> None
                 | Some (hi, s2) \<Rightarrow>
                     map_option (\<lambda>(rs, r). ((lo, hi) # rs, r)) (class_ranges n s2 True))
              else map_option (\<lambda>(rs, r). ((lo, lo) # rs, r)) (class_ranges n s1 True))))"

text \<open>The fuel of the two scanners is the length of the pattern: each step consumes a byte.\<close>

fun glob_terms :: "nat \<Rightarrow> string \<Rightarrow> GlobTerm list option" where
  "glob_terms n [] = Some []"
| "glob_terms 0 (c # cs) = None"
| "glob_terms (Suc n) (c # cs) =
     (if c = CHR ''*'' then map_option (\<lambda>ts. GStar # ts) (glob_terms n cs)
      else if c = CHR ''?'' then map_option (\<lambda>ts. GAny # ts) (glob_terms n cs)
      else if c = CHR ''['' then
        (let neg = HasPrefix cs ''^''
         in (case class_ranges (length cs) (if neg then tl cs else cs) False of
               None \<Rightarrow> None
             | Some (rs, r) \<Rightarrow> map_option (\<lambda>ts. GClass neg rs # ts) (glob_terms n r)))
      else if c = CHR 92 then
        (case cs of [] \<Rightarrow> None | d # ds \<Rightarrow> map_option (\<lambda>ts. GLit d # ts) (glob_terms n ds))
      else map_option (\<lambda>ts. GLit c # ts) (glob_terms n cs))"

fun glob_match :: "GlobTerm list \<Rightarrow> string \<Rightarrow> bool" where
  "glob_match [] s = (s = [])"
| "glob_match (GStar # ts) [] = glob_match ts []"
| "glob_match (GStar # ts) (c # cs) =
     (glob_match ts (c # cs) \<or> (c \<noteq> CHR ''/'' \<and> glob_match (GStar # ts) cs))"
| "glob_match (GAny # ts) s = (case s of [] \<Rightarrow> False | c # cs \<Rightarrow> c \<noteq> CHR ''/'' \<and> glob_match ts cs)"
| "glob_match (GClass neg rs # ts) s =
     (case s of
        [] \<Rightarrow> False
      | c # cs \<Rightarrow> (list_ex (\<lambda>(lo, hi). lo \<le> c \<and> c \<le> hi) rs \<noteq> neg) \<and> glob_match ts cs)"
| "glob_match (GLit x # ts) s = (case s of [] \<Rightarrow> False | c # cs \<Rightarrow> c = x \<and> glob_match ts cs)"

text \<open>\<open>None\<close> is \<open>ErrBadPattern\<close>, which every caller treats as no match.\<close>

definition filepath_Match :: "string \<Rightarrow> string \<Rightarrow> bool option" where
  "filepath_Match pattern name =
     map_option (\<lambda>ts. glob_match ts name) (glob_terms (length pattern) pattern)"

definition glob_free :: "string \<Rightarrow> bool" where
  "glob_free s \<longleftrightarrow> list_all (\<lambda>c. c \<noteq> CHR ''*'' \<and> c \<noteq> CHR ''?'' \<and> c \<noteq> CHR ''['' \<and> c \<noteq> CHR 92) s"

lemma glob_terms_lit: "glob_free p \<Longrightarrow> length p \<le> n \<Longrightarrow> glob_terms n p = Some (map GLit p)"
proof (induction p arbitrary: n)
  case Nil
  then show ?case by simp
next
  case (Cons a p)
  then obtain m where "n = Suc m" "length p \<le> m" by (cases n) auto
  with Cons show ?case by (simp add: glob_free_def)
qed

lemma glob_match_lit: "glob_match (map GLit p) s \<longleftrightarrow> s = p"
  by (induction p arbitrary: s) (auto split: list.splits)

lemma filepath_Match_literal: "glob_free p \<Longrightarrow> filepath_Match p s = Some (s = p)"
  by (simp add: filepath_Match_def glob_terms_lit glob_match_lit)

lemma glob_match_star: "glob_match [GStar] s \<longleftrightarrow> CHR ''/'' \<notin> set s"
  by (induction s) auto

lemma filepath_Match_star: "filepath_Match ''*'' s = Some (CHR ''/'' \<notin> set s)"
  by (simp add: filepath_Match_def glob_match_star)

end
