(* ===== verification/Base64.thy ===== *)
theory Base64
  imports Prelude
begin

text \<open>
  Go's \<open>base64.StdEncoding\<close> and \<open>base64.RawStdEncoding\<close>, decoding and encoding, on byte
  strings. The flag \<open>p\<close> says whether the encoding is padded. The decoders skip newlines,
  as Go's do. \<open>b64_round_trip\<close> is the lemma the keyring uses.
\<close>

definition b64_char :: "nat \<Rightarrow> char" where
  "b64_char n =
     char_of (if n < 26 then n + 65 else if n < 52 then n + 71 else if n < 62 then n - 4
              else if n = 62 then 43 else 47)"

definition b64_index :: "char \<Rightarrow> nat option" where
  "b64_index c =
     (let v = (of_char c :: nat)
      in if 65 \<le> v \<and> v \<le> 90 then Some (v - 65)
         else if 97 \<le> v \<and> v \<le> 122 then Some (v - 71)
         else if 48 \<le> v \<and> v \<le> 57 then Some (v + 4)
         else if v = 43 then Some 62
         else if v = 47 then Some 63
         else None)"

definition byte1 :: "nat \<Rightarrow> nat \<Rightarrow> char" where "byte1 x y = char_of (x * 4 + y div 16)"
definition byte2 :: "nat \<Rightarrow> nat \<Rightarrow> char" where "byte2 y z = char_of (y mod 16 * 16 + z div 4)"
definition byte3 :: "nat \<Rightarrow> nat \<Rightarrow> char" where "byte3 z w = char_of (z mod 4 * 64 + w)"

fun b64_dec :: "bool \<Rightarrow> string \<Rightarrow> string option" where
  "b64_dec p [] = Some []"
| "b64_dec p [a] = None"
| "b64_dec p [a, b] =
     (case (b64_index a, b64_index b) of
        (Some x, Some y) \<Rightarrow> if p then None else Some [byte1 x y]
      | _ \<Rightarrow> None)"
| "b64_dec p [a, b, c] =
     (case (b64_index a, b64_index b, b64_index c) of
        (Some x, Some y, Some z) \<Rightarrow> if p then None else Some [byte1 x y, byte2 y z]
      | _ \<Rightarrow> None)"
| "b64_dec p (a # b # c # d # rest) =
     (case (b64_index a, b64_index b) of
        (Some x, Some y) \<Rightarrow>
          if p \<and> c = CHR ''='' \<and> d = CHR ''='' \<and> rest = [] then Some [byte1 x y]
          else
            (case b64_index c of
               None \<Rightarrow> None
             | Some z \<Rightarrow>
                 if p \<and> d = CHR ''='' \<and> rest = [] then Some [byte1 x y, byte2 y z]
                 else
                   (case b64_index d of
                      None \<Rightarrow> None
                    | Some w \<Rightarrow>
                        map_option (\<lambda>r. byte1 x y # byte2 y z # byte3 z w # r) (b64_dec p rest)))
      | _ \<Rightarrow> None)"

definition DecodeString :: "bool \<Rightarrow> string \<Rightarrow> string option" where
  "DecodeString p s = b64_dec p (filter (\<lambda>c. c \<noteq> CHR 10 \<and> c \<noteq> CHR 13) s)"

fun b64_enc :: "bool \<Rightarrow> nat list \<Rightarrow> string" where
  "b64_enc p [] = []"
| "b64_enc p [a] = [b64_char (a div 4), b64_char (a mod 4 * 16)] @ (if p then ''=='' else [])"
| "b64_enc p [a, b] =
     [b64_char (a div 4), b64_char (a mod 4 * 16 + b div 16), b64_char (b mod 16 * 4)]
     @ (if p then ''='' else [])"
| "b64_enc p (a # b # c # rest) =
     b64_char (a div 4) # b64_char (a mod 4 * 16 + b div 16)
     # b64_char (b mod 16 * 4 + c div 64) # b64_char (c mod 64) # b64_enc p rest"

definition EncodeToString :: "bool \<Rightarrow> string \<Rightarrow> string" where
  "EncodeToString p s = b64_enc p (map of_char s)"

lemma b64_char_facts:
  assumes "n < 64"
  shows "b64_index (b64_char n) = Some n" "b64_char n \<noteq> CHR ''=''"
    "b64_char n \<noteq> CHR 10" "b64_char n \<noteq> CHR 13"
proof -
  let ?v = "if n < 26 then n + 65 else if n < 52 then n + 71 else if n < 62 then n - 4
    else if n = 62 then 43 else (47::nat)"
  have v: "(of_char (b64_char n) :: nat) = ?v"
    using assms by (simp add: b64_char_def)
  with assms show "b64_index (b64_char n) = Some n"
    by (auto simp: b64_index_def Let_def)
  have ne: "b64_char n \<noteq> c" if "of_char c \<noteq> ?v" for c
    using v that by auto
  show "b64_char n \<noteq> CHR ''=''" "b64_char n \<noteq> CHR 10" "b64_char n \<noteq> CHR 13"
    using assms by (intro ne; auto)+
qed

lemma byte_bounds:
  fixes a b c :: nat
  assumes "a < 256" "b < 256" "c < 256"
  shows "a div 4 < 64" "a mod 4 * 16 < 64" "a mod 4 * 16 + b div 16 < 64"
    "b mod 16 * 4 < 64" "b mod 16 * 4 + c div 64 < 64" "c mod 64 < 64"
proof -
  have "a div 4 < 64" "b div 16 < 16" "c div 64 < 4"
    using assms by (simp_all add: less_mult_imp_div_less)
  moreover have "a mod 4 < 4" "b mod 16 < 16" "c mod 64 < 64" by simp_all
  ultimately show "a div 4 < 64" "a mod 4 * 16 < 64" "a mod 4 * 16 + b div 16 < 64"
    "b mod 16 * 4 < 64" "b mod 16 * 4 + c div 64 < 64" "c mod 64 < 64"
    by linarith+
qed

lemma digit_split:
  fixes x y k :: nat
  assumes "y < k"
  shows "(x * k + y) div k = x" "(x * k + y) mod k = y"
  using assms by simp_all

lemma byte_back:
  fixes a b c :: nat
  assumes "b < 256" "c < 256"
  shows "byte1 (a div 4) (a mod 4 * 16 + b div 16) = char_of a"
    "byte1 (a div 4) (a mod 4 * 16) = char_of a"
    "byte2 (a mod 4 * 16 + b div 16) (b mod 16 * 4 + c div 64) = char_of b"
    "byte2 (a mod 4 * 16 + b div 16) (b mod 16 * 4) = char_of b"
    "byte3 (b mod 16 * 4 + c div 64) (c mod 64) = char_of c"
proof -
  have b: "b div 16 < 16" and c: "c div 64 < 4"
    using assms by (simp_all add: less_mult_imp_div_less)
  show "byte1 (a div 4) (a mod 4 * 16 + b div 16) = char_of a"
    "byte1 (a div 4) (a mod 4 * 16) = char_of a"
    by (simp_all only: byte1_def digit_split [OF b] nonzero_mult_div_cancel_right [of "16::nat"]
        zero_neq_numeral [symmetric] not_False_eq_True simp_thms div_mult_mod_eq)
  show "byte2 (a mod 4 * 16 + b div 16) (b mod 16 * 4 + c div 64) = char_of b"
    "byte2 (a mod 4 * 16 + b div 16) (b mod 16 * 4) = char_of b"
    by (simp_all only: byte2_def digit_split [OF b] digit_split [OF c]
        nonzero_mult_div_cancel_right [of "4::nat"] zero_neq_numeral [symmetric]
        not_False_eq_True simp_thms div_mult_mod_eq)
  show "byte3 (b mod 16 * 4 + c div 64) (c mod 64) = char_of c"
    by (simp only: byte3_def digit_split [OF c] div_mult_mod_eq)
qed

lemma b64_index_eq: "b64_index CHR ''='' = None"
  by code_simp

lemma b64_dec_enc: "\<forall>x\<in>set xs. x < 256 \<Longrightarrow> b64_dec p (b64_enc p xs) = Some (map char_of xs)"
proof (induction p xs rule: b64_enc.induct)
  case (1 p)
  show ?case by simp
next
  case (2 p a)
  with byte_bounds [of a 0 0] byte_back(2) [of 0 0 a] show ?case
    by (simp add: b64_char_facts b64_index_eq)
next
  case (3 p a b)
  with byte_bounds [of a b 0] byte_back(1) [of b 0 a] byte_back(4) [of b 0 a] show ?case
    by (simp add: b64_char_facts b64_index_eq)
next
  case (4 p a b c rest)
  then have "b64_dec p (b64_enc p rest) = Some (map char_of rest)" by simp
  with 4 byte_bounds [of a b c] byte_back(1) [of b c a] byte_back(3) [of b c a] byte_back(5) [of b c] show ?case
    by (simp add: b64_char_facts)
qed

lemma b64_enc_no_newline:
  "\<forall>x\<in>set xs. x < 256 \<Longrightarrow> c \<in> set (b64_enc p xs) \<Longrightarrow> c \<noteq> CHR 10 \<and> c \<noteq> CHR 13"
proof (induction p xs rule: b64_enc.induct)
  case (2 p a)
  with byte_bounds [of a 0 0] show ?case by (auto simp: b64_char_facts)
next
  case (3 p a b)
  with byte_bounds [of a b 0] show ?case by (auto simp: b64_char_facts)
next
  case (4 p a b c')
  with byte_bounds [of a b c'] show ?case by (auto simp: b64_char_facts)
qed simp

lemma b64_round_trip: "DecodeString p (EncodeToString p s) = Some s"
proof -
  have "filter (\<lambda>c. c \<noteq> CHR 10 \<and> c \<noteq> CHR 13) (EncodeToString p s) = EncodeToString p s"
    unfolding EncodeToString_def filter_id_conv
    by (intro ballI b64_enc_no_newline [of "map of_char s" _ p]) auto
  then show ?thesis
    unfolding DecodeString_def by (simp add: EncodeToString_def b64_dec_enc o_def)
qed

text \<open>The padded encoding of a length that is no multiple of three ends in \<open>=\<close>, the raw one never.\<close>

lemma b64_enc_last:
  "\<forall>x\<in>set xs. x < 256 \<Longrightarrow> xs \<noteq> [] \<Longrightarrow>
     b64_enc p xs \<noteq> [] \<and> (last (b64_enc p xs) = CHR ''='') = (p \<and> length xs mod 3 \<noteq> 0)"
proof (induction p xs rule: b64_enc.induct)
  case (2 p a)
  with byte_bounds [of a 0 0] show ?case by (auto simp: b64_char_facts)
next
  case (3 p a b)
  with byte_bounds [of a b 0] show ?case by (auto simp: b64_char_facts)
next
  case (4 p a b c rest)
  show ?case
  proof (cases "rest = []")
    case True
    then show ?thesis by (simp add: b64_char_facts)
  next
    case False
    with 4 have "b64_enc p rest \<noteq> [] \<and> (last (b64_enc p rest) = CHR ''='') = (p \<and> length rest mod 3 \<noteq> 0)"
      by simp
    moreover have "length (a # b # c # rest) mod 3 = length rest mod 3"
      unfolding list.size by presburger
    ultimately show ?thesis by (simp only: b64_enc.simps last.simps) simp
  qed
qed simp

end
