(* ===== verification/Keyring.thy ===== *)
theory Keyring
  imports References Urls Base64
begin

text \<open>
  \<open>internal/registry/credentialprovider\<close> and \<open>internal/registry/keychain.go\<close>: from pull
  secrets to the keychains tried for an image. \<open>json.Unmarshal\<close> of the two docker
  configuration formats and the reference parser are fields of \<open>CredEnv\<close>; so is the
  unspecified order in which a Go map is visited. The interface \<open>DockerKeyring\<close> is a
  locale, interpreted on \<open>BasicDockerKeyring\<close>.
\<close>

section \<open>Data\<close>

record DockerConfigEntry =
  dce_Username :: string
  dce_Password :: string
  dce_Email :: string

record dockerConfigEntryWithAuth =
  dca_Username :: string
  dca_Password :: string
  dca_Email :: string
  dca_Auth :: string

type_synonym DockerConfig = "(string \<times> DockerConfigEntry) list"

record AuthConfig =
  ac_Username :: string
  ac_Password :: string
  ac_Auth :: string
  ac_Email :: string
  ac_ServerAddress :: string
  ac_IdentityToken :: string
  ac_RegistryToken :: string

record SecretCoordinates =
  sc_UID :: string
  sc_Namespace :: string
  sc_Name :: string

text \<open>The service account of a \<open>CredentialSource\<close> is never set by this program.\<close>

record TrackedAuthConfig =
  tac_AuthConfig :: AuthConfig
  tac_AuthConfigHash :: string
  tac_Source :: "SecretCoordinates option"

record BasicDockerKeyring =
  dk_index :: "string list option"
  dk_creds :: "TrackedAuthConfig list gomap"

definition empty_keyring :: BasicDockerKeyring where
  "empty_keyring = \<lparr>dk_index = None, dk_creds = None\<rparr>"

text \<open>\<open>authn.AuthConfig\<close> of the registry library, and the keychain types the client sees.\<close>

record AuthnConfig =
  an_Username :: string
  an_Password :: string
  an_Auth :: string
  an_IdentityToken :: string
  an_RegistryToken :: string

datatype Keychain = DefaultKeychain | AuthConfigKeychain AuthnConfig string

datatype Authenticator = Anonymous | FromConfig AuthnConfig

section \<open>Parsing a docker configuration\<close>

definition is_space :: "char \<Rightarrow> bool" where
  "is_space c \<longleftrightarrow> c = CHR 32 \<or> (9 \<le> (of_char c :: nat) \<and> (of_char c :: nat) \<le> 13)"

definition TrimSpace :: "string \<Rightarrow> string" where
  "TrimSpace s = rev (dropWhile is_space (rev (dropWhile is_space s)))"

definition HasSuffix :: "string \<Rightarrow> string \<Rightarrow> bool" where
  "HasSuffix s p = HasPrefix (rev s) (rev p)"

definition decodeDockerConfigFieldAuth :: "string \<Rightarrow> (string \<times> string) result" where
  "decodeDockerConfigFieldAuth field =
     (case DecodeString (HasSuffix (TrimSpace field) ''='') field of
        None \<Rightarrow> Inl (EMsg ''illegal base64 data'')
      | Some decoded \<Rightarrow>
          (case SplitN2 CHR '':'' decoded of
             [username, password] \<Rightarrow> Inr (username, password)
           | _ \<Rightarrow> Inl (EMsg ''unable to parse auth field, must be formatted as base64(username:password)'')))"

definition DockerConfigEntry_UnmarshalJSON :: "dockerConfigEntryWithAuth \<Rightarrow> DockerConfigEntry result" where
  "DockerConfigEntry_UnmarshalJSON tmp =
     (if length (dca_Auth tmp) = 0
      then Inr \<lparr>dce_Username = dca_Username tmp, dce_Password = dca_Password tmp, dce_Email = dca_Email tmp\<rparr>
      else (case decodeDockerConfigFieldAuth (dca_Auth tmp) of
              Inl e \<Rightarrow> Inl e
            | Inr (u, p) \<Rightarrow> Inr \<lparr>dce_Username = u, dce_Password = p, dce_Email = dca_Email tmp\<rparr>))"

text \<open>
  \<open>json.Unmarshal\<close> gives the entries of the document with their fields (\<open>auths\<close> of the
  first format, the whole object of the second); each entry is then read by its
  \<open>UnmarshalJSON\<close>.
\<close>

record CredEnv =
  env_DockerConfigJSON :: "string \<Rightarrow> (string \<times> dockerConfigEntryWithAuth) list result"
  env_DockerConfig :: "string \<Rightarrow> (string \<times> dockerConfigEntryWithAuth) list result"
  env_MapOrder :: "DockerConfig \<Rightarrow> DockerConfig"
  env_ParseNamed :: ref_parser

definition unmarshal_entries :: "(string \<times> dockerConfigEntryWithAuth) list result \<Rightarrow> DockerConfig result" where
  "unmarshal_entries doc =
     (case doc of
        Inl e \<Rightarrow> Inl e
      | Inr es \<Rightarrow>
          traverse (\<lambda>(loc, tmp). case DockerConfigEntry_UnmarshalJSON tmp of
                      Inl e \<Rightarrow> Inl e | Inr ident \<Rightarrow> Inr (loc, ident)) es)"

section \<open>Filling the keyring\<close>

definition NewTrackedAuthConfig ::
  "AuthConfig option \<Rightarrow> SecretCoordinates option \<Rightarrow> TrackedAuthConfig result" where
  "NewTrackedAuthConfig c src =
     (case c of
        None \<Rightarrow> Inl (EPanic ''cannot construct TrackedAuthConfig with a nil AuthConfig'')
      | Some ac \<Rightarrow> Inr \<lparr>tac_AuthConfig = ac, tac_AuthConfigHash = [], tac_Source = None\<rparr>)"

text \<open>The key under which an entry is filed; \<open>None\<close> when its location is no URL.\<close>

definition entry_key :: "string \<Rightarrow> string option" where
  "entry_key loc =
     (let rest = (if HasPrefix loc ''https://'' then drop 8 loc
                  else if HasPrefix loc ''http://'' then drop 7 loc else loc)
      in (case url_Parse rest of
            None \<Rightarrow> None
          | Some parsed \<Rightarrow>
              let effectivePath =
                    (if HasPrefix (url_Path parsed) ''/v2/'' \<or> HasPrefix (url_Path parsed) ''/v1/''
                     then drop 3 (url_Path parsed) else url_Path parsed)
              in Some (if length effectivePath > 0 \<and> effectivePath \<noteq> ''/''
                       then url_Host parsed @ effectivePath else url_Host parsed)))"

definition entry_creds :: "DockerConfigEntry \<Rightarrow> AuthConfig" where
  "entry_creds ident =
     \<lparr>ac_Username = dce_Username ident, ac_Password = dce_Password ident, ac_Auth = [],
      ac_Email = dce_Email ident, ac_ServerAddress = [], ac_IdentityToken = [], ac_RegistryToken = []\<rparr>"

definition tracked :: "SecretCoordinates option \<Rightarrow> DockerConfigEntry \<Rightarrow> TrackedAuthConfig" where
  "tracked src ident =
     (case NewTrackedAuthConfig (Some (entry_creds ident)) src of Inr t \<Rightarrow> t)"

fun add_entries ::
  "SecretCoordinates option \<Rightarrow> DockerConfig \<Rightarrow> string list \<times> (string \<rightharpoonup> TrackedAuthConfig list) \<Rightarrow>
     string list \<times> (string \<rightharpoonup> TrackedAuthConfig list)" where
  "add_entries src [] st = st"
| "add_entries src ((loc, ident) # cfg) (index, creds) =
     (case entry_key loc of
        None \<Rightarrow> add_entries src cfg (index, creds)
      | Some key \<Rightarrow>
          add_entries src cfg
            (index @ [key],
             creds(key \<mapsto> (case creds key of None \<Rightarrow> [] | Some cs \<Rightarrow> cs) @ [tracked src ident])))"

definition sort_descending :: "string list \<Rightarrow> string list" where
  "sort_descending xs = rev (sort (remdups xs))"

definition Keyring_Add ::
  "(DockerConfig \<Rightarrow> DockerConfig) \<Rightarrow> SecretCoordinates option \<Rightarrow> DockerConfig \<Rightarrow>
     BasicDockerKeyring \<Rightarrow> BasicDockerKeyring" where
  "Keyring_Add ord src cfg dk =
     (let (index, creds) =
            (case dk_index dk of
               None \<Rightarrow> ([], Map.empty)
             | Some i \<Rightarrow> (i, case dk_creds dk of None \<Rightarrow> Map.empty | Some c \<Rightarrow> c));
          (index', creds') = add_entries src (ord cfg) (index, creds)
      in \<lparr>dk_index = Some (sort_descending index'), dk_creds = Some creds'\<rparr>)"

definition secret_coords :: "Secret \<Rightarrow> SecretCoordinates" where
  "secret_coords s = \<lparr>sc_UID = sec_UID s, sc_Namespace = sec_Namespace s, sc_Name = sec_Name s\<rparr>"

text \<open>The configuration a secret holds: \<open>None\<close> for a secret of another kind or an empty one.\<close>

definition secret_bytes :: "Secret \<Rightarrow> string \<Rightarrow> string" where
  "secret_bytes s k = (case sec_Data s k of None \<Rightarrow> [] | Some b \<Rightarrow> b)"

definition secret_config :: "'z CredEnv_scheme \<Rightarrow> Secret \<Rightarrow> DockerConfig result option" where
  "secret_config env s =
     (if sec_Type s = ''kubernetes.io/dockerconfigjson'' \<and> length (secret_bytes s ''.dockerconfigjson'') > 0
      then Some (unmarshal_entries (env_DockerConfigJSON env (secret_bytes s ''.dockerconfigjson'')))
      else if sec_Type s = ''kubernetes.io/dockercfg'' \<and> length (secret_bytes s ''.dockercfg'') > 0
      then Some (unmarshal_entries (env_DockerConfig env (secret_bytes s ''.dockercfg'')))
      else None)"

fun secretsToTrackedDockerConfigs ::
  "'z CredEnv_scheme \<Rightarrow> Secret list \<Rightarrow> BasicDockerKeyring \<Rightarrow> nat \<Rightarrow> BasicDockerKeyring option result"
  where
  "secretsToTrackedDockerConfigs env [] provider validSecretsFound =
     Inr (if validSecretsFound = 0 then None else Some provider)"
| "secretsToTrackedDockerConfigs env (passedSecret # secrets) provider validSecretsFound =
     (case secret_config env passedSecret of
        None \<Rightarrow> secretsToTrackedDockerConfigs env secrets provider validSecretsFound
      | Some (Inl e) \<Rightarrow> Inl e
      | Some (Inr cfg) \<Rightarrow>
          secretsToTrackedDockerConfigs env secrets
            (Keyring_Add (env_MapOrder env) (Some (secret_coords passedSecret)) cfg provider)
            (Suc validSecretsFound))"

definition MakeDockerKeyring :: "'z CredEnv_scheme \<Rightarrow> Secret list \<Rightarrow> BasicDockerKeyring option result" where
  "MakeDockerKeyring env secrets = secretsToTrackedDockerConfigs env secrets empty_keyring 0"

section \<open>Matching\<close>

definition SplitURL :: "URL \<Rightarrow> string list \<times> string" where
  "SplitURL url =
     (let (host, port) = (case SplitHostPort (url_Host url) of
                            Some hp \<Rightarrow> hp | None \<Rightarrow> (url_Host url, []))
      in (split_on CHR ''.'' host, port))"

fun parts_match :: "string list \<Rightarrow> string list \<Rightarrow> bool" where
  "parts_match (g # gs) (t # ts) = (filepath_Match g t = Some True \<and> parts_match gs ts)"
| "parts_match _ _ = True"

text \<open>A malformed glob is an error in the code, which its only caller ignores: no match.\<close>

definition URLsMatch :: "URL \<Rightarrow> URL \<Rightarrow> bool" where
  "URLsMatch globURL targetURL =
     (let (globParts, globPort) = SplitURL globURL;
          (targetParts, targetPort) = SplitURL targetURL
      in if globPort \<noteq> targetPort then False
         else if length globParts \<noteq> length targetParts then False
         else if \<not> HasPrefix (url_Path targetURL) (url_Path globURL) then False
         else parts_match globParts targetParts)"

definition URLsMatchStr :: "string \<Rightarrow> string \<Rightarrow> bool" where
  "URLsMatchStr glob target =
     (case url_Parse glob of
        None \<Rightarrow> False
      | Some globURL \<Rightarrow>
          (case url_Parse target of None \<Rightarrow> False | Some targetURL \<Rightarrow> URLsMatch globURL targetURL))"

definition isDefaultRegistryMatch :: "string \<Rightarrow> bool" where
  "isDefaultRegistryMatch img =
     (let parts = SplitN2 CHR ''/'' img; p0 = hd parts
      in if length p0 = 0 then False
         else if length parts = 1 then True
         else if p0 = ''docker.io'' \<or> p0 = ''index.docker.io'' then True
         else \<not> (CHR ''.'' \<in> set p0 \<or> CHR '':'' \<in> set p0))"

definition defaultRegistryHost :: string where
  "defaultRegistryHost = ''index.docker.io''"

definition creds_of :: "BasicDockerKeyring \<Rightarrow> string \<Rightarrow> TrackedAuthConfig list" where
  "creds_of dk k = (case map_get (dk_creds dk) k of None \<Rightarrow> [] | Some cs \<Rightarrow> cs)"

definition index_of :: "BasicDockerKeyring \<Rightarrow> string list" where
  "index_of dk = (case dk_index dk of None \<Rightarrow> [] | Some i \<Rightarrow> i)"

definition Lookup :: "BasicDockerKeyring \<Rightarrow> string \<Rightarrow> TrackedAuthConfig list \<times> bool" where
  "Lookup dk img =
     (let ret = concat (map (creds_of dk) (filter (\<lambda>k. URLsMatchStr k img) (index_of dk)))
      in if length ret > 0 then (ret, True)
         else if isDefaultRegistryMatch img then
           (case map_get (dk_creds dk) defaultRegistryHost of
              Some auth \<Rightarrow> (auth, True)
            | None \<Rightarrow> ([], False))
         else ([], False))"

section \<open>Keychains\<close>

definition keychain_of :: "string \<Rightarrow> TrackedAuthConfig \<Rightarrow> Keychain" where
  "keychain_of repositoryName cred =
     (let c = tac_AuthConfig cred
      in AuthConfigKeychain
           \<lparr>an_Username = ac_Username c, an_Password = ac_Password c, an_Auth = ac_Auth c,
            an_IdentityToken = ac_IdentityToken c, an_RegistryToken = ac_RegistryToken c\<rparr>
           repositoryName)"

definition getKeychainsFromSecrets :: "'z CredEnv_scheme \<Rightarrow> string \<Rightarrow> Secret list \<Rightarrow> Keychain list result"
  where
  "getKeychainsFromSecrets env repositoryName pullSecrets =
     (case env_ParseNamed env repositoryName of
        Inl e \<Rightarrow> Inl (EMsg ''couldn't parse image name'')
      | Inr named \<Rightarrow>
          (case MakeDockerKeyring env pullSecrets of
             Inl e \<Rightarrow> Inl e
           | Inr None \<Rightarrow> Inr []
           | Inr (Some keyring) \<Rightarrow>
               Inr (map (keychain_of (nmd_Name named)) (fst (Lookup keyring (nmd_Name named))))))"

definition GetKeychains :: "'z CredEnv_scheme \<Rightarrow> string \<Rightarrow> Secret list \<Rightarrow> Keychain list result" where
  "GetKeychains env repositoryName pullSecrets =
     (case getKeychainsFromSecrets env repositoryName pullSecrets of
        Inl e \<Rightarrow> Inl e | Inr keychains \<Rightarrow> Inr keychains)"

text \<open>\<open>authConfigKeychain.Resolve\<close>, on the resource's \<open>String()\<close>.\<close>

definition authConfigKeychain_Resolve :: "AuthnConfig \<Rightarrow> string \<Rightarrow> string \<Rightarrow> Authenticator" where
  "authConfigKeychain_Resolve cfg repositoryName target =
     (if target \<noteq> repositoryName then Anonymous else FromConfig cfg)"

section \<open>The auth field\<close>

lemma last_dropWhile: "xs \<noteq> [] \<Longrightarrow> \<not> P (last xs) \<Longrightarrow> dropWhile P xs \<noteq> [] \<and> last (dropWhile P xs) = last xs"
  by (induction xs) auto

lemma last_TrimSpace:
  assumes "s \<noteq> []" and "\<not> is_space (last s)"
  shows "TrimSpace s \<noteq> []" and "last (TrimSpace s) = last s"
proof -
  let ?d = "dropWhile is_space s"
  have d: "?d \<noteq> []" "last ?d = last s" using last_dropWhile [of s is_space] assms by auto
  then have "hd (rev ?d) = last s" by (simp add: hd_rev)
  then have "dropWhile is_space (rev ?d) = rev ?d"
    using assms(2) d(1) by (cases "rev ?d") auto
  with d show "TrimSpace s \<noteq> []" and "last (TrimSpace s) = last s" by (simp_all add: TrimSpace_def)
qed

lemma HasSuffix_char: "s \<noteq> [] \<Longrightarrow> HasSuffix s [c] = (last s = c)"
proof -
  assume "s \<noteq> []"
  then obtain b where "s = b @ [last s]" by (metis append_butlast_last_id)
  then have r: "rev s = last s # rev b" by (metis rev.simps(2) rev_rev_ident rev_swap)
  show ?thesis unfolding HasSuffix_def HasPrefix_def r by simp
qed

lemma b64_enc_unpadded: "length xs mod 3 = 0 \<Longrightarrow> b64_enc p xs = b64_enc q xs"
proof (induction p xs rule: b64_enc.induct)
  case (4 p a b c rest)
  then have "length rest mod 3 = 0" unfolding list.size by presburger
  with 4 show ?case by simp
qed simp_all

lemma b64_char_not_space: "n < 64 \<Longrightarrow> \<not> is_space (b64_char n)"
proof -
  assume "n < 64"
  then have "43 \<le> (of_char (b64_char n) :: nat)" by (auto simp: b64_char_def)
  then show "\<not> is_space (b64_char n)" by (auto simp: is_space_def)
qed

lemma not_space_equals: "\<not> is_space CHR ''=''"
  by (simp add: is_space_def)

lemma b64_enc_not_space:
  "\<forall>x\<in>set xs. x < 256 \<Longrightarrow> list_all (\<lambda>c. \<not> is_space c) (b64_enc p xs)"
proof (induction p xs rule: b64_enc.induct)
  case (2 p a)
  with byte_bounds [of a 0 0] show ?case by (simp add: b64_char_not_space not_space_equals)
next
  case (3 p a b)
  with byte_bounds [of a b 0] show ?case by (simp add: b64_char_not_space not_space_equals)
next
  case (4 p a b c')
  with byte_bounds [of a b c'] show ?case by (simp add: b64_char_not_space)
qed simp

lemma encoding_detected:
  assumes "s \<noteq> []"
  shows "DecodeString (HasSuffix (TrimSpace (EncodeToString p s)) ''='') (EncodeToString p s) = Some s"
proof -
  let ?xs = "map of_char s :: nat list"
  let ?e = "EncodeToString p s"
  have bytes: "\<forall>x\<in>set ?xs. x < 256" by simp
  have e: "?e \<noteq> []" "(last ?e = CHR ''='') = (p \<and> length s mod 3 \<noteq> 0)"
    using b64_enc_last [OF bytes, of p] assms by (simp_all add: EncodeToString_def)
  have "last ?e \<in> set (b64_enc p ?xs)"
    using e(1) unfolding EncodeToString_def by (rule last_in_set)
  with b64_enc_not_space [OF bytes, of p] have "\<not> is_space (last ?e)"
    unfolding list_all_iff by blast
  from last_TrimSpace [OF e(1) this]
  have suffix: "HasSuffix (TrimSpace ?e) ''='' = (p \<and> length s mod 3 \<noteq> 0)"
    using e(2) by (simp add: HasSuffix_char)
  have "EncodeToString p s = EncodeToString (p \<and> length s mod 3 \<noteq> 0) s"
    using b64_enc_unpadded [of ?xs p False] by (cases "length s mod 3 = 0") (simp_all add: EncodeToString_def)
  then show ?thesis unfolding suffix by (metis b64_round_trip)
qed

text \<open>
  C34. Reading the \<open>auth\<close> field of a docker configuration inverts writing it: whatever the
  user name without a colon and the password, and whether the writer padded the base64 text
  or not, \<open>decodeDockerConfigFieldAuth\<close> gives both back.
\<close>

theorem auth_field_round_trip:
  assumes "CHR '':'' \<notin> set username"
  shows "decodeDockerConfigFieldAuth (EncodeToString padded (username @ '':'' @ password)) = Inr (username, password)"
  using assms by (simp add: decodeDockerConfigFieldAuth_def encoding_detected SplitN2_append)

theorem auth_field_round_trip_witness:
  "decodeDockerConfigFieldAuth (EncodeToString True (''bob'' @ '':'' @ ''se:cret'')) = Inr (''bob'', ''se:cret'')"
  by (rule auth_field_round_trip) simp

section \<open>The keyring\<close>

definition entry_keys :: "DockerConfig \<Rightarrow> string list" where
  "entry_keys cfg = List.map_filter (\<lambda>(loc, _). entry_key loc) cfg"

definition creds_for :: "SecretCoordinates option \<Rightarrow> string \<Rightarrow> DockerConfig \<Rightarrow> TrackedAuthConfig list" where
  "creds_for src k cfg = map (\<lambda>(_, ident). tracked src ident) (filter (\<lambda>(loc, _). entry_key loc = Some k) cfg)"

lemma entry_keys_simps [simp]:
  "entry_keys [] = []"
  "entry_keys ((loc, i) # cfg) = (case entry_key loc of None \<Rightarrow> [] | Some k \<Rightarrow> [k]) @ entry_keys cfg"
  by (auto simp: entry_keys_def List.map_filter_def split: option.splits)

lemma creds_for_simps [simp]:
  "creds_for src k [] = []"
  "creds_for src k ((loc, i) # cfg) =
     (if entry_key loc = Some k then [tracked src i] else []) @ creds_for src k cfg"
  by (auto simp: creds_for_def)

lemma creds_for_nonempty: "creds_for src k cfg \<noteq> [] \<longleftrightarrow> k \<in> set (entry_keys cfg)"
  by (induction cfg) (auto split: option.splits if_splits)

definition table_get :: "(string \<rightharpoonup> 'v list) \<Rightarrow> string \<Rightarrow> 'v list" where
  "table_get c k = (case c k of None \<Rightarrow> [] | Some cs \<Rightarrow> cs)"

lemma add_entries_spec:
  "\<exists>c'. add_entries src cfg (i, c) = (i @ entry_keys cfg, c')
      \<and> dom c' = dom c \<union> set (entry_keys cfg)
      \<and> (\<forall>k. table_get c' k = table_get c k @ creds_for src k cfg)"
proof (induction cfg arbitrary: i c)
  case Nil
  then show ?case by simp
next
  case (Cons e cfg)
  obtain loc ident where e: "e = (loc, ident)" by (cases e)
  show ?case
  proof (cases "entry_key loc")
    case None
    with Cons.IH [of i c] e show ?thesis by simp
  next
    case (Some key)
    let ?c = "c(key \<mapsto> table_get c key @ [tracked src ident])"
    from Cons.IH [of "i @ [key]" ?c] obtain c' where
      "add_entries src cfg (i @ [key], ?c) = ((i @ [key]) @ entry_keys cfg, c')"
      "dom c' = dom ?c \<union> set (entry_keys cfg)"
      "\<forall>k. table_get c' k = table_get ?c k @ creds_for src k cfg" by blast
    with Some e show ?thesis by (auto simp: table_get_def)
  qed
qed

lemma sort_descending_facts:
  "set (sort_descending xs) = set xs" "sorted_wrt (>) (sort_descending xs)"
proof -
  have "sorted_wrt (<) (sort (remdups xs))"
    by (simp add: strict_sorted_iff)
  then show "sorted_wrt (>) (sort_descending xs)"
    by (simp add: sort_descending_def sorted_wrt_rev)
qed (simp add: sort_descending_def)

text \<open>
  The invariant of \<open>BasicDockerKeyring\<close>: both fields are nil, or the index lists the keys
  of the credential table in strictly decreasing order, none with an empty entry.
\<close>

definition wf_keyring :: "BasicDockerKeyring \<Rightarrow> bool" where
  "wf_keyring dk \<longleftrightarrow>
     (case (dk_index dk, dk_creds dk) of
        (None, None) \<Rightarrow> True
      | (Some i, Some c) \<Rightarrow> sorted_wrt (>) i \<and> set i = dom c \<and> (\<forall>k. c k \<noteq> Some [])
      | _ \<Rightarrow> False)"

lemma wf_empty: "wf_keyring empty_keyring"
  by (simp add: wf_keyring_def empty_keyring_def)

lemma Keyring_Add_spec:
  assumes "wf_keyring dk"
  shows "wf_keyring (Keyring_Add ord src cfg dk)"
    and "creds_of (Keyring_Add ord src cfg dk) k = creds_of dk k @ creds_for src k (ord cfg)"
    and "set (index_of (Keyring_Add ord src cfg dk)) = set (index_of dk) \<union> set (entry_keys (ord cfg))"
proof -
  define i where "i = index_of dk"
  define c where "c = (case dk_creds dk of None \<Rightarrow> Map.empty | Some c \<Rightarrow> c)"
  have ic: "(case dk_index dk of None \<Rightarrow> ([], Map.empty)
      | Some i \<Rightarrow> (i, case dk_creds dk of None \<Rightarrow> Map.empty | Some c \<Rightarrow> c)) = (i, c)"
    using assms by (auto simp: i_def c_def index_of_def wf_keyring_def split: option.splits)
  have dom: "set i = dom c" "\<forall>k. c k \<noteq> Some []"
    using assms by (auto simp: i_def c_def index_of_def wf_keyring_def split: option.splits)
  have creds: "creds_of dk k = table_get c k" for k
    using assms by (auto simp: c_def creds_of_def table_get_def split: option.splits)
  obtain c' where c': "add_entries src (ord cfg) (i, c) = (i @ entry_keys (ord cfg), c')"
    "dom c' = dom c \<union> set (entry_keys (ord cfg))"
    "\<forall>k. table_get c' k = table_get c k @ creds_for src k (ord cfg)"
    using add_entries_spec by blast
  have add: "Keyring_Add ord src cfg dk =
      \<lparr>dk_index = Some (sort_descending (i @ entry_keys (ord cfg))), dk_creds = Some c'\<rparr>"
    by (simp add: Keyring_Add_def ic c')
  have ne: "c' k \<noteq> Some []" for k
  proof
    assume k: "c' k = Some []"
    then have "table_get c' k = []" by (simp add: table_get_def)
    then have "table_get c k = []" and "creds_for src k (ord cfg) = []"
      using c'(3) by simp_all
    then have "k \<notin> dom c" and "k \<notin> set (entry_keys (ord cfg))"
      using dom(2) creds_for_nonempty [of src k] by (auto simp: table_get_def split: option.splits)
    with k c'(2) show False by auto
  qed
  show "wf_keyring (Keyring_Add ord src cfg dk)"
    using c' dom ne by (simp add: add wf_keyring_def sort_descending_facts)
  show "creds_of (Keyring_Add ord src cfg dk) k = creds_of dk k @ creds_for src k (ord cfg)"
    using c'(3) unfolding creds by (simp add: add creds_of_def table_get_def)
  show "set (index_of (Keyring_Add ord src cfg dk)) = set (index_of dk) \<union> set (entry_keys (ord cfg))"
    by (simp add: add index_of_def sort_descending_facts i_def)
qed

lemma secrets_wf:
  "wf_keyring dk \<Longrightarrow> secretsToTrackedDockerConfigs env secrets dk n = Inr (Some dk') \<Longrightarrow> wf_keyring dk'"
  by (induction secrets arbitrary: dk n)
    (auto split: if_splits option.splits sum.splits intro: Keyring_Add_spec)

lemma MakeDockerKeyring_wf: "MakeDockerKeyring env secrets = Inr (Some dk) \<Longrightarrow> wf_keyring dk"
  unfolding MakeDockerKeyring_def using wf_empty secrets_wf by blast

text \<open>Where a credential of the built keyring comes from.\<close>

definition entry_of :: "'z CredEnv_scheme \<Rightarrow> Secret \<Rightarrow> string \<Rightarrow> TrackedAuthConfig \<Rightarrow> bool" where
  "entry_of env s k cred \<longleftrightarrow>
     (\<exists>cfg loc ident. secret_config env s = Some (Inr cfg) \<and> (loc, ident) \<in> set cfg
        \<and> entry_key loc = Some k \<and> cred = tracked (Some (secret_coords s)) ident)"

lemma creds_for_in: "c \<in> set (creds_for src k cfg) \<Longrightarrow>
    \<exists>loc ident. (loc, ident) \<in> set cfg \<and> entry_key loc = Some k \<and> c = tracked src ident"
  by (auto simp: creds_for_def)

lemma secrets_origin:
  assumes "range_order (env_MapOrder env)" and "wf_keyring dk"
    and "secretsToTrackedDockerConfigs env secrets dk n = Inr (Some dk')"
    and "c \<in> set (creds_of dk' k)"
  shows "c \<in> set (creds_of dk k) \<or> (\<exists>s\<in>set secrets. entry_of env s k c)"
  using assms(2-)
proof (induction secrets arbitrary: dk n)
  case Nil
  then show ?case by (simp split: if_splits)
next
  case (Cons s secrets)
  show ?case
  proof (cases "secret_config env s")
    case None
    with Cons show ?thesis by auto
  next
    case (Some r)
    with Cons.prems obtain cfg where r: "r = Inr cfg" by (cases r) auto
    let ?dk = "Keyring_Add (env_MapOrder env) (Some (secret_coords s)) cfg dk"
    from Cons.IH [of ?dk "Suc n"] Cons.prems Some r
    have "c \<in> set (creds_of ?dk k) \<or> (\<exists>s\<in>set secrets. entry_of env s k c)"
      by (simp add: Keyring_Add_spec)
    moreover have "entry_of env s k c" if "c \<in> set (creds_for (Some (secret_coords s)) k (env_MapOrder env cfg))"
      using creds_for_in [OF that] Some r range_order_set [OF assms(1)] by (auto simp: entry_of_def)
    ultimately show ?thesis using Cons.prems(1) by (auto simp: Keyring_Add_spec)
  qed
qed

section \<open>The interface \<open>DockerKeyring\<close>\<close>

text \<open>When a key applies to an image: a glob match, or the Docker Hub fallback.\<close>

definition covers :: "string \<Rightarrow> string \<Rightarrow> bool" where
  "covers key img \<longleftrightarrow> URLsMatchStr key img \<or> (key = defaultRegistryHost \<and> isDefaultRegistryMatch img)"

locale docker_keyring =
  fixes look :: "'k \<Rightarrow> string \<Rightarrow> TrackedAuthConfig list \<times> bool"
    and stored :: "'k \<Rightarrow> string \<Rightarrow> TrackedAuthConfig list"
    and valid :: "'k \<Rightarrow> bool"
  assumes look_found: "valid dk \<Longrightarrow> look dk img = (cs, found) \<Longrightarrow> found = (cs \<noteq> [])"
    and look_sound: "look dk img = (cs, found) \<Longrightarrow> c \<in> set cs \<Longrightarrow> \<exists>key. c \<in> set (stored dk key) \<and> covers key img"
    and look_complete: "valid dk \<Longrightarrow> look dk img = (cs, found) \<Longrightarrow> c \<in> set (stored dk key) \<Longrightarrow>
      URLsMatchStr key img \<Longrightarrow> c \<in> set cs"
begin

lemma keychain_origin:
  assumes "kc \<in> set (map (keychain_of n) (fst (look dk n)))"
  shows "\<exists>c key. kc = keychain_of n c \<and> c \<in> set (stored dk key) \<and> covers key n"
  using assms look_sound [of dk n "fst (look dk n)" "snd (look dk n)"] by auto

lemma keychain_present:
  assumes "valid dk" and "c \<in> set (stored dk key)" and "URLsMatchStr key n"
  shows "keychain_of n c \<in> set (map (keychain_of n) (fst (look dk n)))" and "snd (look dk n)"
proof -
  have c: "c \<in> set (fst (look dk n))"
    using look_complete [OF assms(1) _ assms(2,3)] by (metis prod.collapse)
  then show "keychain_of n c \<in> set (map (keychain_of n) (fst (look dk n)))" by simp
  from c show "snd (look dk n)"
    using look_found [OF assms(1)] by (metis list.set_intros(1) empty_iff empty_set prod.collapse)
qed

end

lemma creds_of_dom: "wf_keyring dk \<Longrightarrow> c \<in> set (creds_of dk k) \<Longrightarrow> k \<in> set (index_of dk)"
  by (auto simp: creds_of_def index_of_def wf_keyring_def split: option.splits)

lemma creds_of_get: "map_get (dk_creds dk) k = Some cs \<Longrightarrow> creds_of dk k = cs"
  by (simp add: creds_of_def)

lemma wf_creds_ne: "wf_keyring dk \<Longrightarrow> map_get (dk_creds dk) k \<noteq> Some []"
  by (auto simp: wf_keyring_def map_get_def split: option.splits)

interpretation basic: docker_keyring Lookup creds_of wf_keyring
proof
  fix dk img cs found
  assume "wf_keyring dk" and "Lookup dk img = (cs, found)"
  then show "found = (cs \<noteq> [])"
    using wf_creds_ne [of dk] by (auto simp: Lookup_def Let_def split: if_splits option.splits)
next
  fix dk img cs found c
  assume "Lookup dk img = (cs, found)" and "c \<in> set cs"
  then show "\<exists>key. c \<in> set (creds_of dk key) \<and> covers key img"
    by (auto simp: Lookup_def Let_def covers_def dest: creds_of_get split: if_splits option.splits)
next
  fix dk img cs found c key
  assume "wf_keyring dk" and "Lookup dk img = (cs, found)"
    and "c \<in> set (creds_of dk key)" and "URLsMatchStr key img"
  then have "key \<in> set (index_of dk)" and "c \<in> set (creds_of dk key)" and "URLsMatchStr key img"
    by (auto dest: creds_of_dom)
  then have "c \<in> set (concat (map (creds_of dk) (filter (\<lambda>k. URLsMatchStr k img) (index_of dk))))"
    by auto
  with \<open>Lookup dk img = (cs, found)\<close> show "c \<in> set cs"
    by (auto simp: Lookup_def Let_def split: if_splits)
qed

section \<open>Plain host names\<close>

definition plain_host :: "string \<Rightarrow> bool" where
  "plain_host h \<longleftrightarrow> list_all (\<lambda>c. is_letter c \<or> is_digit c \<or> c \<in> set ''-.*'') h"

definition plain_path :: "string \<Rightarrow> bool" where
  "plain_path p \<longleftrightarrow> list_all (\<lambda>c. is_letter c \<or> is_digit c \<or> c \<in> set ''-._/'') p"

definition plain_char :: "char \<Rightarrow> bool" where
  "plain_char c \<longleftrightarrow> is_letter c \<or> is_digit c \<or> c \<in> set ''-.*_/''"

lemma plain_char_not:
  "\<not> plain_char CHR ''#''" "\<not> plain_char CHR ''?''" "\<not> plain_char CHR ''@''" "\<not> plain_char CHR '':''"
  "\<not> plain_char CHR ''%''" "\<not> plain_char CHR ''[''" "\<not> plain_char CHR '']''" "\<not> plain_char CHR 92"
  "\<not> plain_char CHR 127"
  by (simp_all add: plain_char_def is_letter_def is_digit_def)

lemma plain_char_ge: "plain_char c \<Longrightarrow> 32 \<le> (of_char c :: nat)"
  unfolding plain_char_def is_letter_def is_digit_def less_eq_char_def
  by (elim disjE conjE) (simp_all, auto)

lemma letter_digit_facts:
  assumes "is_letter c \<or> is_digit c \<or> c \<in> set ''-.*_/''"
  shows "c \<noteq> CHR ''#''" "c \<noteq> CHR ''?''" "c \<noteq> CHR ''@''" "c \<noteq> CHR '':''" "c \<noteq> CHR ''%''"
    "c \<noteq> CHR ''[''" "c \<noteq> CHR '']''" "c \<noteq> CHR 92" "c \<noteq> CHR 127" "32 \<le> (of_char c :: nat)"
proof -
  from assms have "plain_char c" by (simp add: plain_char_def)
  with plain_char_not plain_char_ge show "c \<noteq> CHR ''#''" "c \<noteq> CHR ''?''" "c \<noteq> CHR ''@''" "c \<noteq> CHR '':''"
    "c \<noteq> CHR ''%''" "c \<noteq> CHR ''[''" "c \<noteq> CHR '']''" "c \<noteq> CHR 92" "c \<noteq> CHR 127" "32 \<le> (of_char c :: nat)"
    by metis+
qed

lemma host_slash: "is_letter c \<or> is_digit c \<or> c \<in> set ''-.*'' \<Longrightarrow> c \<noteq> CHR ''/'' \<and> host_char c"
proof -
  assume c: "is_letter c \<or> is_digit c \<or> c \<in> set ''-.*''"
  moreover have "\<not> is_letter CHR ''/''" "\<not> is_digit CHR ''/''" "CHR ''/'' \<notin> set ''-.*''"
    by (simp_all add: is_letter_def is_digit_def)
  ultimately have "c \<noteq> CHR ''/''" by metis
  moreover have "set ''-.*'' \<subseteq> set ''-_.~!$&()*+,;=:[]<>\"''" by simp
  ultimately show ?thesis using c unfolding host_char_def by blast
qed

lemma unescape_plain: "list_all ok s \<Longrightarrow> CHR ''%'' \<notin> set s \<Longrightarrow> unescape ok okx s = Some s"
  by (induction s) auto

lemma cut_absent: "c \<notin> set s \<Longrightarrow> cut_at c s = (s, [])"
  by (induction s) (auto simp: cut_at_def)

lemma cut_present: "c \<notin> set a \<Longrightarrow> cut_at c (a @ c # b) = (a, b)"
  by (induction a) (auto simp: cut_at_def)

lemma cut_last_absent: "c \<notin> set s \<Longrightarrow> cut_last c s = None"
  by (simp add: cut_last_def)

lemma plain_hostD:
  assumes "plain_host h" and "c \<in> set h"
  shows "c \<notin> set ''#?@:%[]/''" "c \<noteq> CHR 92" "c \<noteq> CHR 127" "32 \<le> (of_char c :: nat)" "host_char c"
proof -
  have c: "is_letter c \<or> is_digit c \<or> c \<in> set ''-.*''"
    using assms unfolding plain_host_def list_all_iff by blast
  moreover have "set ''-.*'' \<subseteq> set ''-.*_/''" by simp
  ultimately have "is_letter c \<or> is_digit c \<or> c \<in> set ''-.*_/''" by blast
  from letter_digit_facts [OF this] host_slash [OF c]
  show "c \<notin> set ''#?@:%[]/''" "c \<noteq> CHR 92" "c \<noteq> CHR 127" "32 \<le> (of_char c :: nat)" "host_char c"
    by simp_all
qed

lemma plain_pathD:
  assumes "plain_path p" and "c \<in> set p"
  shows "c \<notin> set ''#?@:%''" "c \<noteq> CHR 127" "32 \<le> (of_char c :: nat)"
proof -
  have "is_letter c \<or> is_digit c \<or> c \<in> set ''-._/''"
    using assms unfolding plain_path_def list_all_iff by blast
  moreover have "set ''-._/'' \<subseteq> set ''-.*_/''" by simp
  ultimately have "is_letter c \<or> is_digit c \<or> c \<in> set ''-.*_/''" by blast
  from letter_digit_facts [OF this]
  show "c \<notin> set ''#?@:%''" "c \<noteq> CHR 127" "32 \<le> (of_char c :: nat)"
    by simp_all
qed

lemma parse_host_plain:
  assumes "plain_host h"
  shows "parse_authority h = Some h"
proof -
  have no: "CHR ''@'' \<notin> set h" "CHR '':'' \<notin> set h" "CHR ''%'' \<notin> set h" "CHR ''['' \<notin> set h"
    using plain_hostD(1) [OF assms] by auto
  then have "\<not> HasPrefix h ''[''" by (cases h) (auto simp: HasPrefix_def)
  moreover have "list_all host_char h" using plain_hostD(5) [OF assms] by (auto simp: list_all_iff)
  ultimately show ?thesis
    using no by (simp add: parse_authority_def parse_host_def cut_last_absent unescape_plain)
qed

lemma url_Parse_plain:
  assumes "plain_host h" and "plain_path p" and "p = [] \<or> hd p = CHR ''/''"
  shows "url_Parse (h @ p) = Some \<lparr>url_Host = h, url_Path = p\<rparr>"
proof -
  let ?s = "h @ p"
  have abs: "CHR ''#'' \<notin> set ?s" "CHR ''?'' \<notin> set ?s"
    using plain_hostD(1) [OF assms(1)] plain_pathD(1) [OF assms(2)] by auto
  have ctl: "\<not> (\<exists>c\<in>set ?s. (of_char c :: nat) < 32 \<or> c = CHR 127)"
    using plain_hostD(3,4) [OF assms(1)] plain_pathD(2,3) [OF assms(2)] by fastforce
  have "CHR ''/'' \<notin> set h" using plain_hostD(1) [OF assms(1)] by auto
  then have auth: "fst (cut_at CHR ''/'' ?s) = h"
    using assms(3) by (cases p) (simp_all add: cut_absent cut_present)
  have "CHR ''%'' \<notin> set p" using plain_pathD(1) [OF assms(2)] by auto
  then have path: "unescape (\<lambda>_. True) (\<lambda>_. True) p = Some p" by (intro unescape_plain) (simp_all add: list_all_iff)
  show ?thesis
    by (simp only: url_Parse_def Let_def cut_absent [OF abs(1)] cut_absent [OF abs(2)] prod.case fst_conv
        auth ctl if_False parse_host_plain [OF assms(1)]) (simp add: path)
qed

lemma SplitURL_plain: "plain_host h \<Longrightarrow> SplitURL \<lparr>url_Host = h, url_Path = p\<rparr> = (split_on CHR ''.'' h, [])"
proof -
  assume "plain_host h"
  then have "CHR '':'' \<notin> set h" using plain_hostD(1) by auto
  then show ?thesis by (simp add: SplitURL_def SplitHostPort_def cut_last_absent)
qed

lemma parts_match_literal:
  "length gs = length ts \<Longrightarrow> list_all glob_free gs \<Longrightarrow> parts_match gs ts \<longleftrightarrow> gs = ts"
  by (induction gs ts rule: list_induct2) (auto simp: filepath_Match_literal)

lemma split_parts_chars: "x \<in> set (split_on c s) \<Longrightarrow> set x \<subseteq> set s"
proof (induction s arbitrary: x)
  case Nil
  then show ?case by simp
next
  case (Cons a s)
  obtain p ps where p: "split_on c s = p # ps" by (cases "split_on c s") auto
  with Cons.IH have "set p \<subseteq> set s" "\<And>y. y \<in> set ps \<Longrightarrow> set y \<subseteq> set s" by simp_all
  with Cons.prems p show ?case by (fastforce split: if_splits)
qed

lemma split_inj: "split_on c s = split_on c t \<Longrightarrow> s = t"
  by (metis join_split)

lemma parts_glob_free:
  assumes "plain_host k" and "CHR ''*'' \<notin> set k"
  shows "list_all glob_free (split_on CHR ''.'' k)"
proof -
  have "c \<noteq> CHR ''*'' \<and> c \<noteq> CHR ''?'' \<and> c \<noteq> CHR ''['' \<and> c \<noteq> CHR 92" if "c \<in> set k" for c
    using plain_hostD(1,2) [OF assms(1) that] assms(2) that by auto
  then show ?thesis using split_parts_chars by (fastforce simp: list_all_iff glob_free_def)
qed

lemma match_plain:
  assumes "plain_host k" and "plain_host h" and "plain_path p" and "p = [] \<or> hd p = CHR ''/''"
  shows "URLsMatchStr k (h @ p) \<longleftrightarrow>
           length (split_on CHR ''.'' k) = length (split_on CHR ''.'' h)
           \<and> parts_match (split_on CHR ''.'' k) (split_on CHR ''.'' h)"
proof -
  have "url_Parse k = Some \<lparr>url_Host = k, url_Path = []\<rparr>"
    using url_Parse_plain [OF assms(1), of "[]"] by (simp add: plain_path_def)
  then show ?thesis
    using assms by (simp add: URLsMatchStr_def url_Parse_plain URLsMatch_def SplitURL_plain)
qed

text \<open>
  Docker Hub's conventional key and its variants are one key: a host name \<open>h\<close> may be
  written bare, with either scheme, with a trailing slash, or with the \<open>/v1/\<close> or \<open>/v2/\<close> API
  path; every spelling files the credentials under \<open>h\<close>.
\<close>

theorem registry_spellings:
  assumes "plain_host h"
  shows "list_all (\<lambda>loc. entry_key loc = Some h)
           [h, ''https://'' @ h, ''http://'' @ h, h @ ''/'', ''https://'' @ h @ ''/'',
            ''https://'' @ h @ ''/v1/'', ''http://'' @ h @ ''/v2/'', h @ ''/v2/'']"
proof -
  have bare: "\<not> HasPrefix (h @ q) ''https://'' \<and> \<not> HasPrefix (h @ q) ''http://''" if "plain_path q" for q
  proof -
    have no: "CHR '':'' \<notin> set (h @ q)" using plain_hostD(1) [OF assms] plain_pathD(1) [OF that] by auto
    have "CHR '':'' \<in> set (''https://'' @ r)" "CHR '':'' \<in> set (''http://'' @ r)" for r by simp_all
    with no show ?thesis unfolding HasPrefix_iff by metis
  qed
  have url: "url_Parse (h @ q) = Some \<lparr>url_Host = h, url_Path = q\<rparr>" if "q \<in> {[], ''/'', ''/v1/'', ''/v2/''}" for q
    using that by (intro url_Parse_plain [OF assms]) (auto simp: plain_path_def is_letter_def is_digit_def)
  have paths: "plain_path []" "plain_path ''/''" "plain_path ''/v2/''"
    by (simp_all add: plain_path_def is_letter_def is_digit_def)
  have http: "\<not> HasPrefix (''http://'' @ q) ''https://''" for q by (simp add: HasPrefix_def)
  show ?thesis
    using bare [OF paths(1)] bare [OF paths(2)] bare [OF paths(3)] url [of "[]"] url [of "''/''"]
      url [of "''/v1/''"] url [of "''/v2/''"] http [of h] http [of "h @ ''/v2/''"]
    by (simp add: entry_key_def HasPrefix_def)
qed

theorem registry_spellings_witness:
  "list_all (\<lambda>loc. entry_key loc = Some ''index.docker.io'')
     [''index.docker.io'', ''https://'' @ ''index.docker.io'', ''http://'' @ ''index.docker.io'',
      ''index.docker.io'' @ ''/'', ''https://'' @ ''index.docker.io'' @ ''/'',
      ''https://'' @ ''index.docker.io'' @ ''/v1/'', ''http://'' @ ''index.docker.io'' @ ''/v2/'',
      ''index.docker.io'' @ ''/v2/'']"
  by (rule registry_spellings) (simp add: plain_host_def is_letter_def is_digit_def)

text \<open>
  A key that is a host name applies to exactly the images of that host, and a key
  \<open>*.d\<close> to exactly the images of the hosts one label below \<open>d\<close>.
\<close>

theorem host_key_matches:
  assumes "plain_host d" and "CHR ''*'' \<notin> set d" and "plain_host h" and "plain_path p"
  shows "URLsMatchStr d (h @ ''/'' @ p) = (d = h)
    \<and> URLsMatchStr (''*.'' @ d) (h @ ''/'' @ p) = (\<exists>label. CHR ''.'' \<notin> set label \<and> h = label @ ''.'' @ d)"
proof
  have p: "plain_path (''/'' @ p)" using assms(4) by (simp add: plain_path_def)
  let ?d = "split_on CHR ''.'' d" and ?h = "split_on CHR ''.'' h"
  note free = parts_glob_free [OF assms(1,2)]
  show "URLsMatchStr d (h @ ''/'' @ p) = (d = h)"
    using match_plain [OF assms(1,3) p] parts_match_literal [OF _ free, of ?h] split_inj [of _ d h]
    by auto
  have star: "plain_host (''*.'' @ d)" using assms(1) by (simp add: plain_host_def)
  have split: "split_on CHR ''.'' (''*.'' @ d) = ''*'' # ?d"
    using split_on_append_sep [of "CHR ''.''" "''*''" d] by simp
  have noslash: "CHR ''/'' \<notin> set t" if "t \<in> set ?h" for t
    using split_parts_chars [OF that] plain_hostD(1) [OF assms(3)] by auto
  have "URLsMatchStr (''*.'' @ d) (h @ ''/'' @ p) \<longleftrightarrow> (\<exists>t. ?h = t # ?d)"
  proof (cases ?h)
    case Nil
    then show ?thesis by (metis split_on_ne)
  next
    case (Cons t ts)
    with match_plain [OF star assms(3) p] noslash [of t] parts_match_literal [OF _ free, of ts]
    show ?thesis unfolding split by (auto simp: filepath_Match_star)
  qed
  also have "\<dots> \<longleftrightarrow> (\<exists>label. CHR ''.'' \<notin> set label \<and> h = label @ ''.'' @ d)"
  proof
    assume "\<exists>t. ?h = t # ?d"
    then obtain t where t: "?h = t # ?d" by blast
    then have "CHR ''.'' \<notin> set t" using split_on_no_sep [of t "CHR ''.''" h] by simp
    moreover have "h = t @ ''.'' @ d"
      using join_split [of "CHR ''.''" h] join_split [of "CHR ''.''" d]
      unfolding t join_with_Cons by simp
    ultimately show "\<exists>label. CHR ''.'' \<notin> set label \<and> h = label @ ''.'' @ d" by blast
  next
    assume "\<exists>label. CHR ''.'' \<notin> set label \<and> h = label @ ''.'' @ d"
    then obtain label where l: "CHR ''.'' \<notin> set label" "h = label @ CHR ''.'' # d" by auto
    show "\<exists>t. ?h = t # ?d"
      unfolding l(2) split_on_append_sep split_on_absent [OF l(1)] by simp
  qed
  finally show "URLsMatchStr (''*.'' @ d) (h @ ''/'' @ p) =
      (\<exists>label. CHR ''.'' \<notin> set label \<and> h = label @ ''.'' @ d)" .
qed

theorem host_key_matches_witness:
  "\<not> URLsMatchStr ''docker.io'' (''blah.docker.io'' @ ''/'' @ ''a'')
   \<and> URLsMatchStr (''*.'' @ ''docker.io'') (''blah.docker.io'' @ ''/'' @ ''a'')"
proof -
  have "\<exists>label. CHR ''.'' \<notin> set label \<and> ''blah.docker.io'' = label @ ''.'' @ ''docker.io''"
    by (intro exI [of _ "''blah''"]) simp
  with host_key_matches [of "''docker.io''" "''blah.docker.io''" "''a''"] show ?thesis
    by (simp add: plain_host_def plain_path_def is_letter_def is_digit_def)
qed

section \<open>Which credentials an image gets\<close>

lemma append_greater: "s \<noteq> [] \<Longrightarrow> k < k @ (s :: string)"
  unfolding list_less_def by (cases s) (auto intro: lexord_append_rightI)

lemma sorted_pair_split:
  assumes "sorted_wrt (>) i" and "a \<in> set i" and "b \<in> set i" and "(a :: string) < b"
  shows "\<exists>x y z. i = x @ b # y @ a # z"
proof -
  obtain x r where i: "i = x @ b # r" using split_list [OF assms(3)] by blast
  have "a \<notin> set x" using assms(1,4) unfolding i by (auto simp: sorted_wrt_append)
  with assms(2,4) i have "a \<in> set r" by auto
  then obtain y z where "r = y @ a # z" using split_list by metis
  with i show ?thesis by blast
qed

definition example_secret :: "string \<Rightarrow> Secret" where
  "example_secret doc =
     \<lparr>sec_Name = ''s'', sec_Namespace = ''ns'', sec_UID = ''u'', sec_Type = ''kubernetes.io/dockercfg'',
      sec_Data = [''.dockercfg'' \<mapsto> doc], sec_Labels = Map.empty\<rparr>"

definition example_ident :: DockerConfigEntry where
  "example_ident = \<lparr>dce_Username = ''u'', dce_Password = ''p'', dce_Email = []\<rparr>"

text \<open>
  A decoder for the witnesses: the document \<open>r\<close> holds one entry for the host \<open>r\<close>, any
  other one for \<open>r\<close> and one for \<open>r/a\<close>.
\<close>

definition example_creds :: CredEnv where
  "example_creds =
     \<lparr>env_DockerConfigJSON = (\<lambda>_. Inr []),
      env_DockerConfig = (\<lambda>doc. Inr ((''r'', \<lparr>dca_Username = ''u'', dca_Password = ''p'', dca_Email = [], dca_Auth = []\<rparr>)
        # (if doc = ''r'' then []
           else [(''r/a'', \<lparr>dca_Username = ''v'', dca_Password = ''q'', dca_Email = [], dca_Auth = []\<rparr>)]))),
      env_MapOrder = rev, env_ParseNamed = example_parse\<rparr>"

text \<open>
  C31. The most specific key wins: when both a key and an extension of it apply to an image,
  the credentials filed under the longer key come before those of the shorter one.
\<close>

theorem keyring_most_specific_first:
  assumes "MakeDockerKeyring env secrets = Inr (Some dk)" and "s \<noteq> []"
    and "k \<in> set (index_of dk)" and "k @ s \<in> set (index_of dk)"
    and "URLsMatchStr k img" and "URLsMatchStr (k @ s) img"
  shows "\<exists>pre mid post. fst (Lookup dk img) = pre @ creds_of dk (k @ s) @ mid @ creds_of dk k @ post
           \<and> creds_of dk (k @ s) \<noteq> []"
proof -
  have wf: "wf_keyring dk" using MakeDockerKeyring_wf [OF assms(1)] .
  then have sorted: "sorted_wrt (>) (index_of dk)" and ne: "creds_of dk (k @ s) \<noteq> []"
    using assms(4) by (auto simp: wf_keyring_def index_of_def creds_of_def split: option.splits)
  obtain x y z where i: "index_of dk = x @ (k @ s) # y @ k # z"
    using sorted_pair_split [OF sorted assms(3,4) append_greater [OF assms(2)]] by blast
  let ?c = "\<lambda>xs. concat (map (creds_of dk) (filter (\<lambda>k. URLsMatchStr k img) xs))"
  have "?c (index_of dk) = ?c x @ creds_of dk (k @ s) @ ?c y @ creds_of dk k @ ?c z"
    unfolding i using assms(5,6) by simp
  with ne show ?thesis by (auto simp: Lookup_def Let_def)
qed

theorem keyring_most_specific_first_witness:
  "\<exists>dk pre mid post. MakeDockerKeyring example_creds [example_secret ''x''] = Inr (Some dk)
     \<and> fst (Lookup dk ''r/a/b'') = pre @ creds_of dk (''r'' @ ''/a'') @ mid @ creds_of dk ''r'' @ post
     \<and> creds_of dk (''r'' @ ''/a'') \<noteq> []"
proof -
  have "case MakeDockerKeyring example_creds [example_secret ''x''] of
      Inr (Some dk) \<Rightarrow> List.member (index_of dk) ''r'' \<and> List.member (index_of dk) (''r'' @ ''/a'') | _ \<Rightarrow> False"
    by code_simp
  then obtain dk where dk: "MakeDockerKeyring example_creds [example_secret ''x''] = Inr (Some dk)"
    "''r'' \<in> set (index_of dk)" "''r'' @ ''/a'' \<in> set (index_of dk)"
    by (auto split: sum.splits option.splits)
  have "URLsMatchStr ''r'' ''r/a/b''" "URLsMatchStr (''r'' @ ''/a'') ''r/a/b''" by code_simp+
  with keyring_most_specific_first [OF dk(1) _ dk(2,3)] dk(1) show ?thesis by blast
qed

text \<open>
  C32. No image is offered foreign credentials: every keychain \<open>GetKeychains\<close> returns holds
  the user name and password of an entry of one of the given secrets, filed under a key that
  applies to the image, and it is bound to the image's own repository.
\<close>

theorem keychains_only_covering_entries:
  assumes "range_order (env_MapOrder env)" and "GetKeychains env img secrets = Inr kcs" and "kc \<in> set kcs"
  shows "\<exists>named s cfg loc ident key. env_ParseNamed env img = Inr named \<and> s \<in> set secrets
     \<and> secret_config env s = Some (Inr cfg) \<and> (loc, ident) \<in> set cfg
     \<and> entry_key loc = Some key \<and> covers key (nmd_Name named)
     \<and> kc = AuthConfigKeychain
          \<lparr>an_Username = dce_Username ident, an_Password = dce_Password ident, an_Auth = [],
           an_IdentityToken = [], an_RegistryToken = []\<rparr> (nmd_Name named)"
proof -
  from assms(2,3) obtain named dk where n: "env_ParseNamed env img = Inr named"
    and dk: "MakeDockerKeyring env secrets = Inr (Some dk)"
    and kc: "kc \<in> set (map (keychain_of (nmd_Name named)) (fst (Lookup dk (nmd_Name named))))"
    by (auto simp: GetKeychains_def getKeychainsFromSecrets_def split: sum.splits option.splits)
  from basic.keychain_origin [OF kc] obtain c key where c: "kc = keychain_of (nmd_Name named) c"
    "c \<in> set (creds_of dk key)" "covers key (nmd_Name named)" by blast
  from dk have "secretsToTrackedDockerConfigs env secrets empty_keyring 0 = Inr (Some dk)"
    by (simp add: MakeDockerKeyring_def)
  from secrets_origin [OF assms(1) wf_empty this c(2)] obtain s where s: "s \<in> set secrets" "entry_of env s key c"
    by (auto simp: creds_of_def empty_keyring_def)
  then obtain cfg loc ident where e: "secret_config env s = Some (Inr cfg)" "(loc, ident) \<in> set cfg"
    "entry_key loc = Some key" "c = tracked (Some (secret_coords s)) ident" by (auto simp: entry_of_def)
  from c(1) e(4) have "kc = AuthConfigKeychain
      \<lparr>an_Username = dce_Username ident, an_Password = dce_Password ident, an_Auth = [],
       an_IdentityToken = [], an_RegistryToken = []\<rparr> (nmd_Name named)"
    by (simp add: keychain_of_def tracked_def NewTrackedAuthConfig_def entry_creds_def Let_def)
  with n s(1) e(1-3) c(3) show ?thesis by blast
qed

theorem keychains_only_covering_entries_witness:
  "\<exists>kc named s cfg loc ident key. GetKeychains example_creds ''r/b'' [example_secret ''x''] = Inr [kc]
     \<and> env_ParseNamed example_creds ''r/b'' = Inr named \<and> s \<in> set [example_secret ''x'']
     \<and> secret_config example_creds s = Some (Inr cfg) \<and> (loc, ident) \<in> set cfg
     \<and> entry_key loc = Some key \<and> covers key (nmd_Name named)
     \<and> kc = AuthConfigKeychain
          \<lparr>an_Username = dce_Username ident, an_Password = dce_Password ident, an_Auth = [],
           an_IdentityToken = [], an_RegistryToken = []\<rparr> (nmd_Name named)"
proof -
  have "GetKeychains example_creds ''r/b'' [example_secret ''x''] =
      Inr [AuthConfigKeychain \<lparr>an_Username = ''u'', an_Password = ''p'', an_Auth = [],
        an_IdentityToken = [], an_RegistryToken = []\<rparr> ''r/b'']" (is "_ = Inr [?kc]")
    by code_simp
  moreover have "range_order (env_MapOrder example_creds)" by (simp add: example_creds_def range_order_rev)
  ultimately show ?thesis
    using keychains_only_covering_entries [of example_creds "''r/b''" "[example_secret ''x'']" "[?kc]" ?kc]
    by simp
qed

lemma mset_short_eq: "mset xs = mset ys \<Longrightarrow> length xs \<le> 1 \<Longrightarrow> xs = ys"
proof (cases xs)
  case (Cons x r)
  assume "mset xs = mset ys" and "length xs \<le> 1"
  with Cons have "mset ys = {#x#}" and "xs = [x]" by simp_all
  then show ?thesis by (metis mset_single_iff)
qed simp

lemma creds_for_order:
  assumes "range_order o1" and "range_order o2" and "distinct (entry_keys cfg)"
  shows "creds_for src k (o1 cfg) = creds_for src k (o2 cfg)"
proof -
  let ?P = "\<lambda>(loc, _ :: DockerConfigEntry). entry_key loc = Some k"
  have count: "size (filter_mset ?P (mset cfg)) \<le> 1"
  proof -
    have "size (filter_mset ?P (mset cfg)) = count (mset (entry_keys cfg)) k"
      by (induction cfg) (auto split: option.splits)
    also have "\<dots> \<le> 1" using assms(3) by (simp add: distinct_count_atmost_1)
    finally show ?thesis .
  qed
  have ms: "mset (filter ?P (o1 cfg)) = mset (filter ?P (o2 cfg))"
    using assms(1,2) by (simp add: range_order_def)
  moreover have "length (filter ?P (o1 cfg)) \<le> 1"
    using count assms(1) by (metis mset_filter range_order_def size_mset)
  ultimately have "filter ?P (o1 cfg) = filter ?P (o2 cfg)" by (rule mset_short_eq)
  then show ?thesis by (simp add: creds_for_def)
qed

lemma entry_keys_order: "range_order o1 \<Longrightarrow> set (entry_keys (o1 cfg)) = set (entry_keys cfg)"
  using range_order_set [of o1 cfg] by (auto simp: entry_keys_def List.map_filter_def)

lemma keyring_eqI:
  assumes "wf_keyring a" and "wf_keyring b" and "dk_index a \<noteq> None" and "dk_index b \<noteq> None"
    and "\<And>k. creds_of a k = creds_of b k" and "set (index_of a) = set (index_of b)"
  shows "a = b"
proof -
  from assms obtain i c where a: "a = \<lparr>dk_index = Some i, dk_creds = Some c\<rparr>" "sorted_wrt (>) i"
    "set i = dom c" "\<forall>k. c k \<noteq> Some []"
    by (cases a) (auto simp: wf_keyring_def split: option.splits)
  from assms obtain j d where b: "b = \<lparr>dk_index = Some j, dk_creds = Some d\<rparr>" "sorted_wrt (>) j"
    "set j = dom d" "\<forall>k. d k \<noteq> Some []"
    by (cases b) (auto simp: wf_keyring_def split: option.splits)
  have "rev i = rev j"
    using a(2) b(2) assms(6) by (intro strict_sorted_equal) (auto simp: sorted_wrt_rev index_of_def a(1) b(1))
  moreover have "c k = d k" for k
    using assms(5) [of k] a(4) b(4) by (auto simp: creds_of_def a(1) b(1) split: option.splits)
  ultimately show ?thesis using a(1) b(1) by auto
qed



end
