(* ===== verification/Registry.thy ===== *)
theory Registry
  imports Keyring
begin

text \<open>
  \<open>internal/registry\<close>: the registry client (\<open>Execute\<close> and the operations over it), the
  availability check and the platform selection of a copy. The registry library and the
  network behind it are the record \<open>RegistryEnv\<close> of parameters: what a request gets as an
  answer may depend on every request sent before it. The state threaded through is the
  header capture of the client and the history of requests.
\<close>

section \<open>Errors of the transport\<close>

fun first_some :: "'a option list \<Rightarrow> 'a option" where
  "first_some [] = None"
| "first_some (None # xs) = first_some xs"
| "first_some (Some x # xs) = Some x"

text \<open>\<open>errors.As\<close> walks wrapped and joined errors depth first.\<close>

fun as_transport_error :: "error \<Rightarrow> nat option" where
  "as_transport_error (ETransport code) = Some code"
| "as_transport_error (EWrap msg e) = as_transport_error e"
| "as_transport_error (EJoin es) = first_some (map as_transport_error es)"
| "as_transport_error _ = None"

definition TransportStatusCode :: "error \<Rightarrow> nat" where
  "TransportStatusCode e = (case as_transport_error e of Some code \<Rightarrow> code | None \<Rightarrow> 0)"

definition ErrIsImageNotFound :: "error \<Rightarrow> bool" where
  "ErrIsImageNotFound e \<longleftrightarrow> TransportStatusCode e = 404"

fun is_panic :: "error \<Rightarrow> bool" where
  "is_panic (EPanic msg) = True"
| "is_panic _ = False"

section \<open>Headers\<close>

text \<open>Response headers with lower-case names; \<open>None\<close> is the nil header map.\<close>

type_synonym headers = "(string \<rightharpoonup> string) option"

definition header_Get :: "headers \<Rightarrow> string \<Rightarrow> string" where
  "header_Get h k = (case map_get h k of None \<Rightarrow> [] | Some v \<Rightarrow> v)"

definition IsRateLimited :: "headers \<Rightarrow> bool" where
  "IsRateLimited h = HasPrefix (header_Get h ''ratelimit-remaining'') ''0;''"

section \<open>The client\<close>

text \<open>
  \<open>name.Reference\<close>: \<open>Context().RegistryStr()\<close>, \<open>Context().Name()\<close>, \<open>Name()\<close> and whether
  it is a digest.
\<close>

record Reference =
  rf_RegistryStr :: string
  rf_ContextName :: string
  rf_Name :: string
  rf_IsDigest :: bool

text \<open>The fields of \<open>v1.Platform\<close> the code reads, and a manifest of an image index.\<close>

record Platform =
  pl_OS :: string
  pl_Architecture :: string
  pl_Variant :: string
  pl_OSVersion :: string

record ManifestDesc =
  md_Digest :: string
  md_Platform :: "Platform option"

datatype Verb = VHead | VGet | VDelete | VWrite

text \<open>
  A request as the library sees it: the reference, what is pushed, the keychain, the per-call timeout of
  the client (when positive) and the deadline of the context it inherits.
\<close>

datatype Body = NoBody | IndexBody "ManifestDesc list" | ImageBody string "Platform option"

record Request =
  rq_Verb :: Verb
  rq_Ref :: string
  rq_Keychain :: Keychain
  rq_Timeout :: "int option"
  rq_Envelope :: "int option"
  rq_InsecureSkipVerify :: bool
  rq_Body :: Body

text \<open>
  What comes back: the headers of the last HTTP response of the exchange, if there was one,
  and the digest of the descriptor (\<open>None\<close> is a nil descriptor) or the error.
\<close>

record Response =
  rs_Headers :: "(string \<rightharpoonup> string) option"
  rs_Result :: "string option result"

record RegistryEnv = CredEnv +
  env_ParseReference :: "string \<Rightarrow> Reference result"
  env_Remote :: "Request list \<Rightarrow> Request \<Rightarrow> Response"

record Client =
  cl_insecureRegistries :: "string list"
  cl_timeout :: int
  cl_pullSecrets :: "Secret list"

record NetState =
  ns_lastHeaders :: headers
  ns_sent :: "Request list"

definition NewClient :: "string list \<Rightarrow> Client" where
  "NewClient insecure = \<lparr>cl_insecureRegistries = insecure, cl_timeout = 0, cl_pullSecrets = []\<rparr>"

definition WithTimeout :: "int \<Rightarrow> Client \<Rightarrow> Client" where
  "WithTimeout t c = c\<lparr>cl_timeout := t\<rparr>"

definition WithPullSecrets :: "Secret list \<Rightarrow> Client \<Rightarrow> Client" where
  "WithPullSecrets s c = c\<lparr>cl_pullSecrets := s\<rparr>"

definition context_timeout :: "Client \<Rightarrow> int option" where
  "context_timeout c = (if cl_timeout c > 0 then Some (cl_timeout c) else None)"

text \<open>The TLS part of \<open>newTransportOption\<close>.\<close>

definition skip_verify :: "Client \<Rightarrow> Reference \<Rightarrow> bool" where
  "skip_verify c ref = list_ex (\<lambda>r. r = rf_RegistryStr ref) (cl_insecureRegistries c)"

text \<open>One exchange: the request joins the history, the response headers are captured.\<close>

definition send :: "'z RegistryEnv_scheme \<Rightarrow> Request \<Rightarrow> NetState \<Rightarrow> string option result \<times> NetState" where
  "send env rq st =
     (let rs = env_Remote env (ns_sent st) rq
      in (rs_Result rs,
          st\<lparr>ns_lastHeaders := (case rs_Headers rs of None \<Rightarrow> ns_lastHeaders st | Some h \<Rightarrow> Some h),
             ns_sent := ns_sent st @ [rq]\<rparr>))"

text \<open>
  The loop of \<open>Execute\<close>: the keychains in order until one succeeds; the errors of all of
  them joined when none does. A panic of the action unwinds through it.
\<close>

fun execute_loop ::
  "(Keychain \<Rightarrow> 's \<Rightarrow> 'a result \<times> 's) \<Rightarrow> Keychain list \<Rightarrow> error list \<Rightarrow> 's \<Rightarrow> 'a result \<times> 's" where
  "execute_loop act [] errs st = (Inl (EJoin errs), st)"
| "execute_loop act (k # ks) errs st =
     (case act k st of
        (Inr x, st') \<Rightarrow> (Inr x, st')
      | (Inl e, st') \<Rightarrow>
          if is_panic e then (Inl e, st') else execute_loop act ks (errs @ [e]) st')"

definition Execute ::
  "'z RegistryEnv_scheme \<Rightarrow> Client \<Rightarrow> string \<Rightarrow>
     (Reference \<Rightarrow> Keychain \<Rightarrow> NetState \<Rightarrow> 'a result \<times> NetState) \<Rightarrow> NetState \<Rightarrow> 'a result \<times> NetState"
  where
  "Execute env c imageName action st =
     (case GetKeychains env imageName (cl_pullSecrets c) of
        Inl e \<Rightarrow> (Inl e, st)
      | Inr keychains \<Rightarrow>
          (case env_ParseReference env imageName of
             Inl e \<Rightarrow> (Inl e, st)
           | Inr sourceRef \<Rightarrow>
               execute_loop (action sourceRef)
                 (if length keychains = 0 then [DefaultKeychain] else keychains) [] st))"

definition getReader :: "string \<Rightarrow> Verb result" where
  "getReader httpMethod =
     (if httpMethod = ''GET'' then Inr VGet
      else if httpMethod = ''HEAD'' then Inr VHead
      else Inl (EPanic ''unsupported http method''))"

definition read_action ::
  "'z RegistryEnv_scheme \<Rightarrow> Client \<Rightarrow> int option \<Rightarrow> string \<Rightarrow> string \<Rightarrow> Reference \<Rightarrow> Keychain \<Rightarrow> NetState \<Rightarrow>
     string option result \<times> NetState" where
  "read_action env c envelope httpMethod imageName ref k st =
     (case getReader httpMethod of
        Inl e \<Rightarrow> (Inl e, st)
      | Inr verb \<Rightarrow>
          send env \<lparr>rq_Verb = verb, rq_Ref = imageName, rq_Keychain = k,
            rq_Timeout = context_timeout c, rq_Envelope = envelope,
            rq_InsecureSkipVerify = skip_verify c ref, rq_Body = NoBody\<rparr> st)"

text \<open>\<open>ReadDescriptor\<close> also returns the headers last captured; they are in the state.\<close>

definition ReadDescriptor ::
  "'z RegistryEnv_scheme \<Rightarrow> Client \<Rightarrow> int option \<Rightarrow> string \<Rightarrow> string \<Rightarrow> NetState \<Rightarrow>
     string option result \<times> NetState" where
  "ReadDescriptor env c envelope httpMethod imageName st =
     Execute env c imageName (read_action env c envelope httpMethod imageName) st"

section \<open>Availability\<close>

definition availabilityFromError :: "error \<Rightarrow> ImageAvailabilityStatus \<times> error option" where
  "availabilityFromError e =
     (let code = TransportStatusCode e
      in if code = 429 then (QuotaExceeded, Some (EWrap ''rate limit exceeded'' e))
         else if code = 404 then (NotFound, Some (EWrap ''image not found'' e))
         else if code = 401 \<or> code = 403 then (InvalidAuth, Some (EWrap ''authentication failed'' e))
         else (Unreachable, Some (EWrap ''registry unreachable'' e)))"

definition rate_limited_result :: "ImageAvailabilityStatus \<times> error option" where
  "rate_limited_result = (QuotaExceeded, Some (EMsg ''rate limit exceeded''))"

definition checkDigestPath ::
  "'z RegistryEnv_scheme \<Rightarrow> Client \<Rightarrow> int option \<Rightarrow> string \<Rightarrow> string \<Rightarrow> string option \<Rightarrow> NetState \<Rightarrow>
     (ImageAvailabilityStatus \<times> error option) result \<times> NetState" where
  "checkDigestPath env c envelope httpMethod reference desc st =
     (case env_ParseReference env reference of
        Inl e \<Rightarrow> (Inr (Unreachable, Some (EWrap ''could not parse reference'' e)), st)
      | Inr ref \<Rightarrow>
          if rf_IsDigest ref \<or> desc = None then (Inr (Available, None), st)
          else
            (case ReadDescriptor env c envelope httpMethod
                    (rf_ContextName ref @ ''@'' @ the desc) st of
               (res, st') \<Rightarrow>
                 (case res of
                    Inl e \<Rightarrow>
                      if is_panic e then (Inl e, st')
                      else if IsRateLimited (ns_lastHeaders st') then (Inr rate_limited_result, st')
                      else if TransportStatusCode e = 404
                      then (Inr (NotFound, Some (EWrap ''tag/digest inconsistency'' e)), st')
                      else if (TransportStatusCode e = 405 \<or> TransportStatusCode e = 501)
                              \<and> httpMethod = ''HEAD''
                      then (Inr (Available, None), st')
                      else (Inr (availabilityFromError e), st')
                  | Inr _ \<Rightarrow>
                      if IsRateLimited (ns_lastHeaders st') then (Inr rate_limited_result, st')
                      else (Inr (Available, None), st'))))"

text \<open>
  \<open>CheckImageAvailability\<close> makes a client of its own, so it starts with no captured
  header. \<open>Inl\<close> is the panic on an unsupported method.
\<close>

definition CheckImageAvailability ::
  "'z RegistryEnv_scheme \<Rightarrow> string \<Rightarrow> string \<Rightarrow> int \<Rightarrow> Secret list \<Rightarrow> bool \<Rightarrow> Request list \<Rightarrow>
     (ImageAvailabilityStatus \<times> error option) result \<times> NetState" where
  "CheckImageAvailability env reference httpMethod timeout pullSecrets resolveDigest sent =
     (let shared = resolveDigest \<and> timeout > 0;
          envelope = (if shared then Some timeout else None);
          c = WithPullSecrets pullSecrets (WithTimeout (if shared then 0 else timeout) (NewClient []));
          st = \<lparr>ns_lastHeaders = None, ns_sent = sent\<rparr>
      in (case ReadDescriptor env c envelope httpMethod reference st of
            (res, st') \<Rightarrow>
              (case res of
                 Inl e \<Rightarrow>
                   if is_panic e then (Inl e, st')
                   else if IsRateLimited (ns_lastHeaders st') then (Inr rate_limited_result, st')
                   else (Inr (availabilityFromError e), st')
               | Inr desc \<Rightarrow>
                   if IsRateLimited (ns_lastHeaders st') then (Inr rate_limited_result, st')
                   else if resolveDigest
                   then checkDigestPath env c envelope httpMethod reference desc st'
                   else (Inr (Available, None), st'))))"

section \<open>The retry loop over the keychains\<close>

text \<open>
  All of \<open>ks\<close> failing in order, without a panic: the errors collected and the state left.
\<close>

fun fail_through ::
  "(Keychain \<Rightarrow> 's \<Rightarrow> 'a result \<times> 's) \<Rightarrow> Keychain list \<Rightarrow> 's \<Rightarrow> (error list \<times> 's) option" where
  "fail_through act [] st = Some ([], st)"
| "fail_through act (k # ks) st =
     (case act k st of
        (Inr x, st') \<Rightarrow> None
      | (Inl e, st') \<Rightarrow>
          if is_panic e then None
          else map_option (\<lambda>(es, st''). (e # es, st'')) (fail_through act ks st'))"

lemma execute_loop_append:
  "fail_through act pre st = Some (es, st1) \<Longrightarrow>
     execute_loop act (pre @ ks) errs st = execute_loop act ks (errs @ es) st1"
  by (induction pre arbitrary: st errs es)
    (auto split: prod.splits sum.splits if_splits)

lemma execute_loop_success_iff:
  "execute_loop act ks errs st = (Inr x, st') \<longleftrightarrow>
     (\<exists>pre k post es st1. ks = pre @ k # post \<and> fail_through act pre st = Some (es, st1)
        \<and> act k st1 = (Inr x, st'))" (is "?L \<longleftrightarrow> ?R")
proof
  assume ?R
  then show ?L by (auto simp: execute_loop_append)
next
  show "?L \<Longrightarrow> ?R"
  proof (induction ks arbitrary: errs st)
    case Nil
    then show ?case by simp
  next
    case (Cons k ks)
    show ?case
    proof (cases "fst (act k st)")
      case (Inr y)
      with Cons.prems have "k # ks = [] @ k # ks \<and> fail_through act [] st = Some ([], st)
          \<and> act k st = (Inr x, st')" by (cases "act k st") auto
      then show ?thesis by blast
    next
      case (Inl e)
      then obtain s1 where s1: "act k st = (Inl e, s1)" by (cases "act k st") auto
      with Cons.prems have np: "\<not> is_panic e"
        and rec: "execute_loop act ks (errs @ [e]) s1 = (Inr x, st')" by (auto split: if_splits)
      from Cons.IH [OF rec] obtain pre k' post es st1 where "ks = pre @ k' # post"
        and "fail_through act pre s1 = Some (es, st1)" and "act k' st1 = (Inr x, st')" by blast
      with s1 np have "k # ks = (k # pre) @ k' # post \<and> fail_through act (k # pre) st = Some (e # es, st1)
          \<and> act k' st1 = (Inr x, st')" by simp
      then show ?thesis by blast
    qed
  qed
qed

lemma execute_loop_all_fail:
  "fail_through act ks st = Some (es, st') \<Longrightarrow> execute_loop act ks errs st = (Inl (EJoin (errs @ es)), st')"
  using execute_loop_append [of act ks st es st' "[]" errs] by simp

text \<open>What one read leaves in the history.\<close>

definition reads_of :: "Client \<Rightarrow> int option \<Rightarrow> string \<Rightarrow> bool \<Rightarrow> Request list \<Rightarrow> bool" where
  "reads_of c envelope img skip rs \<longleftrightarrow>
     list_all (\<lambda>r. rq_Ref r = img \<and> rq_Timeout r = context_timeout c \<and> rq_Envelope r = envelope
        \<and> rq_InsecureSkipVerify r = skip \<and> (rq_Verb r = VHead \<or> rq_Verb r = VGet)) rs"

lemma reads_of_simps [simp]:
  "reads_of c envl img skip []"
  "reads_of c envl img skip (rs @ rs') = (reads_of c envl img skip rs \<and> reads_of c envl img skip rs')"
  by (simp_all add: reads_of_def)

lemma read_action_sent:
  "\<exists>rs. ns_sent (snd (read_action env c envl m img ref k st)) = ns_sent st @ rs
        \<and> length rs \<le> 1 \<and> reads_of c envl img (skip_verify c ref) rs"
  by (cases "getReader m")
    (auto simp: read_action_def send_def Let_def reads_of_def getReader_def split: if_splits)

lemma read_loop_sent:
  "\<exists>rs. ns_sent (snd (execute_loop (read_action env c envl m img ref) ks errs st)) = ns_sent st @ rs
        \<and> length rs \<le> length ks \<and> reads_of c envl img (skip_verify c ref) rs"
proof (induction ks arbitrary: errs st)
  case Nil
  then show ?case by simp
next
  case (Cons k ks)
  let ?act = "read_action env c envl m img ref"
  obtain r0 where r0: "ns_sent (snd (?act k st)) = ns_sent st @ r0" "length r0 \<le> 1"
      "reads_of c envl img (skip_verify c ref) r0" using read_action_sent by blast
  show ?case
  proof (cases "?act k st")
    case (Pair res s1)
    show ?thesis
    proof (cases "\<exists>e. res = Inl e \<and> \<not> is_panic e")
      case False
      then have "snd (execute_loop ?act (k # ks) errs st) = s1"
        using Pair by (auto split: sum.splits)
      with r0 Pair show ?thesis by (intro exI [of _ r0]) simp
    next
      case True
      then obtain e where e: "res = Inl e" "\<not> is_panic e" by blast
      obtain rs where rs: "ns_sent (snd (execute_loop ?act ks (errs @ [e]) s1)) = ns_sent s1 @ rs"
        "length rs \<le> length ks" "reads_of c envl img (skip_verify c ref) rs" using Cons.IH by blast
      with r0 Pair e show ?thesis by (intro exI [of _ "r0 @ rs"]) simp
    qed
  qed
qed

definition attempts :: "'z RegistryEnv_scheme \<Rightarrow> string \<Rightarrow> Secret list \<Rightarrow> nat" where
  "attempts env img secrets =
     (case GetKeychains env img secrets of Inl _ \<Rightarrow> 0 | Inr ks \<Rightarrow> max 1 (length ks))"

definition insecure :: "'z RegistryEnv_scheme \<Rightarrow> Client \<Rightarrow> string \<Rightarrow> bool" where
  "insecure env c img =
     (case env_ParseReference env img of Inl _ \<Rightarrow> False | Inr ref \<Rightarrow> skip_verify c ref)"

lemma ReadDescriptor_sent:
  "\<exists>rs. ns_sent (snd (ReadDescriptor env c envl m img st)) = ns_sent st @ rs
        \<and> length rs \<le> attempts env img (cl_pullSecrets c) \<and> reads_of c envl img (insecure env c img) rs"
proof (cases "GetKeychains env img (cl_pullSecrets c)")
  case (Inl e)
  then show ?thesis by (simp add: ReadDescriptor_def Execute_def attempts_def)
next
  case (Inr ks)
  let ?ks = "if length ks = 0 then [DefaultKeychain] else ks"
  have len: "length ?ks = max 1 (length ks)" by (cases ks) auto
  show ?thesis
  proof (cases "env_ParseReference env img")
    case (Inl e)
    with Inr show ?thesis by (simp add: ReadDescriptor_def Execute_def attempts_def)
  next
    case p: (Inr ref)
    obtain rs where "ns_sent (snd (execute_loop (read_action env c envl m img ref) ?ks [] st))
        = ns_sent st @ rs" "length rs \<le> length ?ks" "reads_of c envl img (skip_verify c ref) rs"
      using read_loop_sent by blast
    with Inr p len show ?thesis
      by (intro exI [of _ rs]) (simp add: ReadDescriptor_def Execute_def attempts_def insecure_def)
  qed
qed

section \<open>Properties of the availability check\<close>

lemma availabilityFromError_cases:
  "availabilityFromError e =
     (if TransportStatusCode e = 429 then QuotaExceeded
      else if TransportStatusCode e = 404 then NotFound
      else if TransportStatusCode e = 401 \<or> TransportStatusCode e = 403 then InvalidAuth
      else Unreachable, snd (availabilityFromError e))"
  "snd (availabilityFromError e) \<noteq> None"
  by (auto simp: availabilityFromError_def Let_def)

text \<open>The statuses a check may report, each with the nil-ness of its error.\<close>

definition check_result :: "ImageAvailabilityStatus \<times> error option \<Rightarrow> bool" where
  "check_result r \<longleftrightarrow>
     (case r of (s, e) \<Rightarrow>
        s = Available \<and> e = None \<or>
        s \<in> {NotFound, Unreachable, InvalidAuth, QuotaExceeded} \<and> e \<noteq> None)"

lemma check_result_intros [simp]:
  "check_result (Available, None)" "check_result rate_limited_result"
  "check_result (availabilityFromError e)" "check_result (NotFound, Some e)"
  "check_result (Unreachable, Some e)"
  by (auto simp: check_result_def rate_limited_result_def availabilityFromError_def Let_def)

lemma checkDigestPath_result:
  "fst (checkDigestPath env c envl m ref desc st) = Inr r \<Longrightarrow> check_result r"
  by (auto simp: checkDigestPath_def split: sum.splits if_splits prod.splits)

lemma CheckImageAvailability_result:
  "fst (CheckImageAvailability env ref m t s rd sent) = Inr r \<Longrightarrow> check_result r"
  by (auto simp: CheckImageAvailability_def Let_def split: sum.splits if_splits prod.splits
      dest: checkDigestPath_result)

text \<open>
  The error of an availability check is nil exactly when the image is available, and
  the status is one of the five a check can report (never \<open>Scheduled\<close> nor
  \<open>UnavailableSecret\<close>, which only the controller writes).
\<close>

theorem availability_error_iff:
  assumes "fst (CheckImageAvailability env ref m t s rd sent) = Inr (status, err)"
  shows "(err = None) = (status = Available)
         \<and> status \<in> {Available, NotFound, Unreachable, InvalidAuth, QuotaExceeded}"
  using CheckImageAvailability_result [OF assms] by (auto simp: check_result_def)

definition example_ref :: "string \<Rightarrow> Reference" where
  "example_ref s = \<lparr>rf_RegistryStr = fst (cut_at CHR ''/'' s), rf_ContextName = s, rf_Name = s, rf_IsDigest = CHR ''@'' \<in> set s\<rparr>"

text \<open>A registry that answers tags as given and digests with status \<open>code\<close>, or fine for 0.\<close>

definition example_env :: "string option result \<Rightarrow> nat \<Rightarrow> RegistryEnv" where
  "example_env tag code =
     \<lparr>env_DockerConfigJSON = (\<lambda>_. Inr []), env_DockerConfig = (\<lambda>_. Inr []), env_MapOrder = rev,
      env_ParseNamed = example_parse,
      env_ParseReference = (\<lambda>s. Inr (example_ref s)),
      env_Remote = (\<lambda>_ rq. \<lparr>rs_Headers = Some Map.empty,
        rs_Result = (if CHR ''@'' \<in> set (rq_Ref rq)
                     then (if code = 0 then Inr (Some ''d'') else Inl (ETransport code))
                     else tag)\<rparr>)\<rparr>"

lemma example_env_fields [simp]:
  "env_ParseNamed (example_env tag code) = example_parse"
  "env_ParseReference (example_env tag code) = (\<lambda>s. Inr (example_ref s))"
  "env_Remote (example_env tag code) h rq = \<lparr>rs_Headers = Some Map.empty,
     rs_Result = (if CHR ''@'' \<in> set (rq_Ref rq)
                  then (if code = 0 then Inr (Some ''d'') else Inl (ETransport code)) else tag)\<rparr>"
  by (simp_all add: example_env_def)

lemma example_env_keychains [simp]:
  "img \<noteq> [] \<Longrightarrow> GetKeychains (example_env tag code) img [] = Inr []"
  by (simp add: GetKeychains_def getKeychainsFromSecrets_def MakeDockerKeyring_def example_parse_def Let_def)

lemmas check_simps = CheckImageAvailability_def Let_def ReadDescriptor_def Execute_def read_action_def
  getReader_def send_def WithPullSecrets_def WithTimeout_def NewClient_def IsRateLimited_def
  header_Get_def HasPrefix_def checkDigestPath_def example_ref_def skip_verify_def
  as_transport_error.simps context_timeout_def

theorem availability_error_iff_witness:
  "\<exists>err. fst (CheckImageAvailability (example_env (Inl (ETransport 404)) 0) ''r/a'' ''HEAD'' 0 [] False [])
           = Inr (NotFound, err) \<and> err \<noteq> None"
proof -
  let ?r = "fst (CheckImageAvailability (example_env (Inl (ETransport 404)) 0) ''r/a'' ''HEAD'' 0 [] False [])"
  have "\<exists>err. ?r = Inr (NotFound, err)"
    by (simp add: check_simps availabilityFromError_def TransportStatusCode_def)
  then obtain err where r: "?r = Inr (NotFound, err)" by blast
  from availability_error_iff [OF r] have "err \<noteq> None" by simp
  with r show ?thesis by blast
qed

text \<open>
  Without the digest check and with at most one keychain, the status is the
  documented function of the single answer: rate-limit headers and status 429 mean
  \<open>QuotaExceeded\<close>, 404 \<open>NotFound\<close>, 401 and 403 \<open>InvalidAuth\<close>, any other failure
  \<open>Unreachable\<close>, success \<open>Available\<close>.
\<close>

theorem availability_classification:
  assumes "GetKeychains env img secrets = Inr ks" and "length ks \<le> 1"
    and "env_ParseReference env img = Inr ref" and "httpMethod = ''HEAD'' \<or> httpMethod = ''GET''"
    and "rq = \<lparr>rq_Verb = (if httpMethod = ''HEAD'' then VHead else VGet), rq_Ref = img,
           rq_Keychain = (case ks of [] \<Rightarrow> DefaultKeychain | k # _ \<Rightarrow> k),
           rq_Timeout = (if timeout > 0 then Some timeout else None), rq_Envelope = None, rq_InsecureSkipVerify = False, rq_Body = NoBody\<rparr>"
    and "answer = env_Remote env sent rq" and "\<forall>msg. rs_Result answer \<noteq> Inl (EPanic msg)"
  shows "\<exists>err. fst (CheckImageAvailability env img httpMethod timeout secrets False sent) =
     Inr (if IsRateLimited (rs_Headers answer) then QuotaExceeded
          else case rs_Result answer of
                 Inr _ \<Rightarrow> Available
               | Inl e \<Rightarrow>
                   if TransportStatusCode e = 429 then QuotaExceeded
                   else if TransportStatusCode e = 404 then NotFound
                   else if TransportStatusCode e \<in> {401, 403} then InvalidAuth
                   else Unreachable, err)"
proof -
  let ?c = "WithPullSecrets secrets (WithTimeout timeout (NewClient []))"
  let ?st = "\<lparr>ns_lastHeaders = None, ns_sent = sent\<rparr>"
  let ?k = "case ks of [] \<Rightarrow> DefaultKeychain | k # _ \<Rightarrow> k"
  have ks: "(if length ks = 0 then [DefaultKeychain] else ks) = [?k]"
    using assms(2) by (cases ks) auto
  have c: "cl_pullSecrets ?c = secrets" "context_timeout ?c = (if timeout > 0 then Some timeout else None)"
    "skip_verify ?c ref = False"
    by (simp_all add: skip_verify_def WithPullSecrets_def WithTimeout_def NewClient_def context_timeout_def)
  have verb: "getReader httpMethod = Inr (if httpMethod = ''HEAD'' then VHead else VGet)"
    using assms(4) by (auto simp: getReader_def)
  have act: "\<exists>s'. read_action env ?c None httpMethod img ref ?k ?st = (rs_Result answer, s')
      \<and> ns_lastHeaders s' = rs_Headers answer"
    unfolding read_action_def verb send_def c assms(6) assms(5)
    by (auto simp: Let_def split: option.splits)
  then obtain s' where s': "read_action env ?c None httpMethod img ref ?k ?st = (rs_Result answer, s')"
    "ns_lastHeaders s' = rs_Headers answer" by blast
  have np: "\<not> is_panic e" if "rs_Result answer = Inl e" for e
    using assms(7) that by (cases e) auto
  have read: "ReadDescriptor env ?c None httpMethod img ?st
      = (case rs_Result answer of Inl e \<Rightarrow> Inl (EJoin [e]) | Inr x \<Rightarrow> Inr x, s')"
    unfolding ReadDescriptor_def Execute_def c(1) assms(1) assms(3) sum.case ks
    using s' np by (auto split: sum.splits)
  have code: "TransportStatusCode (EJoin [e]) = TransportStatusCode e" for e
    by (simp add: TransportStatusCode_def split: option.splits)
  show ?thesis
    using s'(2) by (cases "rs_Result answer")
      (auto simp: CheckImageAvailability_def Let_def read code rate_limited_result_def availabilityFromError_def)
qed

theorem availability_classification_witness:
  "\<exists>err. fst (CheckImageAvailability (example_env (Inl (ETransport 403)) 0) ''r/a'' ''HEAD'' 0 [] False [])
           = Inr (InvalidAuth, err)"
  using availability_classification [of "example_env (Inl (ETransport 403)) 0" "''r/a''" "[]" "[]"
      "example_ref ''r/a''" "''HEAD''" _ 0 _ "[]"]
  by (simp add: IsRateLimited_def header_Get_def HasPrefix_def TransportStatusCode_def)

text \<open>The client, the shared deadline and the start of a check.\<close>

definition check_client :: "int \<Rightarrow> Secret list \<Rightarrow> bool \<Rightarrow> Client" where
  "check_client timeout secrets resolveDigest =
     WithPullSecrets secrets (WithTimeout (if resolveDigest \<and> timeout > 0 then 0 else timeout) (NewClient []))"

definition check_envelope :: "int \<Rightarrow> bool \<Rightarrow> int option" where
  "check_envelope timeout resolveDigest = (if resolveDigest \<and> timeout > 0 then Some timeout else None)"

lemmas check_folds = check_client_def [symmetric] check_envelope_def [symmetric]

lemma CheckImageAvailability_run:
  assumes "ReadDescriptor env (check_client t secrets rd) (check_envelope t rd) m img
             \<lparr>ns_lastHeaders = None, ns_sent = sent\<rparr> = (res, s1)"
  shows "CheckImageAvailability env img m t secrets rd sent =
      (case res of
         Inl e \<Rightarrow> (if is_panic e then Inl e
                   else if IsRateLimited (ns_lastHeaders s1) then Inr rate_limited_result
                   else Inr (availabilityFromError e), s1)
       | Inr desc \<Rightarrow>
           if IsRateLimited (ns_lastHeaders s1) then (Inr rate_limited_result, s1)
           else if rd then checkDigestPath env (check_client t secrets rd) (check_envelope t rd) m img desc s1
           else (Inr (Available, None), s1))"
  unfolding CheckImageAvailability_def Let_def check_folds assms by (simp split: sum.splits)

lemma checkDigestPath_sent:
  "\<exists>rs dref. ns_sent (snd (checkDigestPath env c envl m img desc st)) = ns_sent st @ rs
     \<and> length rs \<le> attempts env dref (cl_pullSecrets c) \<and> reads_of c envl dref (insecure env c dref) rs"
proof (cases "\<exists>ref d. env_ParseReference env img = Inr ref \<and> \<not> rf_IsDigest ref \<and> desc = Some d")
  case True
  then obtain ref d where p: "env_ParseReference env img = Inr ref" "\<not> rf_IsDigest ref" "desc = Some d" by blast
  let ?d = "rf_ContextName ref @ ''@'' @ d"
  have "snd (checkDigestPath env c envl m img desc st) = snd (ReadDescriptor env c envl m ?d st)"
    using p by (auto simp: checkDigestPath_def split: prod.splits sum.splits)
  with ReadDescriptor_sent [of env c envl m ?d st] show ?thesis by (metis append.assoc)
next
  case False
  then have "snd (checkDigestPath env c envl m img desc st) = st"
    by (auto simp: checkDigestPath_def split: sum.splits)
  then show ?thesis by (intro exI [of _ "[]"]) simp
qed

lemma check_fields:
  "cl_pullSecrets (check_client t s rd) = s"
  "context_timeout (check_client t s rd) = (if rd \<or> t \<le> 0 then None else Some t)"
  "insecure env (check_client t s rd) img = False"
  by (auto simp: check_client_def WithPullSecrets_def WithTimeout_def NewClient_def context_timeout_def
      insecure_def skip_verify_def split: sum.splits)

text \<open>
  A check costs at most one request per credential, and with \<open>resolveDigest\<close> at most
  as many again for the digest; every request verifies TLS, and its deadline is the timeout
  for each request or, with \<open>resolveDigest\<close>, the one envelope shared by both reads.
\<close>

theorem check_request_bound:
  "\<exists>rs dref. ns_sent (snd (CheckImageAvailability env img m t secrets rd sent)) = sent @ rs
     \<and> length rs \<le> attempts env img secrets + (if rd then attempts env dref secrets else 0)
     \<and> list_all (\<lambda>r. rq_Ref r \<in> {img, dref} \<and> \<not> rq_InsecureSkipVerify r
          \<and> rq_Timeout r = (if rd \<or> t \<le> 0 then None else Some t)
          \<and> rq_Envelope r = (if rd \<and> t > 0 then Some t else None)) rs"
proof -
  let ?c = "check_client t secrets rd" and ?e = "check_envelope t rd"
  let ?st = "\<lparr>ns_lastHeaders = None, ns_sent = sent\<rparr>"
  let ?goal = "\<lambda>dref. list_all (\<lambda>r. rq_Ref r \<in> {img, dref} \<and> \<not> rq_InsecureSkipVerify r
          \<and> rq_Timeout r = (if rd \<or> t \<le> 0 then None else Some t)
          \<and> rq_Envelope r = (if rd \<and> t > 0 then Some t else None))"
  have ok: "?goal y rs" if "reads_of ?c ?e x False rs" "x \<in> {img, y}" for rs x y
    using that unfolding reads_of_def check_fields check_envelope_def by (auto simp: list_all_iff)
  obtain res s1 where rd1: "ReadDescriptor env ?c ?e m img ?st = (res, s1)" by fastforce
  with ReadDescriptor_sent [of env ?c ?e m img ?st] obtain r1 where
    r1: "ns_sent s1 = sent @ r1" "length r1 \<le> attempts env img secrets" "reads_of ?c ?e img False r1"
    by (auto simp: check_fields)
  note run = CheckImageAvailability_run [OF rd1]
  show ?thesis
  proof (cases "rd \<and> (\<exists>desc. res = Inr desc \<and> \<not> IsRateLimited (ns_lastHeaders s1))")
    case True
    then obtain desc where d: "res = Inr desc" "\<not> IsRateLimited (ns_lastHeaders s1)" "rd" by blast
    obtain r2 dref where r2: "ns_sent (snd (checkDigestPath env ?c ?e m img desc s1)) = ns_sent s1 @ r2"
      "length r2 \<le> attempts env dref secrets" "reads_of ?c ?e dref False r2"
      using checkDigestPath_sent [of env ?c ?e m img desc s1] by (auto simp: check_fields)
    have "snd (CheckImageAvailability env img m t secrets rd sent)
        = snd (checkDigestPath env ?c ?e m img desc s1)" unfolding run using d by simp
    then show ?thesis
      using r1 r2 d(3) ok [of img r1 dref] ok [of dref r2 dref]
      by (intro exI [of _ "r1 @ r2"] exI [of _ dref]) (simp add: list_all_append)
  next
    case False
    then have "snd (CheckImageAvailability env img m t secrets rd sent) = s1"
      unfolding run by (auto split: sum.splits)
    then show ?thesis using r1 ok [of img r1 img] by (intro exI [of _ r1] exI [of _ img]) simp
  qed
qed



text \<open>
  \<open>Execute\<close> succeeds exactly when some keychain works, and with the first that does: the
  ones before it were all tried, in order, and failed; none after it is tried.
\<close>

theorem execute_first_working_keychain:
  "Execute env c img action st = (Inr x, st') \<longleftrightarrow>
     (\<exists>kcs ref pre k post es st1. GetKeychains env img (cl_pullSecrets c) = Inr kcs
        \<and> env_ParseReference env img = Inr ref
        \<and> (if kcs = [] then [DefaultKeychain] else kcs) = pre @ k # post
        \<and> fail_through (action ref) pre st = Some (es, st1) \<and> action ref k st1 = (Inr x, st'))"
proof (cases "GetKeychains env img (cl_pullSecrets c)")
  case (Inl e)
  then show ?thesis by (simp add: Execute_def)
next
  case (Inr kcs)
  note k = this
  show ?thesis
  proof (cases "env_ParseReference env img")
    case (Inl e)
    with k show ?thesis by (simp add: Execute_def)
  next
    case (Inr ref)
    show ?thesis
      unfolding Execute_def k Inr sum.case execute_loop_success_iff length_0_conv sum.inject by simp
  qed
qed

end
