(* ===== verification/Config.thy ===== *)
theory Config
  imports Complex_Main Registry
begin

text \<open>
  \<open>internal/config\<close>: the configuration record, its defaults and its validation. Loading it
  is in \<open>Startup\<close>. A \<open>float64\<close> is an
  optional rational: \<open>None\<close> is NaN, with which every comparison is false.
\<close>

section \<open>Data\<close>

type_synonym go_float = "rat option"

definition flt_le :: "go_float \<Rightarrow> go_float \<Rightarrow> bool" where
  "flt_le x y = (case (x, y) of (Some a, Some b) \<Rightarrow> a \<le> b | _ \<Rightarrow> False)"

record StaleMirrorCleanup =
  smc_MaxConcurrent :: int
  smc_Timeout :: int

record ActiveCheck =
  act_Timeout :: int
  act_ResolveDigest :: bool
  act_StaleMirrorCleanup :: StaleMirrorCleanup

record Routing =
  rt_ActiveCheck :: ActiveCheck
  rt_RewriteOnNeverImagePullPolicy :: bool
  rt_HonorPrioritiesOnAlwaysImagePullPolicy :: bool

record ConfigPlatform =
  cp_OS :: string
  cp_Architecture :: string
  cp_Variant :: string

record RegistryMonitoring =
  rm_Method :: string
  rm_Interval :: int
  rm_MaxPerInterval :: int
  rm_Timeout :: int
  rm_ResolveDigest :: "bool option"
  rm_FallbackCredentialSecret :: "CredentialSecret option"

record LegacyHistogramConfig =
  lh_BucketType :: string
  lh_Count :: int
  lh_Start :: go_float
  lh_Factor :: go_float
  lh_Min :: go_float
  lh_Max :: go_float
  lh_Custom :: "go_float list"

record HistogramConfig =
  hc_BucketFactor :: go_float
  hc_ZeroThreshold :: go_float
  hc_MaxBucketNumber :: "32 word"
  hc_Legacy :: LegacyHistogramConfig

record Config =
  cfg_SkipLabels :: "string list"
  cfg_SkipAnnotations :: "string list"
  cfg_Routing :: Routing
  cfg_Platforms :: "ConfigPlatform list"
  cfg_Default :: RegistryMonitoring
  cfg_Items :: "string \<rightharpoonup> RegistryMonitoring"
  cfg_ImageLastMonitorAgeMinutes :: HistogramConfig

definition ResolveDigestEnabled :: "RegistryMonitoring \<Rightarrow> bool" where
  "ResolveDigestEnabled r = (rm_ResolveDigest r \<noteq> None \<and> the (rm_ResolveDigest r))"

definition minute :: int where "minute = 60 * second"

definition defaultConfig :: Config where
  "defaultConfig =
     \<lparr>cfg_SkipLabels = [], cfg_SkipAnnotations = [],
      cfg_Routing =
        \<lparr>rt_ActiveCheck = \<lparr>act_Timeout = second, act_ResolveDigest = False,
           act_StaleMirrorCleanup = \<lparr>smc_MaxConcurrent = 10, smc_Timeout = 5 * second\<rparr>\<rparr>,
         rt_RewriteOnNeverImagePullPolicy = False,
         rt_HonorPrioritiesOnAlwaysImagePullPolicy = False\<rparr>,
      cfg_Platforms = [\<lparr>cp_OS = [], cp_Architecture = ''amd64'', cp_Variant = []\<rparr>],
      cfg_Default =
        \<lparr>rm_Method = ''HEAD'', rm_Interval = 3 * hour, rm_MaxPerInterval = 25, rm_Timeout = 0,
         rm_ResolveDigest = None, rm_FallbackCredentialSecret = None\<rparr>,
      cfg_Items = [''docker.io'' \<mapsto>
        \<lparr>rm_Method = [], rm_Interval = hour, rm_MaxPerInterval = 6, rm_Timeout = 0,
         rm_ResolveDigest = None, rm_FallbackCredentialSecret = None\<rparr>],
      cfg_ImageLastMonitorAgeMinutes =
        \<lparr>hc_BucketFactor = Some (11 / 10), hc_ZeroThreshold = Some 1, hc_MaxBucketNumber = 20,
         hc_Legacy =
           \<lparr>lh_BucketType = [], lh_Count = 12, lh_Start = Some 1, lh_Factor = Some (194 / 100),
            lh_Min = Some 1, lh_Max = Some (24 * 60),
            lh_Custom = map Some [1, 5, 10, 30, 60, 120, 180, 360, 720, 1440]\<rparr>\<rparr>\<rparr>"

text \<open>
  The validator library checks the two tags the structs carry: \<open>min=1\<close> on the platforms
  and \<open>required\<close> on each architecture.
\<close>

definition Config_Validate :: "Config \<Rightarrow> unit result" where
  "Config_Validate c =
     (if length (cfg_Platforms c) < 1 then Inl (EMsg ''Platforms: min'')
      else if list_ex (\<lambda>p. cp_Architecture p = []) (cfg_Platforms c)
      then Inl (EMsg ''Architecture: required'')
      else Inr ())"

section \<open>Histogram buckets\<close>

text \<open>The two bucket generators of the metrics library, which may panic, are parameters.\<close>

type_synonym bucket_generator = "go_float \<Rightarrow> go_float \<Rightarrow> int \<Rightarrow> go_float list result"

definition Legacy_Buckets ::
  "bucket_generator \<Rightarrow> bucket_generator \<Rightarrow> LegacyHistogramConfig \<Rightarrow> go_float list result" where
  "Legacy_Buckets ExponentialBuckets ExponentialBucketsRange c =
     (if lh_BucketType c \<in> {[], ''exponential''} then ExponentialBuckets (lh_Start c) (lh_Factor c) (lh_Count c)
      else if lh_BucketType c = ''exponentialRange''
      then ExponentialBucketsRange (lh_Min c) (lh_Max c) (lh_Count c)
      else if lh_BucketType c = ''custom'' then Inr (lh_Custom c)
      else Inr [])"

definition Legacy_Enabled :: "LegacyHistogramConfig \<Rightarrow> bool" where
  "Legacy_Enabled c \<longleftrightarrow> lh_BucketType c \<noteq> ''disabled''"

fun custom_sorted :: "go_float \<Rightarrow> go_float list \<Rightarrow> bool" where
  "custom_sorted prev [] = True"
| "custom_sorted prev (x # xs) = (\<not> flt_le x prev \<and> custom_sorted x xs)"

definition Legacy_Validate :: "LegacyHistogramConfig \<Rightarrow> unit result" where
  "Legacy_Validate c =
     (if lh_BucketType c = ''disabled'' then Inr ()
      else if lh_BucketType c \<in> {[], ''exponential''} then
        (if flt_le (lh_Start c) (Some 0) then Inl (EMsg ''legacy.start must be positive'')
         else if flt_le (lh_Factor c) (Some 1) then Inl (EMsg ''legacy.factor must be greater than 1'')
         else if lh_Count c < 1 then Inl (EMsg ''legacy.count must be at least 1'')
         else Inr ())
      else if lh_BucketType c = ''exponentialRange'' then
        (if flt_le (lh_Min c) (Some 0) then Inl (EMsg ''legacy.min must be positive'')
         else if flt_le (lh_Max c) (lh_Min c) then Inl (EMsg ''legacy.max must be greater than legacy.min'')
         else if lh_Count c < 1 then Inl (EMsg ''legacy.count must be at least 1'')
         else Inr ())
      else if lh_BucketType c = ''custom'' then
        (case lh_Custom c of
           [] \<Rightarrow> Inl (EMsg ''legacy.custom must contain at least one bucket boundary'')
         | x # xs \<Rightarrow>
             if custom_sorted x xs then Inr ()
             else Inl (EMsg ''legacy.custom must be sorted in ascending order''))
      else Inl (EMsg ''legacy.bucketType''))"

lemma custom_sorted_iff:
  "None \<notin> set (x # xs) \<Longrightarrow> custom_sorted x xs \<longleftrightarrow> sorted_wrt (<) (map the (x # xs))"
proof (induction xs arbitrary: x)
  case Nil
  then show ?case by simp
next
  case (Cons y ys)
  then obtain a b where "x = Some a" "y = Some b" by (cases x; cases y) auto
  with Cons show ?case by (auto simp: flt_le_def intro: less_trans)
qed

text \<open>
  A histogram configuration that validates gives usable buckets: custom boundaries are
  at least one and strictly increasing, and exponential ones are asked of the metrics library
  only with arguments it accepts (a positive start, a factor above one, a positive count).
\<close>

theorem validated_buckets_usable:
  assumes "Legacy_Validate c = Inr ()" and "list_all (\<lambda>x. x \<noteq> None) (lh_Custom c)"
    and "lh_Start c = Some start" and "lh_Factor c = Some factor"
  shows "lh_BucketType c = ''disabled''
     \<or> lh_BucketType c \<in> {[], ''exponential''} \<and> 0 < start \<and> 1 < factor \<and> 1 \<le> lh_Count c
     \<or> lh_BucketType c = ''exponentialRange'' \<and> 1 \<le> lh_Count c
     \<or> lh_BucketType c = ''custom'' \<and> (\<exists>bs. Legacy_Buckets eb ebr c = Inr bs \<and> bs \<noteq> []
         \<and> sorted_wrt (<) (map the bs))"
proof (cases "lh_BucketType c = ''custom''")
  case True
  with assms(1) obtain x xs where xs: "lh_Custom c = x # xs" "custom_sorted x xs"
    by (auto simp: Legacy_Validate_def split: list.splits if_splits)
  moreover have "None \<notin> set (x # xs)" using assms(2) xs(1) by (auto simp: list_all_iff)
  ultimately have "sorted_wrt (<) (map the (lh_Custom c))" using custom_sorted_iff by simp
  with True xs(1) show ?thesis by (simp add: Legacy_Buckets_def)
next
  case False
  then show ?thesis
    using assms(1,3,4) by (auto simp: Legacy_Validate_def flt_le_def split: if_splits)
qed

theorem validated_buckets_usable_witness:
  "Legacy_Validate (hc_Legacy (cfg_ImageLastMonitorAgeMinutes defaultConfig)) = Inr ()
   \<and> (0 :: rat) < 1 \<and> (1 :: rat) < 194 / 100"
proof -
  let ?c = "hc_Legacy (cfg_ImageLastMonitorAgeMinutes defaultConfig)"
  have v: "Legacy_Validate ?c = Inr ()"
    by (simp add: defaultConfig_def Legacy_Validate_def flt_le_def)
  have "lh_BucketType ?c = []" "lh_Start ?c = Some 1" "lh_Factor ?c = Some (194 / 100)"
    "list_all (\<lambda>x. x \<noteq> None) (lh_Custom ?c)"
    by (simp_all add: defaultConfig_def)
  with validated_buckets_usable [OF v, of 1 "194 / 100"] v show ?thesis by auto
qed

end
