(* ===== verification/ImageTransfer.thy ===== *)
theory ImageTransfer
  imports Registry
begin

text \<open>
  The operations of \<open>internal/registry/registry.go\<close> that move images: \<open>GetDescriptor\<close>,
  \<open>CopyImage\<close> with its platform selection, and \<open>DeleteImage\<close>. What the registry library
  decides (which platform satisfies which, how one is printed, how an index is filtered)
  and the content behind a digest are the fields of \<open>TransferEnv\<close>.
\<close>

section \<open>The model\<close>

text \<open>
  What \<open>src.ImageIndex()\<close>, \<open>src.Image()\<close> and the image's \<open>ConfigFile()\<close> return for the
  descriptor being copied; \<open>src_IsIndex\<close> says that its media type is an OCI image index or
  a Docker manifest list.
\<close>

record SourceDescriptor =
  src_IsIndex :: bool
  src_ImageIndex :: "ManifestDesc list result"
  src_Image :: "string result"
  src_ConfigPlatform :: "Platform option result"

record TransferEnv = RegistryEnv +
  env_Source :: "Request list \<Rightarrow> string \<Rightarrow> SourceDescriptor"
  env_RemoveManifests :: "ManifestDesc list \<Rightarrow> (ManifestDesc \<Rightarrow> bool) \<Rightarrow> ManifestDesc list result"
  env_Satisfies :: "Platform \<Rightarrow> Platform \<Rightarrow> bool"
  env_PlatformString :: "Platform \<Rightarrow> string"
  env_NewDigest :: "string \<Rightarrow> string result"

definition request_of ::
  "Client \<Rightarrow> int option \<Rightarrow> Reference \<Rightarrow> Keychain \<Rightarrow> Verb \<Rightarrow> string \<Rightarrow> Body \<Rightarrow> Request" where
  "request_of c envelope ref k verb img body =
     \<lparr>rq_Verb = verb, rq_Ref = img, rq_Keychain = k, rq_Timeout = context_timeout c,
      rq_Envelope = envelope, rq_InsecureSkipVerify = skip_verify c ref, rq_Body = body\<rparr>"

text \<open>
  \<open>return desc, c.Execute(...)\<close>: Go does not say whether the variable \<open>desc\<close> is read before
  or after the call that assigns it; \<open>early\<close> is the choice of the compiler.
\<close>

definition GetDescriptor ::
  "bool \<Rightarrow> 'z RegistryEnv_scheme \<Rightarrow> Client \<Rightarrow> string \<Rightarrow> NetState \<Rightarrow>
     (string option \<times> error option) \<times> NetState" where
  "GetDescriptor early env c imageName st =
     (case Execute env c imageName
             (\<lambda>ref k st. send env (request_of c None ref k VGet imageName NoBody) st) st of
        (Inl e, st') \<Rightarrow> ((None, Some e), st')
      | (Inr desc, st') \<Rightarrow> ((if early then None else desc, None), st'))"

definition platformString :: "(Platform \<Rightarrow> string) \<Rightarrow> Platform \<Rightarrow> string result" where
  "platformString str platform =
     (if pl_OS platform = [] then
        (let s = str (platform\<lparr>pl_OS := ''_''\<rparr>)
         in if length s < 2 then Inl (EPanic ''slice bounds out of range'') else Inr (drop 2 s))
      else Inr (str platform))"

fun matchPlatforms ::
  "(Platform \<Rightarrow> Platform \<Rightarrow> bool) \<Rightarrow> Platform list \<Rightarrow> Platform list \<Rightarrow> Platform list \<times> Platform list" where
  "matchPlatforms sat [] available = ([], [])"
| "matchPlatforms sat (platform # configured) available =
     (let (matched, missing) = matchPlatforms sat configured available
      in if list_ex (\<lambda>src. sat src platform) available
         then (platform # matched, missing) else (matched, platform # missing))"

definition noMatchingPlatformError :: "(Platform \<Rightarrow> string) \<Rightarrow> Platform list \<Rightarrow> error" where
  "noMatchingPlatformError str platforms =
     (case traverse (platformString str) platforms of
        Inl e \<Rightarrow> e
      | Inr strs \<Rightarrow>
          EMsg (''none of the configured platforms are available in the source image: '' @ join_with '', '' strs))"

text \<open>The missing platforms are logged, which evaluates \<open>platformString\<close> on each.\<close>

definition checkPlatforms ::
  "(Platform \<Rightarrow> Platform \<Rightarrow> bool) \<Rightarrow> (Platform \<Rightarrow> string) \<Rightarrow> Platform list \<Rightarrow> Platform list \<Rightarrow> unit result"
  where
  "checkPlatforms sat str configured available =
     (let (matched, missing) = matchPlatforms sat configured available
      in (case traverse (platformString str) missing of
            Inl e \<Rightarrow> Inl e
          | Inr _ \<Rightarrow> if length matched = 0 then Inl (noMatchingPlatformError str configured) else Inr ()))"

definition drop_manifest :: "(Platform \<Rightarrow> Platform \<Rightarrow> bool) \<Rightarrow> Platform list \<Rightarrow> ManifestDesc \<Rightarrow> bool" where
  "drop_manifest sat platforms src =
     (case md_Platform src of
        None \<Rightarrow> True
      | Some p \<Rightarrow> \<not> list_ex (\<lambda>platform. sat p platform) platforms)"

definition push ::
  "'z RegistryEnv_scheme \<Rightarrow> Request \<Rightarrow> NetState \<Rightarrow> unit result \<times> NetState" where
  "push env rq st =
     (case send env rq st of (Inl e, st') \<Rightarrow> (Inl e, st') | (Inr _, st') \<Rightarrow> (Inr (), st'))"

definition copy_action ::
  "'z TransferEnv_scheme \<Rightarrow> Client \<Rightarrow> string \<Rightarrow> string \<Rightarrow> Platform list \<Rightarrow> Reference \<Rightarrow> Keychain \<Rightarrow>
     NetState \<Rightarrow> unit result \<times> NetState" where
  "copy_action env c digest dest platforms destRef k st =
     (let src = env_Source env (ns_sent st) digest;
          sat = env_Satisfies env;
          check = checkPlatforms sat (env_PlatformString env) platforms
      in if src_IsIndex src then
           (case src_ImageIndex src of
              Inl e \<Rightarrow> (Inl e, st)
            | Inr index \<Rightarrow>
                (case env_RemoveManifests env index (drop_manifest sat platforms) of
                   Inl e \<Rightarrow> (Inl e, st)
                 | Inr manifests \<Rightarrow>
                     (case check (List.map_filter md_Platform manifests) of
                        Inl e \<Rightarrow> (Inl e, st)
                      | Inr _ \<Rightarrow>
                          push env (request_of c None destRef k VWrite dest (IndexBody manifests)) st)))
         else
           (case src_Image src of
              Inl e \<Rightarrow> (Inl e, st)
            | Inr img \<Rightarrow>
                (case src_ConfigPlatform src of
                   Inl e \<Rightarrow> (Inl e, st)
                 | Inr plat \<Rightarrow>
                     (case check (case plat of None \<Rightarrow> [] | Some p \<Rightarrow> [p]) of
                        Inl e \<Rightarrow> (Inl e, st)
                      | Inr _ \<Rightarrow>
                          push env (request_of c None destRef k VWrite dest (ImageBody img plat)) st))))"

definition CopyImage ::
  "'z TransferEnv_scheme \<Rightarrow> Client \<Rightarrow> string \<Rightarrow> string \<Rightarrow> Platform list \<Rightarrow> NetState \<Rightarrow>
     unit result \<times> NetState" where
  "CopyImage env c digest dest platforms st =
     Execute env c dest (copy_action env c digest dest platforms) st"

definition delete_action ::
  "'z TransferEnv_scheme \<Rightarrow> Client \<Rightarrow> string \<Rightarrow> Reference \<Rightarrow> Keychain \<Rightarrow> NetState \<Rightarrow>
     unit result \<times> NetState" where
  "delete_action env c imageName ref k st =
     (case send env (request_of c None ref k VHead imageName NoBody) st of
        (Inl e, st') \<Rightarrow> if ErrIsImageNotFound e then (Inr (), st') else (Inl e, st')
      | (Inr None, st') \<Rightarrow> (Inl (EPanic ''nil pointer dereference''), st')
      | (Inr (Some d), st') \<Rightarrow>
          (case env_NewDigest env (rf_Name ref @ ''@'' @ d) of
             Inl e \<Rightarrow> (Inl e, st')
           | Inr digest \<Rightarrow> push env (request_of c None ref k VDelete digest NoBody) st'))"

definition DeleteImage ::
  "'z TransferEnv_scheme \<Rightarrow> Client \<Rightarrow> string \<Rightarrow> NetState \<Rightarrow> unit result \<times> NetState" where
  "DeleteImage env c imageName st = Execute env c imageName (delete_action env c imageName) st"

section \<open>Platforms\<close>

lemma matchPlatforms_filter:
  "matchPlatforms sat configured available =
     (filter (\<lambda>p. list_ex (\<lambda>s. sat s p) available) configured,
      filter (\<lambda>p. \<not> list_ex (\<lambda>s. sat s p) available) configured)"
  by (induction configured) (auto simp: Let_def)

lemma checkPlatforms_ok:
  assumes "checkPlatforms sat str configured available = Inr u"
  shows "\<exists>p\<in>set configured. \<exists>s\<in>set available. sat s p"
proof -
  from assms have "filter (\<lambda>p. list_ex (\<lambda>s. sat s p) available) configured \<noteq> []"
    by (auto simp: checkPlatforms_def matchPlatforms_filter split: sum.splits if_splits)
  then show ?thesis by (auto simp: filter_empty_conv list_ex_iff)
qed

text \<open>A platform that prints: it names its system, or its text reaches past the placeholder.\<close>

definition printable :: "(Platform \<Rightarrow> string) \<Rightarrow> Platform \<Rightarrow> bool" where
  "printable str p \<longleftrightarrow> pl_OS p \<noteq> [] \<or> 2 \<le> length (str (p\<lparr>pl_OS := ''_''\<rparr>))"

lemma platformString_ok: "printable str p \<Longrightarrow> is_ok (platformString str p)"
  by (auto simp: platformString_def printable_def Let_def)

text \<open>
  The platform check fails only when nothing would be left to mirror: when every
  configured platform prints, it succeeds exactly when some configured platform is available
  in the source, and missing platforms alone never fail it.
\<close>

theorem checkPlatforms_iff:
  assumes "list_all (printable str) configured"
  shows "checkPlatforms sat str configured available = Inr ()
           \<longleftrightarrow> list_ex (\<lambda>p. list_ex (\<lambda>s. sat s p) available) configured"
proof
  assume "checkPlatforms sat str configured available = Inr ()"
  then show "list_ex (\<lambda>p. list_ex (\<lambda>s. sat s p) available) configured"
    using checkPlatforms_ok by (auto simp: list_ex_iff)
next
  assume ex: "list_ex (\<lambda>p. list_ex (\<lambda>s. sat s p) available) configured"
  let ?missing = "filter (\<lambda>p. \<not> list_ex (\<lambda>s. sat s p) available) configured"
  have "is_ok (traverse (platformString str) ?missing)"
    using assms by (intro traverse_all_ok) (auto simp: list_all_iff intro: platformString_ok)
  then obtain ys where "traverse (platformString str) ?missing = Inr ys" by (auto simp: is_ok_iff)
  moreover have "filter (\<lambda>p. list_ex (\<lambda>s. sat s p) available) configured \<noteq> []"
    using ex by (simp add: filter_empty_conv list_ex_iff)
  ultimately show "checkPlatforms sat str configured available = Inr ()"
    by (simp add: checkPlatforms_def matchPlatforms_filter)
qed

definition example_platform :: "string \<Rightarrow> Platform" where
  "example_platform arch = \<lparr>pl_OS = ''linux'', pl_Architecture = arch, pl_Variant = [], pl_OSVersion = []\<rparr>"

theorem checkPlatforms_iff_witness:
  "checkPlatforms (=) pl_Architecture [example_platform ''amd64'', example_platform ''arm64'']
     [example_platform ''arm64''] = Inr ()
   \<longleftrightarrow> list_ex (\<lambda>p. list_ex (\<lambda>s. s = p) [example_platform ''arm64''])
         [example_platform ''amd64'', example_platform ''arm64'']"
  by (rule checkPlatforms_iff) (simp add: example_platform_def printable_def)

section \<open>What a copy pushes\<close>

lemma execute_loop_sent:
  assumes act: "\<And>k st. \<exists>rs. ns_sent (snd (act k st)) = ns_sent st @ rs \<and> list_all Q rs"
  shows "\<exists>rs. ns_sent (snd (execute_loop act ks errs st)) = ns_sent st @ rs \<and> list_all Q rs"
proof (induction ks arbitrary: errs st)
  case Nil
  then show ?case by simp
next
  case (Cons k ks)
  obtain r0 where r0: "ns_sent (snd (act k st)) = ns_sent st @ r0" "list_all Q r0" using act by blast
  show ?case
  proof (cases "act k st")
    case (Pair res s1)
    show ?thesis
    proof (cases "\<exists>e. res = Inl e \<and> \<not> is_panic e")
      case False
      then have "snd (execute_loop act (k # ks) errs st) = s1"
        using Pair by (auto split: sum.splits)
      with r0 Pair show ?thesis by (intro exI [of _ r0]) simp
    next
      case True
      then obtain e where e: "res = Inl e" "\<not> is_panic e" by blast
      obtain rs where "ns_sent (snd (execute_loop act ks (errs @ [e]) s1)) = ns_sent s1 @ rs" "list_all Q rs"
        using Cons.IH by blast
      with r0 Pair e show ?thesis by (intro exI [of _ "r0 @ rs"]) simp
    qed
  qed
qed

lemma Execute_sent:
  assumes "\<And>ref k st. \<exists>rs. ns_sent (snd (act ref k st)) = ns_sent st @ rs \<and> list_all Q rs"
  shows "\<exists>rs. ns_sent (snd (Execute env c img act st)) = ns_sent st @ rs \<and> list_all Q rs"
proof (cases "\<exists>ks ref. GetKeychains env img (cl_pullSecrets c) = Inr ks \<and> env_ParseReference env img = Inr ref")
  case False
  then have "snd (Execute env c img act st) = st" by (auto simp: Execute_def split: sum.splits)
  then show ?thesis by simp
next
  case True
  then obtain ks ref where "GetKeychains env img (cl_pullSecrets c) = Inr ks"
    "env_ParseReference env img = Inr ref" by blast
  then have "Execute env c img act st =
      execute_loop (act ref) (if length ks = 0 then [DefaultKeychain] else ks) [] st"
    by (simp add: Execute_def)
  then show ?thesis using execute_loop_sent [of "act ref"] assms by metis
qed

text \<open>
  A push the configuration allows: an index whose manifests all satisfy a configured
  platform, one of them at least, or a single image whose platform satisfies one.
\<close>

definition allowed_push :: "(Platform \<Rightarrow> Platform \<Rightarrow> bool) \<Rightarrow> Platform list \<Rightarrow> string \<Rightarrow> Request \<Rightarrow> bool" where
  "allowed_push sat platforms dest rq \<longleftrightarrow>
     rq_Verb rq = VWrite \<and> rq_Ref rq = dest \<and>
     (case rq_Body rq of
        NoBody \<Rightarrow> False
      | ImageBody _ plat \<Rightarrow> (\<exists>s p. plat = Some s \<and> p \<in> set platforms \<and> sat s p)
      | IndexBody ms \<Rightarrow> ms \<noteq> [] \<and>
          list_all (\<lambda>m. \<exists>s p. md_Platform m = Some s \<and> p \<in> set platforms \<and> sat s p) ms)"

definition removes_manifests :: "'z TransferEnv_scheme \<Rightarrow> bool" where
  "removes_manifests env \<longleftrightarrow>
     (\<forall>ms P ms'. env_RemoveManifests env ms P = Inr ms' \<longrightarrow> ms' = filter (\<lambda>m. \<not> P m) ms)"

lemma push_sent: "ns_sent (snd (push env rq st)) = ns_sent st @ [rq]"
  by (simp add: push_def send_def Let_def split: sum.splits)

lemma kept_manifest:
  "m \<in> set (filter (\<lambda>m. \<not> drop_manifest sat platforms m) ms) \<longleftrightarrow>
     m \<in> set ms \<and> (\<exists>s p. md_Platform m = Some s \<and> p \<in> set platforms \<and> sat s p)"
  by (auto simp: drop_manifest_def list_ex_iff split: option.splits)

lemma copy_action_sent:
  assumes "removes_manifests env"
  shows "\<exists>rs. ns_sent (snd (copy_action env c digest dest platforms ref k st)) = ns_sent st @ rs
           \<and> list_all (allowed_push (env_Satisfies env) platforms dest) rs"
proof -
  let ?src = "env_Source env (ns_sent st) digest"
  let ?check = "checkPlatforms (env_Satisfies env) (env_PlatformString env) platforms"
  show ?thesis
  proof (cases "src_IsIndex ?src")
    case True
    show ?thesis
    proof (cases "\<exists>index ms. src_ImageIndex ?src = Inr index
        \<and> env_RemoveManifests env index (drop_manifest (env_Satisfies env) platforms) = Inr ms
        \<and> ?check (List.map_filter md_Platform ms) = Inr ()")
      case False
      with True have "snd (copy_action env c digest dest platforms ref k st) = st"
        by (auto simp: copy_action_def Let_def split: sum.splits)
      then show ?thesis by simp
    next
      case index: True
      then obtain index ms where i: "src_ImageIndex ?src = Inr index"
        "env_RemoveManifests env index (drop_manifest (env_Satisfies env) platforms) = Inr ms"
        "?check (List.map_filter md_Platform ms) = Inr ()" by blast
      then have ms: "ms = filter (\<lambda>m. \<not> drop_manifest (env_Satisfies env) platforms m) index"
        using assms by (auto simp: removes_manifests_def)
      have "ms \<noteq> []" using checkPlatforms_ok [OF i(3)] by (auto simp: List.map_filter_def)
      moreover have "list_all (\<lambda>m. \<exists>s p. md_Platform m = Some s \<and> p \<in> set platforms \<and> env_Satisfies env s p) ms"
        using kept_manifest ms by (auto simp: list_all_iff)
      ultimately have "allowed_push (env_Satisfies env) platforms dest
          (request_of c None ref k VWrite dest (IndexBody ms))"
        by (simp add: allowed_push_def request_of_def)
      moreover have "snd (copy_action env c digest dest platforms ref k st)
          = snd (push env (request_of c None ref k VWrite dest (IndexBody ms)) st)"
        using True i by (simp add: copy_action_def Let_def)
      ultimately show ?thesis by (simp add: push_sent)
    qed
  next
    case False
    show ?thesis
    proof (cases "\<exists>img plat. src_Image ?src = Inr img \<and> src_ConfigPlatform ?src = Inr plat
        \<and> ?check (case plat of None \<Rightarrow> [] | Some p \<Rightarrow> [p]) = Inr ()")
      case no: False
      with False have "snd (copy_action env c digest dest platforms ref k st) = st"
        by (auto simp: copy_action_def Let_def split: sum.splits)
      then show ?thesis by simp
    next
      case True
      then obtain img plat where i: "src_Image ?src = Inr img" "src_ConfigPlatform ?src = Inr plat"
        "?check (case plat of None \<Rightarrow> [] | Some p \<Rightarrow> [p]) = Inr ()" by blast
      then have "allowed_push (env_Satisfies env) platforms dest
          (request_of c None ref k VWrite dest (ImageBody img plat))"
        using checkPlatforms_ok [OF i(3)] by (cases plat) (auto simp: allowed_push_def request_of_def)
      moreover have "snd (copy_action env c digest dest platforms ref k st)
          = snd (push env (request_of c None ref k VWrite dest (ImageBody img plat)) st)"
        using False i by (simp add: copy_action_def Let_def)
      ultimately show ?thesis by (simp add: push_sent)
    qed
  qed
qed

text \<open>
  C29. A copy only ever writes to its destination, and only content the configured platforms
  allow: every index it pushes holds no manifest outside them and at least one within. When
  no configured platform is in the source, nothing is pushed at all.
\<close>

theorem copy_pushes_only_configured_platforms:
  assumes "removes_manifests env"
  shows "\<exists>rs. ns_sent (snd (CopyImage env c digest dest platforms st)) = ns_sent st @ rs
           \<and> list_all (allowed_push (env_Satisfies env) platforms dest) rs"
  unfolding CopyImage_def by (intro Execute_sent copy_action_sent assms)

definition example_transfer :: "SourceDescriptor \<Rightarrow> string option result \<Rightarrow> TransferEnv" where
  "example_transfer src answer =
     \<lparr>env_DockerConfigJSON = (\<lambda>_. Inr []), env_DockerConfig = (\<lambda>_. Inr []), env_MapOrder = rev,
      env_ParseNamed = example_parse, env_ParseReference = (\<lambda>s. Inr (example_ref s)),
      env_Remote = (\<lambda>_ rq. \<lparr>rs_Headers = None, rs_Result = answer\<rparr>),
      env_Source = (\<lambda>_ _. src),
      env_RemoveManifests = (\<lambda>ms P. Inr (filter (\<lambda>m. \<not> P m) ms)),
      env_Satisfies = (=), env_PlatformString = pl_Architecture, env_NewDigest = Inr\<rparr>"

definition example_index :: SourceDescriptor where
  "example_index =
     \<lparr>src_IsIndex = True,
      src_ImageIndex = Inr [\<lparr>md_Digest = ''d1'', md_Platform = Some (example_platform ''amd64'')\<rparr>,
        \<lparr>md_Digest = ''d2'', md_Platform = Some (example_platform ''arm64'')\<rparr>,
        \<lparr>md_Digest = ''d3'', md_Platform = None\<rparr>],
      src_Image = Inl (EMsg ''index''), src_ConfigPlatform = Inl (EMsg ''index'')\<rparr>"

lemma example_removes: "removes_manifests (example_transfer src answer)"
  by (simp add: removes_manifests_def example_transfer_def)

theorem copy_pushes_only_configured_platforms_witness:
  "\<exists>rs. ns_sent (snd (CopyImage (example_transfer example_index (Inr None)) (NewClient []) ''d'' ''r/a''
            [example_platform ''arm64''] \<lparr>ns_lastHeaders = None, ns_sent = []\<rparr>)) = [] @ rs
        \<and> list_all (allowed_push (=) [example_platform ''arm64''] ''r/a'') rs"
  using copy_pushes_only_configured_platforms
    [OF example_removes, of example_index "Inr None" "NewClient []" "''d''" "''r/a''"
      "[example_platform ''arm64'']" "\<lparr>ns_lastHeaders = None, ns_sent = []\<rparr>"]
  by (simp add: example_transfer_def)


lemma example_keychains:
  "img \<noteq> [] \<Longrightarrow> GetKeychains (example_transfer src answer) img [] = Inr []"
  by (simp add: GetKeychains_def getKeychainsFromSecrets_def MakeDockerKeyring_def example_transfer_def
      example_parse_def Let_def)


section \<open>Deleting\<close>

text \<open>
  Deleting an image succeeds only when the image is gone: either the registry answered
  404 to the \<open>HEAD\<close>, and then nothing is deleted by that attempt, or the digest the tag
  resolved to was deleted by the last request sent.
\<close>

theorem delete_success_means_gone:
  assumes "DeleteImage env c img st = (Inr (), st')"
  shows "\<exists>ref k st1. env_ParseReference env img = Inr ref \<and>
    (let hd = request_of c None ref k VHead img NoBody in
       (\<exists>e. send env hd st1 = (Inl e, st') \<and> ErrIsImageNotFound e \<and> last (ns_sent st') = hd)
     \<or> (\<exists>d digest st2 x. send env hd st1 = (Inr (Some d), st2)
          \<and> env_NewDigest env (rf_Name ref @ ''@'' @ d) = Inr digest
          \<and> send env (request_of c None ref k VDelete digest NoBody) st2 = (Inr x, st')
          \<and> last (ns_sent st') = request_of c None ref k VDelete digest NoBody))"
proof -
  from assms obtain ref k st1 where p: "env_ParseReference env img = Inr ref"
    and act: "delete_action env c img ref k st1 = (Inr (), st')"
    by (auto simp: DeleteImage_def Execute_def execute_loop_success_iff simp del: execute_loop.simps
        split: sum.splits)
  let ?hd = "request_of c None ref k VHead img NoBody"
  have sent: "ns_sent s' = ns_sent s @ [rq]" if "send env rq s = (r, s')" for rq s r s'
    using that by (auto simp: send_def Let_def)
  obtain r s2 where hd: "send env ?hd st1 = (r, s2)" by fastforce
  show ?thesis
  proof (cases r)
    case (Inl e)
    with act hd have "s2 = st'" "ErrIsImageNotFound e" by (auto simp: delete_action_def split: if_splits)
    with p hd Inl sent [OF hd] show ?thesis
      by (intro exI [of _ ref] exI [of _ k] exI [of _ st1]) (simp add: Let_def)
  next
    case (Inr o)
    with act hd obtain d digest where d: "r = Inr (Some d)"
      "env_NewDigest env (rf_Name ref @ ''@'' @ d) = Inr digest"
      "push env (request_of c None ref k VDelete digest NoBody) s2 = (Inr (), st')"
      by (auto simp: delete_action_def split: option.splits sum.splits)
    then obtain x where x: "send env (request_of c None ref k VDelete digest NoBody) s2 = (Inr x, st')"
      by (auto simp: push_def split: prod.splits sum.splits)
    with p hd d sent [OF x] show ?thesis
      by (intro exI [of _ ref] exI [of _ k] exI [of _ st1]) (simp add: Let_def)
  qed
qed

theorem delete_success_means_gone_witness:
  "\<exists>st' ref k st1. DeleteImage (example_transfer example_index (Inl (ETransport 404))) (NewClient []) ''r/a''
      \<lparr>ns_lastHeaders = None, ns_sent = []\<rparr> = (Inr (), st')
     \<and> last (ns_sent st') = request_of (NewClient []) None ref k VHead ''r/a'' NoBody"
proof -
  let ?env = "example_transfer example_index (Inl (ETransport 404))"
  let ?r = "DeleteImage ?env (NewClient []) ''r/a'' \<lparr>ns_lastHeaders = None, ns_sent = []\<rparr>"
  have "fst ?r = Inr ()"
    unfolding DeleteImage_def Execute_def
    by (simp add: NewClient_def example_keychains)
      (simp add: example_transfer_def delete_action_def send_def Let_def ErrIsImageNotFound_def
        TransportStatusCode_def)
  then obtain st' where r: "?r = (Inr (), st')" by (cases ?r) auto
  have "fst (send ?env rq s) = Inl (ETransport 404)" for rq s
    by (simp add: example_transfer_def send_def Let_def)
  then have "send ?env rq s \<noteq> (Inr x, s')" for rq s x s' by (metis Inl_Inr_False fst_conv)
  with delete_success_means_gone [OF r] r show ?thesis by (auto simp: Let_def)
qed

section \<open>Reading the source\<close>

text \<open>
  \<open>GetDescriptor\<close> relies on an order of evaluation the language leaves open: a compiler
  that reads the result variable before the call returns a nil descriptor and a nil error
  for an image that exists, one that reads it after returns the descriptor.
\<close>

theorem get_descriptor_evaluation_order:
  "fst (fst (GetDescriptor True env c img st)) = None
   \<and> snd (fst (GetDescriptor True env c img st)) = snd (fst (GetDescriptor False env c img st))
   \<and> fst (fst (GetDescriptor False env c img st)) =
       (case fst (Execute env c img
                    (\<lambda>ref k st. send env (request_of c None ref k VGet img NoBody) st) st) of
          Inl e \<Rightarrow> None | Inr desc \<Rightarrow> desc)"
  by (auto simp: GetDescriptor_def split: prod.splits sum.splits)

end
