(* ===== verification/MirrorObject.thy ===== *)
theory MirrorObject
  imports MirrorMerge Config ImageTransfer
begin

text \<open>
  What \<open>mirror_reconciler.go\<close> relies on and the operations its loops are made of: the
  interface \<open>MirrorObject\<close> with its two implementations, the API server as the reconciler
  sees it, the reading of credentials, \<open>mirrorImage\<close>, \<open>cleanupMirror\<close> and the pod mapper.
\<close>

section \<open>The interface\<close>

text \<open>
  The interface value as a table of methods over the object type \<open>'o\<close>. \<open>MirrorSpec\<close> and
  \<open>MirrorStatus\<close> return pointers into the object: writing through the second one is
  \<open>mo_SetStatus\<close>.
\<close>

record 'o MirrorObject =
  mo_Meta :: "'o \<Rightarrow> ObjectMeta"
  mo_SetMeta :: "ObjectMeta \<Rightarrow> 'o \<Rightarrow> 'o"
  mo_Spec :: "'o \<Rightarrow> ImageSetMirrorBase"
  mo_Status :: "'o \<Rightarrow> MatchingImage list"
  mo_SetStatus :: "MatchingImage list \<Rightarrow> 'o \<Rightarrow> 'o"
  mo_PodMatcher :: "'o \<Rightarrow> (Pod \<Rightarrow> bool) result"
  mo_ImageFilter :: "'o \<Rightarrow> (string \<Rightarrow> bool) result"

definition ISM_object :: "regexp_compile \<Rightarrow> selector_parse \<Rightarrow> ImageSetMirror MirrorObject" where
  "ISM_object rx sel =
     \<lparr>mo_Meta = ism_Meta, mo_SetMeta = (\<lambda>m i. i\<lparr>ism_Meta := m\<rparr>), mo_Spec = ism_Base,
      mo_Status = ism_MatchingImages, mo_SetStatus = (\<lambda>s i. i\<lparr>ism_MatchingImages := s\<rparr>),
      mo_PodMatcher = ISM_PodMatcher sel, mo_ImageFilter = ISM_ImageFilter rx\<rparr>"

definition CISM_object :: "regexp_compile \<Rightarrow> selector_parse \<Rightarrow> ClusterImageSetMirror MirrorObject" where
  "CISM_object rx sel =
     \<lparr>mo_Meta = cism_Meta, mo_SetMeta = (\<lambda>m i. i\<lparr>cism_Meta := m\<rparr>), mo_Spec = cism_Base,
      mo_Status = cism_MatchingImages, mo_SetStatus = (\<lambda>s i. i\<lparr>cism_MatchingImages := s\<rparr>),
      mo_PodMatcher = CISM_PodMatcher rx sel, mo_ImageFilter = CISM_ImageFilter rx\<rparr>"

text \<open>The laws the reconciler relies on: the parts of an object are written independently.\<close>

locale mirror_object =
  fixes ops :: "'o MirrorObject"
  assumes get_set_status: "mo_Status ops (mo_SetStatus ops s x) = s"
    and spec_set_status: "mo_Spec ops (mo_SetStatus ops s x) = mo_Spec ops x"
    and meta_set_status: "mo_Meta ops (mo_SetStatus ops s x) = mo_Meta ops x"
    and set_same_status: "mo_SetStatus ops (mo_Status ops x) x = x"
    and set_set_status: "mo_SetStatus ops s (mo_SetStatus ops s' x) = mo_SetStatus ops s x"
    and get_set_meta: "mo_Meta ops (mo_SetMeta ops m x) = m"
    and status_set_meta: "mo_Status ops (mo_SetMeta ops m x) = mo_Status ops x"
    and spec_set_meta: "mo_Spec ops (mo_SetMeta ops m x) = mo_Spec ops x"
begin

lemmas laws [simp] = get_set_status spec_set_status meta_set_status set_same_status set_set_status
  get_set_meta status_set_meta spec_set_meta

lemma set_status_iff: "mo_SetStatus ops s x = mo_SetStatus ops s' x \<longleftrightarrow> s = s'"
  by (metis get_set_status)

end

interpretation ism: mirror_object "ISM_object rx sel" for rx sel
  by unfold_locales (simp_all add: ISM_object_def)

interpretation cism: mirror_object "CISM_object rx sel" for rx sel
  by unfold_locales (simp_all add: CISM_object_def)

definition imageSetMirrorFinalizer :: string where
  "imageSetMirrorFinalizer = ''kuik.enix.io/mirror-cleanup''"

definition ContainsFinalizer :: "'o MirrorObject \<Rightarrow> 'o \<Rightarrow> bool" where
  "ContainsFinalizer ops x \<longleftrightarrow> imageSetMirrorFinalizer \<in> set (om_Finalizers (mo_Meta ops x))"

definition AddFinalizer :: "'o MirrorObject \<Rightarrow> 'o \<Rightarrow> 'o" where
  "AddFinalizer ops x =
     (if ContainsFinalizer ops x then x
      else let m = mo_Meta ops x
           in mo_SetMeta ops (m\<lparr>om_Finalizers := om_Finalizers m @ [imageSetMirrorFinalizer]\<rparr>) x)"

definition RemoveFinalizer :: "'o MirrorObject \<Rightarrow> 'o \<Rightarrow> 'o" where
  "RemoveFinalizer ops x =
     (let m = mo_Meta ops x
      in mo_SetMeta ops (m\<lparr>om_Finalizers := filter (\<lambda>f. f \<noteq> imageSetMirrorFinalizer) (om_Finalizers m)\<rparr>) x)"

section \<open>Environment and state\<close>

text \<open>
  The calls a run makes, in order; what the API server and the clock answer is a function of
  the calls before. \<open>EvDeleteImage\<close> and \<open>EvCopyImage\<close> mark the calls of the registry client.
\<close>

datatype 'o RecEvent =
    EvGet
  | EvUpdate 'o
  | EvListPods string
  | EvListClusterMirrors
  | EvListMirrors
  | EvInvalidFilter
  | EvPatchStatus 'o 'o
  | EvGetSecret string string
  | EvDeleteImage string
  | EvCopyImage string string

record 'o RecState =
  rc_obj :: 'o
  rc_events :: "'o RecEvent list"
  rc_sent :: "Request list"

text \<open>
  \<open>re_Patch evs original new\<close> is the object as decoded from the answer to the patch from
  \<open>original\<close> to \<open>new\<close>; \<open>re_Retry\<close> is \<open>retry.RetryOnConflict\<close>; \<open>re_Originals\<close> decodes the
  annotation of the webhook; \<open>re_Early\<close> is the order of evaluation in \<open>GetDescriptor\<close>.
\<close>

type_synonym 'o rec_action = "'o RecState \<Rightarrow> unit result \<times> 'o RecState"

record 'o RecEnv =
  re_Ops :: "'o MirrorObject"
  re_Net :: TransferEnv
  re_Early :: bool
  re_GlobalFilter :: PodFilter
  re_Platforms :: "Platform list"
  re_Order :: "string list \<Rightarrow> string list"
  re_Originals :: "string \<Rightarrow> string list"
  re_Now :: "'o RecEvent list \<Rightarrow> int"
  re_Get :: "'o RecEvent list \<Rightarrow> 'o result"
  re_Update :: "'o RecEvent list \<Rightarrow> 'o \<Rightarrow> 'o result"
  re_Patch :: "'o RecEvent list \<Rightarrow> 'o \<Rightarrow> 'o \<Rightarrow> 'o result"
  re_GetSecret :: "'o RecEvent list \<Rightarrow> string \<Rightarrow> string \<Rightarrow> Secret result"
  re_ListPods :: "'o RecEvent list \<Rightarrow> string \<Rightarrow> Pod list result"
  re_ListClusterMirrors :: "'o RecEvent list \<Rightarrow> ClusterImageSetMirror list result"
  re_ListMirrors :: "'o RecEvent list \<Rightarrow> ImageSetMirror list result"
  re_Retry :: "'o rec_action \<Rightarrow> 'o rec_action"

definition log_event :: "'o RecEvent \<Rightarrow> 'o RecState \<Rightarrow> 'o RecState" where
  "log_event ev st = st\<lparr>rc_events := rc_events st @ [ev]\<rparr>"

text \<open>The next step of a handler, unless the one before returned an error.\<close>

definition and_then :: "'a result \<times> 's \<Rightarrow> ('a \<Rightarrow> 's \<Rightarrow> 'b result \<times> 's) \<Rightarrow> 'b result \<times> 's" where
  "and_then r f = (case r of (Inl e, st) \<Rightarrow> (Inl e, st) | (Inr x, st) \<Rightarrow> f x st)"

lemma and_then_simps [simp]:
  "and_then (Inl e, st) f = (Inl e, st)" "and_then (Inr x, st) f = f x st"
  by (simp_all add: and_then_def)

lemma and_then_InrE:
  assumes "and_then r f = (Inr y, st')"
  obtains x st where "r = (Inr x, st)" and "f x st = (Inr y, st')"
  using assms by (cases r; cases "fst r") auto

definition IgnoreNotFound :: "error \<Rightarrow> error option" where
  "IgnoreNotFound e = (case e of ENotFound _ \<Rightarrow> None | _ \<Rightarrow> Some e)"

definition get_object :: "'o RecEnv \<Rightarrow> 'o rec_action" where
  "get_object re st =
     (case re_Get re (rc_events st) of
        Inl e \<Rightarrow> (Inl e, log_event EvGet st)
      | Inr x \<Rightarrow> (Inr (), (log_event EvGet st)\<lparr>rc_obj := x\<rparr>))"

definition update_object :: "'o RecEnv \<Rightarrow> 'o rec_action" where
  "update_object re st =
     (case re_Update re (rc_events st) (rc_obj st) of
        Inl e \<Rightarrow> (Inl e, log_event (EvUpdate (rc_obj st)) st)
      | Inr x \<Rightarrow> (Inr (), (log_event (EvUpdate (rc_obj st)) st)\<lparr>rc_obj := x\<rparr>))"

definition patch_status :: "'o RecEnv \<Rightarrow> 'o \<Rightarrow> 'o rec_action" where
  "patch_status re original st =
     (case re_Patch re (rc_events st) original (rc_obj st) of
        Inl e \<Rightarrow> (Inl e, log_event (EvPatchStatus original (rc_obj st)) st)
      | Inr x \<Rightarrow> (Inr (), (log_event (EvPatchStatus original (rc_obj st)) st)\<lparr>rc_obj := x\<rparr>))"

text \<open>A registry operation with a client of its own.\<close>

definition on_network :: "(NetState \<Rightarrow> 'a \<times> NetState) \<Rightarrow> 'o RecState \<Rightarrow> 'a \<times> 'o RecState" where
  "on_network f st =
     (case f \<lparr>ns_lastHeaders = None, ns_sent = rc_sent st\<rparr> of (x, n) \<Rightarrow> (x, st\<lparr>rc_sent := ns_sent n\<rparr>))"

section \<open>Credentials\<close>

definition getPullSecret ::
  "'o RecEnv \<Rightarrow> string \<Rightarrow> string \<Rightarrow> 'o RecState \<Rightarrow> Secret result \<times> 'o RecState" where
  "getPullSecret re namespace name st =
     (re_GetSecret re (rc_events st) namespace name, log_event (EvGetSecret namespace name) st)"

fun read_secrets :: "'o RecEnv \<Rightarrow> string \<Rightarrow> string list \<Rightarrow> 'o RecState \<Rightarrow> Secret list result \<times> 'o RecState" where
  "read_secrets re ns [] st = (Inr [], st)"
| "read_secrets re ns (name # names) st =
     and_then (getPullSecret re ns name st) (\<lambda>s st1.
       and_then (read_secrets re ns names st1) (\<lambda>ss st2. (Inr (s # ss), st2)))"

definition getPullSecretsFromPods ::
  "'o RecEnv \<Rightarrow> (string \<times> Pod) list \<Rightarrow> string \<Rightarrow> 'o RecState \<Rightarrow> Secret list result \<times> 'o RecState" where
  "getPullSecretsFromPods re byImage img st =
     (case map_of byImage img of
        None \<Rightarrow> (Inr [], st)
      | Some pod \<Rightarrow> read_secrets re (pod_Namespace pod) (pod_ImagePullSecrets pod) st)"

definition getImageSecretFromMirrors ::
  "'o RecEnv \<Rightarrow> string \<Rightarrow> string \<Rightarrow> Mirror list \<Rightarrow> 'o RecState \<Rightarrow> Secret option result \<times> 'o RecState" where
  "getImageSecretFromMirrors re img namespace mirrors st =
     (case GetCredentialSecretForImage mirrors img of
        None \<Rightarrow> (Inr None, st)
      | Some cred \<Rightarrow>
          and_then (getPullSecret re (if namespace = [] then cs_Namespace cred else namespace) (cs_Name cred) st)
            (\<lambda>s st1. (Inr (Some s), st1)))"

section \<open>Mirroring and deleting one image\<close>

text \<open>The zero value that \<open>make([]corev1.Secret, 1)\<close> starts with.\<close>

definition zero_secret :: Secret where
  "zero_secret = \<lparr>sec_Name = [], sec_Namespace = [], sec_UID = [], sec_Type = [],
     sec_Data = Map.empty, sec_Labels = Map.empty\<rparr>"

text \<open>Copying what \<open>GetDescriptor\<close> returned; a nil descriptor is dereferenced by the copy.\<close>

definition copy_image ::
  "'o RecEnv \<Rightarrow> Secret list \<Rightarrow> string option \<Rightarrow> string \<Rightarrow> 'o rec_action" where
  "copy_image re destSecrets desc dest st =
     (let c = WithPullSecrets destSecrets (WithTimeout 0 (NewClient []))
      in on_network (\<lambda>n. case desc of
             None \<Rightarrow> Execute (re_Net re) c dest (\<lambda>_ _ n. (Inl (EPanic ''nil pointer dereference''), n)) n
           | Some d \<Rightarrow> CopyImage (re_Net re) c d dest (re_Platforms re) n) st)"

text \<open>
  The deferred function: after a failure, an image that is already at the destination counts
  as mirrored. \<open>Inl\<close> is a panic; otherwise the error of \<open>mirrorImage\<close> and the entry.
\<close>

definition deferred_check ::
  "'o RecEnv \<Rightarrow> Secret list \<Rightarrow> MirrorStatus \<Rightarrow> error \<Rightarrow> 'o RecState \<Rightarrow>
     (error option \<times> MirrorStatus) result \<times> 'o RecState" where
  "deferred_check re destSecrets to err st =
     (if is_panic err then (Inl err, st)
      else
        (case on_network (GetDescriptor (re_Early re) (re_Net re)
                (WithPullSecrets destSecrets (NewClient [])) (ms_Image to)) st of
           ((_, destErr), st1) \<Rightarrow>
             (case destErr of
                None \<Rightarrow> (Inr (None, to\<lparr>ms_MirroredAt := Some (re_Now re (rc_events st1))\<rparr>), st1)
              | Some e \<Rightarrow> if is_panic e then (Inl e, st1) else (Inr (Some err, to), st1))))"

definition mirrorImage ::
  "'o RecEnv \<Rightarrow> string \<Rightarrow> Mirror list \<Rightarrow> (string \<times> Pod) list \<Rightarrow> string \<Rightarrow> MirrorStatus \<Rightarrow> 'o RecState \<Rightarrow>
     (error option \<times> MirrorStatus) result \<times> 'o RecState" where
  "mirrorImage re namespace mirrors byImage from to st =
     (case getPullSecretsFromPods re byImage from st of
        (Inl e, st1) \<Rightarrow> (Inr (Some e, to), st1)
      | (Inr srcSecrets, st1) \<Rightarrow>
          (case getImageSecretFromMirrors re (ms_Image to) namespace mirrors st1 of
             (Inl e, st2) \<Rightarrow> (Inr (Some e, to), st2)
           | (Inr secret, st2) \<Rightarrow>
               (let destSecrets = [case secret of None \<Rightarrow> zero_secret | Some s \<Rightarrow> s]
                in (case on_network (GetDescriptor (re_Early re) (re_Net re)
                           (WithPullSecrets srcSecrets (NewClient [])) from) st2 of
                      ((srcDesc, Some e), st3) \<Rightarrow> deferred_check re destSecrets to e st3
                    | ((srcDesc, None), st3) \<Rightarrow>
                        (case copy_image re destSecrets srcDesc (ms_Image to)
                                (log_event (EvCopyImage from (ms_Image to)) st3) of
                           (Inl e, st4) \<Rightarrow> deferred_check re destSecrets to e st4
                         | (Inr _, st4) \<Rightarrow>
                             (Inr (None, to\<lparr>ms_MirroredAt := Some (re_Now re (rc_events st4))\<rparr>), st4))))))"

text \<open>\<open>Inl\<close> is a panic of the registry library.\<close>

definition cleanupMirror ::
  "'o RecEnv \<Rightarrow> string \<Rightarrow> string \<Rightarrow> Mirror list \<Rightarrow> 'o RecState \<Rightarrow> bool result \<times> 'o RecState" where
  "cleanupMirror re img namespace mirrors st =
     (case getImageSecretFromMirrors re img namespace mirrors st of
        (Inl e, st1) \<Rightarrow> (Inr False, st1)
      | (Inr None, st1) \<Rightarrow> (Inr True, st1)
      | (Inr (Some secret), st1) \<Rightarrow>
          (case on_network (DeleteImage (re_Net re) (WithPullSecrets [secret] (NewClient [])) img)
                  (log_event (EvDeleteImage img) st1) of
             (Inl e, st2) \<Rightarrow> if is_panic e then (Inl e, st2) else (Inr False, st2)
           | (Inr _, st2) \<Rightarrow> (Inr True, st2)))"

section \<open>Setup and the pod mapper\<close>

definition compileGlobalPodFilter :: "selector_parse \<Rightarrow> Config \<Rightarrow> PodFilter result" where
  "compileGlobalPodFilter sel cfg = CompilePodFilter sel [] (cfg_SkipLabels cfg) [] (cfg_SkipAnnotations cfg)"

definition setupPlatforms :: "Config \<Rightarrow> Platform list" where
  "setupPlatforms cfg =
     map (\<lambda>p. \<lparr>pl_OS = cp_OS p, pl_Architecture = cp_Architecture p, pl_Variant = cp_Variant p,
               pl_OSVersion = []\<rparr>) (cfg_Platforms cfg)"

text \<open>The loop over the resources, for one pod; a request is a namespace and a name.\<close>

fun enqueue_requests ::
  "'o MirrorObject \<Rightarrow> (string list \<Rightarrow> string list) \<Rightarrow> Pod \<Rightarrow> string list \<Rightarrow> 'o list \<Rightarrow> (string \<times> string) list" where
  "enqueue_requests ops ord pod imageNames [] = []"
| "enqueue_requests ops ord pod imageNames (x # xs) =
     (let rest = enqueue_requests ops ord pod imageNames xs
      in (case mo_PodMatcher ops x of
            Inl _ \<Rightarrow> rest
          | Inr pm \<Rightarrow>
              if \<not> pm pod then rest
              else
                (case mo_ImageFilter ops x of
                   Inl _ \<Rightarrow> rest
                 | Inr match \<Rightarrow>
                     if list_ex (\<lambda>img. \<not> has_digest img \<and> match img) (ord imageNames)
                     then (om_Namespace (mo_Meta ops x), om_Name (mo_Meta ops x)) # rest
                     else rest)))"

definition enqueueForPod ::
  "'o MirrorObject \<Rightarrow> PodFilter \<Rightarrow> ref_parser \<Rightarrow> (string list \<Rightarrow> string list) \<Rightarrow> Pod \<Rightarrow> 'o list result \<Rightarrow>
     (string \<times> string) list" where
  "enqueueForPod ops globalFilter parse ord pod listed =
     (if \<not> PodFilter_Match globalFilter pod then []
      else (case listed of
              Inl _ \<Rightarrow> []
            | Inr objs \<Rightarrow> enqueue_requests ops ord pod (normalizedImageNamesFromPod parse pod) objs))"

definition ISM_mapPodToRequests ::
  "regexp_compile \<Rightarrow> selector_parse \<Rightarrow> PodFilter \<Rightarrow> ref_parser \<Rightarrow> (string list \<Rightarrow> string list) \<Rightarrow>
     (string \<Rightarrow> ImageSetMirror list result) \<Rightarrow> Pod \<Rightarrow> (string \<times> string) list" where
  "ISM_mapPodToRequests rx sel gf parse ord list_in pod =
     enqueueForPod (ISM_object rx sel) gf parse ord pod (list_in (pod_Namespace pod))"

definition CISM_mapPodToRequests ::
  "regexp_compile \<Rightarrow> selector_parse \<Rightarrow> PodFilter \<Rightarrow> ref_parser \<Rightarrow> (string list \<Rightarrow> string list) \<Rightarrow>
     ClusterImageSetMirror list result \<Rightarrow> Pod \<Rightarrow> (string \<times> string) list" where
  "CISM_mapPodToRequests rx sel gf parse ord listed pod =
     enqueueForPod (CISM_object rx sel) gf parse ord pod listed"

end
