(* ===== verification/MirrorReconciler.thy ===== *)
theory MirrorReconciler
  imports MirrorObject
begin

text \<open>
  The reconcile loop of \<open>mirror_reconciler.go\<close>, phase by phase: the deletion of a resource,
  the selection of its pods, the merge of its status, the clean-up of unused images and the
  mirroring of the others.
\<close>

section \<open>Deleting a resource\<close>

text \<open>The two nested loops over the mirrors of all matching images.\<close>

fun delete_mirrors :: "'o RecEnv \<Rightarrow> string \<Rightarrow> Mirror list \<Rightarrow> MirrorStatus list \<Rightarrow> 'o rec_action" where
  "delete_mirrors re ns mirrors [] st = (Inr (), st)"
| "delete_mirrors re ns mirrors (m # ms) st =
     (if mt_IsZero (ms_MirroredAt m) then delete_mirrors re ns mirrors ms st
      else and_then (cleanupMirror re (ms_Image m) ns mirrors st) (\<lambda>ok st1.
             if ok then delete_mirrors re ns mirrors ms st1
             else (Inl (EMsg ''could not cleanup mirrors''), st1)))"

text \<open>What is retried: an object that is gone ends the retries without an error.\<close>

definition remove_finalizer :: "'o RecEnv \<Rightarrow> 'o rec_action" where
  "remove_finalizer re st =
     (case get_object re st of
        (Inl e, st1) \<Rightarrow> ((case IgnoreNotFound e of None \<Rightarrow> Inr () | Some e' \<Rightarrow> Inl e'), st1)
      | (Inr _, st1) \<Rightarrow> update_object re (st1\<lparr>rc_obj := RemoveFinalizer (re_Ops re) (rc_obj st1)\<rparr>))"

definition reconcile_deletion :: "'o RecEnv \<Rightarrow> 'o RecState \<Rightarrow> int result \<times> 'o RecState" where
  "reconcile_deletion re st =
     (let ops = re_Ops re; x = rc_obj st
      in if ContainsFinalizer ops x then
           and_then (delete_mirrors re (om_Namespace (mo_Meta ops x)) (isb_Mirrors (mo_Spec ops x))
                       (concat (map mat_Mirrors (mo_Status ops x))) st)
             (\<lambda>_ st1. and_then (re_Retry re (remove_finalizer re) st1) (\<lambda>_ st2. (Inr 0, st2)))
         else (Inr 0, st))"

section \<open>Selecting pods\<close>

text \<open>\<open>None\<close>: the filter of the resource is invalid and the reconcile is skipped.\<close>

definition select_pods ::
  "'o RecEnv \<Rightarrow> string \<Rightarrow> 'o RecState \<Rightarrow> (Pod list \<times> (string \<Rightarrow> bool)) option result \<times> 'o RecState" where
  "select_pods re ns st =
     (case re_ListPods re (rc_events st) ns of
        Inl e \<Rightarrow> (Inl e, log_event (EvListPods ns) st)
      | Inr pods \<Rightarrow>
          (let st1 = log_event (EvListPods ns) st; x = rc_obj st1
           in (case mo_PodMatcher (re_Ops re) x of
                 Inl _ \<Rightarrow> (Inr None, log_event EvInvalidFilter st1)
               | Inr pm \<Rightarrow>
                   (case mo_ImageFilter (re_Ops re) x of
                      Inl _ \<Rightarrow> (Inr None, log_event EvInvalidFilter st1)
                    | Inr match \<Rightarrow>
                        (Inr (Some (filter (\<lambda>p. \<not> (\<not> pm p \<or> \<not> PodFilter_Match (re_GlobalFilter re) p)) pods,
                                    match)), st1)))))"

definition add_finalizer :: "'o RecEnv \<Rightarrow> 'o rec_action" where
  "add_finalizer re st =
     and_then (get_object re st) (\<lambda>_ st1.
       update_object re (st1\<lparr>rc_obj := AddFinalizer (re_Ops re) (rc_obj st1)\<rparr>))"

definition ensure_finalizer :: "'o RecEnv \<Rightarrow> 'o rec_action" where
  "ensure_finalizer re st =
     (if \<not> ContainsFinalizer (re_Ops re) (rc_obj st) then re_Retry re (add_finalizer re) st
      else (Inr (), st))"

section \<open>Merging the status\<close>

definition list_prefixes ::
  "'o RecEnv \<Rightarrow> bool \<Rightarrow> 'o RecState \<Rightarrow> (string \<Rightarrow> string list) result \<times> 'o RecState" where
  "list_prefixes re ignoreNamespaces st =
     (case re_ListClusterMirrors re (rc_events st) of
        Inl e \<Rightarrow> (Inl e, log_event EvListClusterMirrors st)
      | Inr cisms \<Rightarrow>
          (let st1 = log_event EvListClusterMirrors st
           in (case re_ListMirrors re (rc_events st1) of
                 Inl e \<Rightarrow> (Inl e, log_event EvListMirrors st1)
               | Inr isms \<Rightarrow>
                   (Inr (getAllMirrorPrefixes cisms isms ignoreNamespaces), log_event EvListMirrors st1))))"

definition merge_status ::
  "'o RecEnv \<Rightarrow> Pod list \<Rightarrow> (string \<Rightarrow> bool) \<Rightarrow> (string \<Rightarrow> string list) \<Rightarrow> 'o RecState \<Rightarrow>
     (string \<times> Pod) list result \<times> 'o RecState" where
  "merge_status re pods match prefixes st =
     (let ops = re_Ops re; x = rc_obj st
      in (case mergePreviousAndCurrentMatchingImages (env_ParseNamed (re_Net re)) (re_Originals re)
                 (re_Order re) (re_Now re (rc_events st)) pods (isb_Mirrors (mo_Spec ops x))
                 (mo_Status ops x) prefixes match of
            Inl e \<Rightarrow> (Inl e, st)
          | Inr (byImage, status') \<Rightarrow>
              and_then (patch_status re x (st\<lparr>rc_obj := mo_SetStatus ops status' x\<rparr>))
                (\<lambda>_ st1. (Inr byImage, st1))))"

section \<open>Cleaning up unused images\<close>

definition delete_after :: "Cleanup \<Rightarrow> int \<Rightarrow> int \<Rightarrow> int" where
  "delete_after cleanup now since = i64 (cl_Retention cleanup - time_sub now since)"

definition sooner :: "int \<Rightarrow> int \<Rightarrow> int" where
  "sooner requeueAfter deleteAfter =
     (if requeueAfter = 0 \<or> deleteAfter < requeueAfter then deleteAfter else requeueAfter)"

text \<open>The mirrors of one unused image: those kept, the delay until the next and the failures.\<close>

fun cleanup_mirrors ::
  "'o RecEnv \<Rightarrow> string \<Rightarrow> ImageSetMirrorBase \<Rightarrow> int \<Rightarrow> MirrorStatus list \<Rightarrow> int \<Rightarrow> bool \<Rightarrow> 'o RecState \<Rightarrow>
     (MirrorStatus list \<times> int \<times> bool) result \<times> 'o RecState" where
  "cleanup_mirrors re ns spec since [] requeue failed st = (Inr ([], requeue, failed), st)"
| "cleanup_mirrors re ns spec since (m # ms) requeue failed st =
     (let deleteAfter = delete_after (isb_Cleanup spec) (re_Now re (rc_events st)) since;
          keep = (\<lambda>r st1. and_then r (\<lambda>(kept, rq, f) st2. (Inr (m # kept, rq, f), st2)))
      in if \<not> cl_Enabled (isb_Cleanup spec)
         then keep (cleanup_mirrors re ns spec since ms requeue failed st) st
         else if deleteAfter > 0
         then keep (cleanup_mirrors re ns spec since ms (sooner requeue deleteAfter) failed st) st
         else if ms_MirroredAt m \<noteq> None then
           and_then (cleanupMirror re (ms_Image m) ns (isb_Mirrors spec) st) (\<lambda>ok st1.
             if ok then cleanup_mirrors re ns spec since ms requeue failed st1
             else keep (cleanup_mirrors re ns spec since ms requeue True st1) st1)
         else cleanup_mirrors re ns spec since ms requeue failed st)"

text \<open>
  The loop over the images. It collects the images that stay, and writes the mirrors that are
  left into the images where they are: the third component is the status as the object holds
  it afterwards, before the first component replaces it.
\<close>

fun cleanup_images ::
  "'o RecEnv \<Rightarrow> string \<Rightarrow> ImageSetMirrorBase \<Rightarrow> MatchingImage list \<Rightarrow> int \<Rightarrow> bool \<Rightarrow> 'o RecState \<Rightarrow>
     (MatchingImage list \<times> MatchingImage list \<times> int \<times> bool) result \<times> 'o RecState" where
  "cleanup_images re ns spec [] requeue failed st = (Inr ([], [], requeue, failed), st)"
| "cleanup_images re ns spec (img # imgs) requeue failed st =
     (case mat_UnusedSince img of
        None \<Rightarrow>
          and_then (cleanup_images re ns spec imgs requeue failed st)
            (\<lambda>(stay, inplace, rq, f) st1. (Inr (img # stay, img # inplace, rq, f), st1))
      | Some since \<Rightarrow>
          and_then (cleanup_mirrors re ns spec since (mat_Mirrors img) requeue failed st)
            (\<lambda>(kept, rq1, f1) st1.
               and_then (cleanup_images re ns spec imgs rq1 f1 st1)
                 (\<lambda>(stay, inplace, rq, f) st2.
                    if length kept > 0
                    then (Inr (img\<lparr>mat_Mirrors := kept\<rparr> # stay, img\<lparr>mat_Mirrors := kept\<rparr> # inplace, rq, f), st2)
                    else (Inr (stay, img # inplace, rq, f), st2))))"

definition cleanup_unused :: "'o RecEnv \<Rightarrow> string \<Rightarrow> 'o RecState \<Rightarrow> (int \<times> bool) result \<times> 'o RecState" where
  "cleanup_unused re ns st =
     (let ops = re_Ops re; x = rc_obj st
      in and_then (cleanup_images re ns (mo_Spec ops x) (mo_Status ops x) 0 False st)
           (\<lambda>(stay, inplace, requeue, failed) st1.
              and_then (patch_status re (mo_SetStatus ops inplace x) (st1\<lparr>rc_obj := mo_SetStatus ops stay x\<rparr>))
                (\<lambda>_ st2. (Inr (requeue, failed), st2))))"

section \<open>Mirroring\<close>

fun mirror_mirrors ::
  "'o RecEnv \<Rightarrow> string \<Rightarrow> Mirror list \<Rightarrow> (string \<times> Pod) list \<Rightarrow> string \<Rightarrow> MirrorStatus list \<Rightarrow> bool \<Rightarrow>
     'o RecState \<Rightarrow> (MirrorStatus list \<times> bool) result \<times> 'o RecState" where
  "mirror_mirrors re ns mirrors byImage from [] failed st = (Inr ([], failed), st)"
| "mirror_mirrors re ns mirrors byImage from (m # ms) failed st =
     (if ms_MirroredAt m = None then
        and_then (mirrorImage re ns mirrors byImage from m st) (\<lambda>(err, m1) st1.
          and_then (mirror_mirrors re ns mirrors byImage from ms (failed \<or> err \<noteq> None) st1)
            (\<lambda>(ms', f) st2. (Inr (m1\<lparr>ms_LastError := err\<rparr> # ms', f), st2)))
      else
        and_then (mirror_mirrors re ns mirrors byImage from ms failed st)
          (\<lambda>(ms', f) st1. (Inr (m # ms', f), st1)))"

text \<open>
  \<open>for i := range status.MatchingImages\<close>: the number of rounds is fixed at the start, while
  each patch replaces the object that the next round indexes.
\<close>

fun mirror_images ::
  "'o RecEnv \<Rightarrow> string \<Rightarrow> (string \<times> Pod) list \<Rightarrow> nat list \<Rightarrow> bool \<Rightarrow> 'o RecState \<Rightarrow> bool result \<times> 'o RecState"
  where
  "mirror_images re ns byImage [] failed st = (Inr failed, st)"
| "mirror_images re ns byImage (i # is) failed st =
     (let ops = re_Ops re; original = rc_obj st; imgs = mo_Status ops original
      in if i \<ge> length imgs then (Inl (EPanic ''index out of range''), st)
         else if mat_UnusedSince (imgs ! i) \<noteq> None then mirror_images re ns byImage is failed st
         else
           and_then (mirror_mirrors re ns (isb_Mirrors (mo_Spec ops original)) byImage
                       (mat_Image (imgs ! i)) (mat_Mirrors (imgs ! i)) failed st)
             (\<lambda>(ms', f) st1.
                and_then (patch_status re original
                            (st1\<lparr>rc_obj := mo_SetStatus ops (imgs[i := (imgs ! i)\<lparr>mat_Mirrors := ms'\<rparr>]) original\<rparr>))
                  (\<lambda>_ st2. mirror_images re ns byImage is f st2)))"

section \<open>The reconcile loop\<close>

text \<open>The mirroring of the images in use and the outcome: the number is \<open>RequeueAfter\<close>.\<close>

definition mirror_and_report ::
  "'o RecEnv \<Rightarrow> string \<Rightarrow> (string \<times> Pod) list \<Rightarrow> int \<Rightarrow> bool \<Rightarrow> 'o RecState \<Rightarrow> int result \<times> 'o RecState" where
  "mirror_and_report re ns byImage requeueAfter someDeletionFailed st =
     and_then (mirror_images re ns byImage [0..<length (mo_Status (re_Ops re) (rc_obj st))] False st)
       (\<lambda>someMirrorFailed st1.
          (if someDeletionFailed then Inl (EMsg ''one or more image(s) could not be deleted'')
           else if someMirrorFailed then Inl (EMsg ''one or more image(s) could not be mirrored'')
           else if requeueAfter > 0 then Inr requeueAfter
           else Inr 0, st1))"

text \<open>Once the pods are selected.\<close>

definition reconcile_images ::
  "'o RecEnv \<Rightarrow> string \<Rightarrow> Pod list \<Rightarrow> (string \<Rightarrow> bool) \<Rightarrow> 'o RecState \<Rightarrow> int result \<times> 'o RecState" where
  "reconcile_images re ns pods match st =
     and_then (ensure_finalizer re st) (\<lambda>_ st1.
     and_then (list_prefixes re (ns = []) st1) (\<lambda>prefixes st2.
     and_then (merge_status re pods match prefixes st2) (\<lambda>byImage st3.
     and_then (cleanup_unused re ns st3) (\<lambda>(requeueAfter, someDeletionFailed) st4.
       mirror_and_report re ns byImage requeueAfter someDeletionFailed st4))))"

definition reconcile :: "'o RecEnv \<Rightarrow> 'o RecState \<Rightarrow> int result \<times> 'o RecState" where
  "reconcile re st =
     (case get_object re st of
        (Inl e, st1) \<Rightarrow> ((case IgnoreNotFound e of None \<Rightarrow> Inr 0 | Some e' \<Rightarrow> Inl e'), st1)
      | (Inr _, st1) \<Rightarrow>
          (let meta = mo_Meta (re_Ops re) (rc_obj st1); ns = om_Namespace meta
           in if \<not> mt_IsZero (om_DeletionTimestamp meta) then reconcile_deletion re st1
              else and_then (select_pods re ns st1) (\<lambda>sel st2.
                     case sel of
                       None \<Rightarrow> (Inr 0, st2)
                     | Some (pods, match) \<Rightarrow> reconcile_images re ns pods match st2)))"

text \<open>The two controllers: the same loop over the two kinds.\<close>

definition ISM_Reconcile ::
  "regexp_compile \<Rightarrow> selector_parse \<Rightarrow> ImageSetMirror RecEnv \<Rightarrow> ImageSetMirror RecState \<Rightarrow>
     int result \<times> ImageSetMirror RecState" where
  "ISM_Reconcile rx sel re st = reconcile (re\<lparr>re_Ops := ISM_object rx sel\<rparr>) st"

definition CISM_Reconcile ::
  "regexp_compile \<Rightarrow> selector_parse \<Rightarrow> ClusterImageSetMirror RecEnv \<Rightarrow> ClusterImageSetMirror RecState \<Rightarrow>
     int result \<times> ClusterImageSetMirror RecState" where
  "CISM_Reconcile rx sel re st = reconcile (re\<lparr>re_Ops := CISM_object rx sel\<rparr>) st"

section \<open>The events of a run\<close>

text \<open>The calls made between two states, all of them satisfying \<open>P\<close>.\<close>

definition logs :: "('o RecEvent \<Rightarrow> bool) \<Rightarrow> 'o RecState \<Rightarrow> 'o RecState \<Rightarrow> bool" where
  "logs P st st' \<longleftrightarrow> (\<exists>evs. rc_events st' = rc_events st @ evs \<and> list_all P evs)"

lemma logs_refl [simp, intro]: "logs P st st"
  by (simp add: logs_def)

lemma logs_trans [trans]: "logs P st st1 \<Longrightarrow> logs P st1 st2 \<Longrightarrow> logs P st st2"
  by (force simp: logs_def list_all_append)

lemma logs_mono: "logs P st st' \<Longrightarrow> (\<And>e. P e \<Longrightarrow> Q e) \<Longrightarrow> logs Q st st'"
  by (auto simp: logs_def list_all_iff)

lemma logs_event [simp]: "logs P st (log_event e st) = P e"
  by (auto simp: logs_def log_event_def)

lemma logs_obj [simp]:
  "logs P st (st'\<lparr>rc_obj := x\<rparr>) = logs P st st'" "logs P (st\<lparr>rc_obj := x\<rparr>) st' = logs P st st'"
  "logs P st (st'\<lparr>rc_sent := s\<rparr>) = logs P st st'" "logs P (st\<lparr>rc_sent := s\<rparr>) st' = logs P st st'"
  by (simp_all add: logs_def)

lemma log_event_obj [simp]: "log_event e (st\<lparr>rc_obj := x\<rparr>) = (log_event e st)\<lparr>rc_obj := x\<rparr>"
  by (simp add: log_event_def)

lemma logs_and_then:
  assumes "logs P st (snd r)" and "\<And>x s. r = (Inr x, s) \<Longrightarrow> logs P s (snd (f x s))"
  shows "logs P st (snd (and_then r f))"
proof (cases r)
  case (Pair v s)
  with assms show ?thesis by (cases v) (auto intro: logs_trans)
qed

lemma on_network_events [simp]: "rc_events (snd (on_network f st)) = rc_events st"
  "rc_obj (snd (on_network f st)) = rc_obj st"
  by (simp_all add: on_network_def split: prod.splits)

lemma logs_on_network [simp]: "logs P st (snd (on_network f st))"
  by (simp add: logs_def)

text \<open>\<open>RetryOnConflict\<close> runs the function, and again after each conflict, as often as it likes.\<close>

inductive retried :: "('s \<Rightarrow> unit result \<times> 's) \<Rightarrow> 's \<Rightarrow> unit result \<times> 's \<Rightarrow> bool"
  for fn :: "'s \<Rightarrow> unit result \<times> 's" where
  once: "retried fn st (fn st)"
| again: "fn st = (Inl (EConflict msg), st1) \<Longrightarrow> retried fn st1 r \<Longrightarrow> retried fn st r"

definition retry_contract :: "'o RecEnv \<Rightarrow> bool" where
  "retry_contract re \<longleftrightarrow> (\<forall>fn st. retried fn st (re_Retry re fn st))"

lemma retried_logs: "retried fn st r \<Longrightarrow> (\<And>st. logs P st (snd (fn st))) \<Longrightarrow> logs P st (snd r)"
  by (induction rule: retried.induct) (auto intro: logs_trans, metis logs_trans snd_conv)

lemma retry_logs:
  "retry_contract re \<Longrightarrow> (\<And>st. logs P st (snd (fn st))) \<Longrightarrow> logs P st (snd (re_Retry re fn st))"
  using retried_logs [of fn st "re_Retry re fn st" P] by (simp add: retry_contract_def)

text \<open>The last run is what a retry returns; every run before it ended in a conflict.\<close>

lemma retried_last: "retried fn st r \<Longrightarrow> \<exists>st1. r = fn st1"
  by (induction rule: retried.induct) auto

text \<open>Calls that read, and calls that neither delete an image nor patch the status.\<close>

fun reads_secret :: "'o RecEvent \<Rightarrow> bool" where
  "reads_secret (EvGetSecret _ _) = True"
| "reads_secret _ = False"

fun is_patch :: "'o RecEvent \<Rightarrow> bool" where
  "is_patch (EvPatchStatus _ _) = True"
| "is_patch _ = False"

definition plain_call :: "'o RecEvent \<Rightarrow> bool" where
  "plain_call ev \<longleftrightarrow> \<not> is_patch ev"

text \<open>The object that the first patch of the status returned, in a run from \<open>st\<close> to \<open>st'\<close>.\<close>

definition first_patch :: "'o RecEnv \<Rightarrow> 'o RecState \<Rightarrow> 'o RecState \<Rightarrow> 'o \<Rightarrow> bool" where
  "first_patch re st st' y \<longleftrightarrow>
     (\<exists>h original new evs. rc_events st' = rc_events st @ h @ EvPatchStatus original new # evs
        \<and> list_all plain_call h \<and> re_Patch re (rc_events st @ h) original new = Inr y)"

fun deletes :: "string \<Rightarrow> 'o RecEvent \<Rightarrow> bool" where
  "deletes img (EvDeleteImage d) = (d = img)"
| "deletes img _ = False"

fun no_delete :: "'o RecEvent \<Rightarrow> bool" where
  "no_delete (EvDeleteImage _) = False"
| "no_delete _ = True"

lemma no_delete_iff: "no_delete ev \<longleftrightarrow> (\<forall>img. \<not> deletes img ev)"
  by (cases ev) auto

lemma getPullSecret_logs [simp]: "logs P st (snd (getPullSecret re ns name st)) = P (EvGetSecret ns name)"
  by (simp add: getPullSecret_def)

lemma read_secrets_logs: "logs reads_secret st (snd (read_secrets re ns names st))"
  by (induction names arbitrary: st) (auto intro!: logs_and_then)

lemma getPullSecretsFromPods_logs: "logs reads_secret st (snd (getPullSecretsFromPods re byImage img st))"
  by (simp add: getPullSecretsFromPods_def read_secrets_logs split: option.splits)

lemma getImageSecretFromMirrors_logs:
  "logs reads_secret st (snd (getImageSecretFromMirrors re img ns mirrors st))"
  by (auto simp: getImageSecretFromMirrors_def intro!: logs_and_then split: option.splits)

lemma reads_secret_no_delete: "reads_secret e \<Longrightarrow> no_delete e"
  by (cases e) simp_all

lemma getImageSecret_obj [simp]: "rc_obj (snd (getImageSecretFromMirrors re img ns mirrors st)) = rc_obj st"
  by (simp add: getImageSecretFromMirrors_def getPullSecret_def and_then_def log_event_def
      split: option.splits sum.splits)

lemma cleanupMirror_logs:
  "logs (\<lambda>e. reads_secret e \<or> deletes img e) st (snd (cleanupMirror re img ns mirrors st))"
proof -
  let ?P = "\<lambda>e. reads_secret e \<or> deletes img e"
  obtain r st1 where r: "getImageSecretFromMirrors re img ns mirrors st = (r, st1)" by fastforce
  have 1: "logs ?P st st1"
    using getImageSecretFromMirrors_logs [of st re img ns mirrors] r
    by (auto intro: logs_mono)
  show ?thesis
  proof (cases "\<exists>secret. r = Inr (Some secret)")
    case False
    with r 1 show ?thesis by (auto simp: cleanupMirror_def split: sum.splits option.splits)
  next
    case True
    then obtain secret where "r = Inr (Some secret)" by blast
    let ?net = "on_network (DeleteImage (re_Net re) (WithPullSecrets [secret] (NewClient [])) img)
        (log_event (EvDeleteImage img) st1)"
    have "snd (cleanupMirror re img ns mirrors st) = snd ?net"
      by (simp add: cleanupMirror_def r \<open>r = Inr (Some secret)\<close> split: prod.splits sum.splits)
    moreover have "logs ?P st1 (snd ?net)"
      by (rule logs_trans [of _ _ "log_event (EvDeleteImage img) st1"]) simp_all
    ultimately show ?thesis using 1 by (auto intro: logs_trans)
  qed
qed

lemma deferred_check_logs: "logs P st (snd (deferred_check re destSecrets to err st))"
proof (cases "is_panic err")
  case False
  let ?net = "on_network (GetDescriptor (re_Early re) (re_Net re)
      (WithPullSecrets destSecrets (NewClient [])) (ms_Image to)) st"
  have "snd (deferred_check re destSecrets to err st) = snd ?net"
    using False by (simp add: deferred_check_def split: prod.splits option.splits)
  then show ?thesis by simp
qed (simp add: deferred_check_def)

lemma copy_image_logs [simp]: "logs P st (snd (copy_image re destSecrets desc dest st))"
  by (simp add: copy_image_def Let_def)

lemma mirrorImage_logs: "logs no_delete st (snd (mirrorImage re ns mirrors byImage from to st))"
proof -
  obtain r1 st1 where r1: "getPullSecretsFromPods re byImage from st = (r1, st1)" by fastforce
  have l1: "logs no_delete st st1"
    using getPullSecretsFromPods_logs [of st re byImage "from"] r1
    by (auto intro: logs_mono reads_secret_no_delete)
  obtain r2 st2 where r2: "getImageSecretFromMirrors re (ms_Image to) ns mirrors st1 = (r2, st2)" by fastforce
  have l2: "logs no_delete st1 st2"
    using getImageSecretFromMirrors_logs [of st1 re "ms_Image to" ns mirrors] r2
    by (auto intro: logs_mono reads_secret_no_delete)
  show ?thesis
  proof (cases "\<exists>src secret. r1 = Inr src \<and> r2 = Inr secret")
    case False
    with r1 r2 l1 l2 show ?thesis by (auto simp: mirrorImage_def intro: logs_trans split: sum.splits)
  next
    case True
    then obtain src secret where ok: "r1 = Inr src" "r2 = Inr secret" by blast
    obtain desc e st3 where g: "on_network (GetDescriptor (re_Early re) (re_Net re)
        (WithPullSecrets src (NewClient [])) from) st2 = ((desc, e), st3)" by (metis prod.exhaust)
    have l3: "logs no_delete st2 st3" using logs_on_network [of no_delete st2] g by (metis snd_conv)
    let ?log = "log_event (EvCopyImage from (ms_Image to)) st3"
    let ?ds = "[case secret of None \<Rightarrow> zero_secret | Some s \<Rightarrow> s]"
    have l4: "logs no_delete st3 (snd (copy_image re ?ds desc (ms_Image to) ?log))"
      by (rule logs_trans [of _ _ ?log]) simp_all
    obtain r4 st4 where c: "copy_image re ?ds desc (ms_Image to) ?log = (r4, st4)" by fastforce
    have "logs no_delete st3 (snd (mirrorImage re ns mirrors byImage from to st))"
      using r1 r2 ok g c l4 deferred_check_logs [of no_delete st3] deferred_check_logs [of no_delete st4]
      by (auto simp: mirrorImage_def Let_def intro: logs_trans split: option.splits sum.splits)
    with l1 l2 l3 show ?thesis by (blast intro: logs_trans)
  qed
qed

lemma api_logs [simp]:
  "logs P st (snd (get_object re st)) = P EvGet"
  "logs P st (snd (update_object re st)) = P (EvUpdate (rc_obj st))"
  "logs P st (snd (patch_status re original st)) = P (EvPatchStatus original (rc_obj st))"
  by (simp_all add: get_object_def update_object_def patch_status_def split: sum.splits)

lemma api_logs_obj [simp]:
  "logs P st (snd (update_object re (st\<lparr>rc_obj := x\<rparr>))) = P (EvUpdate x)"
  "logs P st (snd (patch_status re original (st\<lparr>rc_obj := x\<rparr>))) = P (EvPatchStatus original x)"
  by (simp_all add: update_object_def patch_status_def split: sum.splits)

lemma mirror_mirrors_logs:
  "logs no_delete st (snd (mirror_mirrors re ns mirrors byImage from ms failed st))"
  by (induction ms arbitrary: failed st) (auto intro!: logs_and_then mirrorImage_logs)

lemma mirror_images_logs: "logs no_delete st (snd (mirror_images re ns byImage is failed st))"
proof (induction "is" arbitrary: failed st)
  case Nil
  then show ?case by simp
next
  case (Cons i "is")
  show ?case
    using Cons.IH by (auto simp: Let_def intro!: logs_and_then mirror_mirrors_logs)
qed

lemma add_finalizer_logs: "P EvGet \<Longrightarrow> (\<And>x. P (EvUpdate x)) \<Longrightarrow> logs P st (snd (add_finalizer re st))"
  by (auto simp: add_finalizer_def intro!: logs_and_then)

lemma remove_finalizer_logs: "logs no_delete st (snd (remove_finalizer re st))"
proof (cases "get_object re st")
  case (Pair r st1)
  have "logs no_delete st st1" using api_logs(1) [of no_delete st re] Pair by simp
  with Pair show ?thesis
    by (cases r) (auto simp: remove_finalizer_def intro: logs_trans [of _ _ st1])
qed

lemma ensure_finalizer_logs:
  "retry_contract re \<Longrightarrow> P EvGet \<Longrightarrow> (\<And>x. P (EvUpdate x)) \<Longrightarrow> logs P st (snd (ensure_finalizer re st))"
  by (simp add: ensure_finalizer_def retry_logs add_finalizer_logs)

lemma list_prefixes_logs:
  "P EvListClusterMirrors \<Longrightarrow> P EvListMirrors \<Longrightarrow> logs P st (snd (list_prefixes re ign st))"
  by (auto simp: list_prefixes_def Let_def logs_def log_event_def split: sum.splits)

lemma merge_status_logs: "logs no_delete st (snd (merge_status re pods match prefixes st))"
  by (auto simp: merge_status_def Let_def intro!: logs_and_then split: sum.splits prod.splits)

lemma select_pods_logs:
  "(\<And>ns. P (EvListPods ns)) \<Longrightarrow> P EvInvalidFilter \<Longrightarrow> logs P st (snd (select_pods re ns st))"
  by (auto simp: select_pods_def Let_def logs_def log_event_def split: sum.splits)

lemma mirror_and_report_logs:
  "logs no_delete st (snd (mirror_and_report re ns byImage requeue failed st))"
  by (auto simp: mirror_and_report_def intro!: logs_and_then mirror_images_logs)

section \<open>Only expired images are deleted\<close>

text \<open>
  An entry of the status that the clean-up may delete: mirrored, of an image marked unused, by
  a resource whose clean-up is enabled, at a time when its retention was over.
\<close>

definition expired_entry ::
  "'o RecEnv \<Rightarrow> ImageSetMirrorBase \<Rightarrow> MatchingImage list \<Rightarrow> string \<Rightarrow> bool" where
  "expired_entry re spec imgs d \<longleftrightarrow>
     (\<exists>img\<in>set imgs. \<exists>since h. \<exists>m\<in>set (mat_Mirrors img).
        mat_UnusedSince img = Some since \<and> ms_Image m = d \<and> ms_MirroredAt m \<noteq> None
        \<and> cl_Enabled (isb_Cleanup spec) \<and> delete_after (isb_Cleanup spec) (re_Now re h) since \<le> 0)"

definition deletes_only :: "(string \<Rightarrow> bool) \<Rightarrow> 'o RecEvent \<Rightarrow> bool" where
  "deletes_only D ev \<longleftrightarrow> (\<forall>d. deletes d ev \<longrightarrow> D d)"

lemma no_delete_deletes_only: "no_delete ev \<Longrightarrow> deletes_only D ev"
  by (simp add: no_delete_iff deletes_only_def)

lemma deletes_unique: "deletes a ev \<Longrightarrow> deletes b ev \<Longrightarrow> a = b"
  by (cases ev) simp_all

lemma cleanupMirror_deletes_only: "D img \<Longrightarrow> logs (deletes_only D) st (snd (cleanupMirror re img ns mirrors st))"
  by (rule logs_mono [OF cleanupMirror_logs])
    (auto simp: deletes_only_def dest: deletes_unique dest!: reads_secret_no_delete simp: no_delete_iff)

lemma cleanup_mirrors_logs:
  assumes "\<And>m h. m \<in> set ms \<Longrightarrow> ms_MirroredAt m \<noteq> None \<Longrightarrow> cl_Enabled (isb_Cleanup spec) \<Longrightarrow>
      delete_after (isb_Cleanup spec) (re_Now re h) since \<le> 0 \<Longrightarrow> D (ms_Image m)"
  shows "logs (deletes_only D) st (snd (cleanup_mirrors re ns spec since ms requeue failed st))"
  using assms
proof (induction ms arbitrary: requeue failed st)
  case Nil
  then show ?case by simp
next
  case (Cons m ms)
  have IH: "logs (deletes_only D) s (snd (cleanup_mirrors re ns spec since ms rq f s))" for rq f s
    using Cons.prems by (intro Cons.IH) auto
  have D: "D (ms_Image m)" if "ms_MirroredAt m \<noteq> None" "cl_Enabled (isb_Cleanup spec)"
      "\<not> delete_after (isb_Cleanup spec) (re_Now re (rc_events st)) since > 0"
    using Cons.prems [of m "rc_events st"] that by auto
  show ?case
    using IH D by (auto simp: Let_def intro!: logs_and_then cleanupMirror_deletes_only)
qed

lemma cleanup_images_logs:
  assumes "\<And>d. expired_entry re spec imgs d \<Longrightarrow> D d"
  shows "logs (deletes_only D) st (snd (cleanup_images re ns spec imgs requeue failed st))"
  using assms
proof (induction imgs arbitrary: requeue failed st)
  case Nil
  then show ?case by simp
next
  case (Cons img imgs)
  have tail: "D d" if "expired_entry re spec imgs d" for d
    using Cons.prems [of d] that by (auto simp: expired_entry_def)
  have IH: "logs (deletes_only D) s (snd (cleanup_images re ns spec imgs rq f s))" for rq f s
    using tail by (intro Cons.IH)
  show ?case
  proof (cases "mat_UnusedSince img")
    case None
    then show ?thesis using IH by (auto intro!: logs_and_then)
  next
    case (Some since)
    have "logs (deletes_only D) st (snd (cleanup_mirrors re ns spec since (mat_Mirrors img) requeue failed st))"
      using Cons.prems Some by (intro cleanup_mirrors_logs) (auto simp: expired_entry_def)
    then show ?thesis using Some IH by (auto intro!: logs_and_then)
  qed
qed

lemma cleanup_unused_logs:
  "logs (deletes_only (expired_entry re (mo_Spec (re_Ops re) (rc_obj st)) (mo_Status (re_Ops re) (rc_obj st))))
     st (snd (cleanup_unused re ns st))"
  by (auto simp: cleanup_unused_def Let_def deletes_only_def intro!: logs_and_then cleanup_images_logs)

lemma merge_status_result:
  assumes "merge_status re pods match prefixes st = (Inr byImage, st1)"
  shows "\<exists>status'. let ops = re_Ops re; new = mo_SetStatus ops status' (rc_obj st) in
     mergePreviousAndCurrentMatchingImages (env_ParseNamed (re_Net re)) (re_Originals re)
        (re_Order re) (re_Now re (rc_events st)) pods (isb_Mirrors (mo_Spec ops (rc_obj st)))
        (mo_Status ops (rc_obj st)) prefixes match = Inr (byImage, status')
     \<and> re_Patch re (rc_events st) (rc_obj st) new = Inr (rc_obj st1)
     \<and> rc_events st1 = rc_events st @ [EvPatchStatus (rc_obj st) new]"
  using assms
  by (auto simp: merge_status_def Let_def patch_status_def log_event_def elim!: and_then_InrE
      split: sum.splits prod.splits)

lemma list_prefixes_obj: "rc_obj (snd (list_prefixes re ign st)) = rc_obj st"
  by (auto simp: list_prefixes_def Let_def log_event_def split: sum.splits)

text \<open>
  The deletions of a run once its pods are selected: each one is of an expired entry of the
  object that the first patch of the status returned.
\<close>

lemma reconcile_images_logs:
  assumes retry: "retry_contract re"
    and D: "\<And>s1 s2 prefixes byImage s3 d.
       ensure_finalizer re st = (Inr (), s1) \<Longrightarrow> list_prefixes re (ns = []) s1 = (Inr prefixes, s2) \<Longrightarrow>
       merge_status re pods match prefixes s2 = (Inr byImage, s3) \<Longrightarrow>
       first_patch re st (snd (reconcile_images re ns pods match st)) (rc_obj s3) \<Longrightarrow>
       expired_entry re (mo_Spec (re_Ops re) (rc_obj s3)) (mo_Status (re_Ops re) (rc_obj s3)) d \<Longrightarrow> D d"
  shows "logs (deletes_only D) st (snd (reconcile_images re ns pods match st))"
proof -
  have nd: "logs no_delete s s' \<Longrightarrow> logs (deletes_only D') s s'" for D' and s s' :: "'a RecState"
    by (erule logs_mono) (rule no_delete_deletes_only)
  have e: "logs no_delete st (snd (ensure_finalizer re st))" "logs plain_call st (snd (ensure_finalizer re st))"
    by (intro ensure_finalizer_logs retry; simp add: plain_call_def)+
  have l: "logs no_delete s (snd (list_prefixes re ign s))" "logs plain_call s (snd (list_prefixes re ign s))" for ign s
    by (intro list_prefixes_logs; simp add: plain_call_def)+
  let ?tail = "\<lambda>byImage s3. and_then (cleanup_unused re ns s3) (\<lambda>(requeueAfter, someDeletionFailed) st4.
       mirror_and_report re ns byImage requeueAfter someDeletionFailed st4)"
  have tail: "logs (deletes_only D') s3 (snd (?tail byImage s3))"
    if "\<And>d. expired_entry re (mo_Spec (re_Ops re) (rc_obj s3)) (mo_Status (re_Ops re) (rc_obj s3)) d \<Longrightarrow> D' d"
    for D' byImage s3
  proof (rule logs_and_then)
    show "logs (deletes_only D') s3 (snd (cleanup_unused re ns s3))"
      by (rule logs_mono [OF cleanup_unused_logs]) (use that in \<open>auto simp: deletes_only_def\<close>)
  qed (auto intro: nd mirror_and_report_logs split: prod.splits)
  show ?thesis
  proof (cases "\<exists>s1 prefixes s2 byImage s3. ensure_finalizer re st = (Inr (), s1)
      \<and> list_prefixes re (ns = []) s1 = (Inr prefixes, s2) \<and> merge_status re pods match prefixes s2 = (Inr byImage, s3)")
    case False
    have "logs no_delete st (snd (reconcile_images re ns pods match st))"
      unfolding reconcile_images_def
      by (intro logs_and_then e(1) l(1) merge_status_logs) (use False in auto)
    then show ?thesis by (rule nd)
  next
    case True
    then obtain s1 prefixes s2 byImage s3 where s: "ensure_finalizer re st = (Inr (), s1)"
      "list_prefixes re (ns = []) s1 = (Inr prefixes, s2)" "merge_status re pods match prefixes s2 = (Inr byImage, s3)"
      by blast
    have run: "reconcile_images re ns pods match st = ?tail byImage s3" by (simp add: reconcile_images_def s)
    have l12: "logs no_delete st s2" "logs plain_call st s2"
      using e l [of s1 "ns = []"] s by (auto intro: logs_trans)
    obtain new where m: "re_Patch re (rc_events s2) (rc_obj s2) new = Inr (rc_obj s3)"
      "rc_events s3 = rc_events s2 @ [EvPatchStatus (rc_obj s2) new]"
      using merge_status_result [OF s(3)] by (auto simp: Let_def)
    obtain evs where "rc_events (snd (?tail byImage s3)) = rc_events s3 @ evs"
      using tail [of s3 "\<lambda>_. True" byImage] by (auto simp: logs_def)
    with m l12(2) have fp: "first_patch re st (snd (reconcile_images re ns pods match st)) (rc_obj s3)"
      by (auto simp: run first_patch_def logs_def) blast
    have "logs (deletes_only D) s3 (snd (?tail byImage s3))"
      by (rule tail) (rule D [OF s fp])
    moreover have "logs (deletes_only D) s2 s3"
      using merge_status_logs [of s2 re pods match prefixes] s(3) by (auto intro: nd)
    ultimately show ?thesis unfolding run using nd [OF l12(1)] by (blast intro: logs_trans)
  qed
qed

section \<open>Images in use are never deleted\<close>

text \<open>
  Hypotheses on the API server: nobody else writes the status while the reconcile runs, so a
  patch returns the status it was sent; what it serves is well formed.
\<close>

definition keeps_status :: "'o RecEnv \<Rightarrow> bool" where
  "keeps_status re \<longleftrightarrow> (\<forall>h original new x. re_Patch re h original new = Inr x \<longrightarrow>
     mo_Status (re_Ops re) x = mo_Status (re_Ops re) new)"

definition serves_wf :: "'o RecEnv \<Rightarrow> bool" where
  "serves_wf re \<longleftrightarrow>
     (\<forall>h x. re_Get re h = Inr x \<longrightarrow> wf_status (env_ParseNamed (re_Net re)) (mo_Status (re_Ops re) x))
     \<and> (\<forall>h y x. re_Update re h y = Inr x \<longrightarrow> wf_status (env_ParseNamed (re_Net re)) (mo_Status (re_Ops re) x))"

text \<open>The pods a reconcile of \<open>x\<close> looks at, out of those listed.\<close>

definition selected :: "'o RecEnv \<Rightarrow> (Pod \<Rightarrow> bool) \<Rightarrow> Pod list \<Rightarrow> Pod list" where
  "selected re pm pods = filter (\<lambda>p. pm p \<and> PodFilter_Match (re_GlobalFilter re) p) pods"

definition uses :: "'o RecEnv \<Rightarrow> Pod list \<Rightarrow> string \<Rightarrow> bool" where
  "uses re pods img \<longleftrightarrow> img \<in> set (podsInUseImages (env_ParseNamed (re_Net re)) (re_Originals re) pods)"

lemma update_object_result:
  "update_object re st = (Inr u, st1) \<Longrightarrow> \<exists>h y. re_Update re h y = Inr (rc_obj st1)"
  by (auto simp: update_object_def split: sum.splits) blast

lemma ensure_finalizer_wf:
  assumes "retry_contract re" and "serves_wf re" and "ensure_finalizer re st = (Inr u, st1)"
    and "wf_status (env_ParseNamed (re_Net re)) (mo_Status (re_Ops re) (rc_obj st))"
  shows "wf_status (env_ParseNamed (re_Net re)) (mo_Status (re_Ops re) (rc_obj st1))"
proof (cases "ContainsFinalizer (re_Ops re) (rc_obj st)")
  case True
  with assms(3,4) show ?thesis by (simp add: ensure_finalizer_def)
next
  case False
  then have "retried (add_finalizer re) st (Inr u, st1)"
    using assms(1,3) unfolding retry_contract_def ensure_finalizer_def by (metis (mono_tags, lifting))
  then obtain s where "add_finalizer re s = (Inr u, st1)" using retried_last by metis
  then have "\<exists>h y. re_Update re h y = Inr (rc_obj st1)"
    by (auto simp: add_finalizer_def elim!: and_then_InrE dest: update_object_result)
  with assms(2) show ?thesis by (auto simp: serves_wf_def)
qed

lemma unused_entry_not_used:
  assumes "range_order ord" and "normalizing parse" and "wf_status parse status"
    and "mergePreviousAndCurrentMatchingImages parse originals ord now pods mirrors status prefixes match
       = Inr (byImage, status')"
    and "i \<in> set status'" and "mat_UnusedSince i = Some since"
  shows "\<exists>n. parse (mat_Image i) = Inr n
    \<and> \<not> (match (nmd_String n) \<and> nmd_String n \<in> set (podsInUseImages parse originals pods))"
proof -
  let ?up = "refreshed parse now match (set (podsInUseImages parse originals pods))
      (expected_for mirrors (set (keys (podsByNormalizedMatchingImages parse ord match prefixes pods))))"
  note spec = merge_spec [OF assms(1-3) refl refl, where match = match and prefixes = prefixes and pods = pods
      and originals = originals and now = now and mirrors = mirrors]
  from spec assms(4) have wf: "wf_status parse status'"
    and set: "set status' \<subseteq> ?up ` set status \<union> range (new_entry mirrors)" by auto
  from wf assms(5) obtain n where n: "parse (mat_Image i) = Inr n"
    by (auto simp: wf_status_def list_all_iff is_ok_iff)
  from set assms(5,6) obtain j where "i = ?up j" by (auto simp: new_entry_def)
  then have "mat_UnusedSince i =
      unused_since now (match (nmd_String n)) (nmd_String n \<in> set (podsInUseImages parse originals pods)) (mat_UnusedSince j)"
    using n by (simp add: refreshed_def Let_def norm_key_def)
  with assms(6) n show ?thesis by (auto simp: unused_since_def split: if_splits)
qed

text \<open>The entry a deletion belongs to, and why its image is not in use.\<close>

definition unused_entry :: "'o RecEnv \<Rightarrow> (string \<Rightarrow> bool) \<Rightarrow> Pod list \<Rightarrow> MatchingImage list \<Rightarrow> string \<Rightarrow> bool" where
  "unused_entry re match pods imgs d \<longleftrightarrow>
     (\<exists>i\<in>set imgs. \<exists>n. d \<in> ms_Image ` set (mat_Mirrors i) \<and> env_ParseNamed (re_Net re) (mat_Image i) = Inr n
        \<and> \<not> (match (nmd_String n) \<and> uses re pods (nmd_String n)))"

context mirror_object
begin

lemma merged_entries_unused:
  assumes "re_Ops re = ops" and "keeps_status re" and "range_order (re_Order re)"
    and "normalizing (env_ParseNamed (re_Net re))"
    and "wf_status (env_ParseNamed (re_Net re)) (mo_Status ops (rc_obj st))"
    and "merge_status re pods match prefixes st = (Inr byImage, st1)"
    and "i \<in> set (mo_Status ops (rc_obj st1))" and "mat_UnusedSince i = Some since"
  shows "\<exists>n. env_ParseNamed (re_Net re) (mat_Image i) = Inr n
    \<and> \<not> (match (nmd_String n) \<and> uses re pods (nmd_String n))"
proof -
  from merge_status_result [OF assms(6)] obtain status' where m:
    "mergePreviousAndCurrentMatchingImages (env_ParseNamed (re_Net re)) (re_Originals re)
        (re_Order re) (re_Now re (rc_events st)) pods (isb_Mirrors (mo_Spec ops (rc_obj st)))
        (mo_Status ops (rc_obj st)) prefixes match = Inr (byImage, status')"
    and p: "re_Patch re (rc_events st) (rc_obj st) (mo_SetStatus ops status' (rc_obj st)) = Inr (rc_obj st1)"
    by (auto simp: Let_def assms(1))
  from p assms(1,2) have "mo_Status ops (rc_obj st1) = status'" by (auto simp: keeps_status_def)
  with assms(7) have "i \<in> set status'" by simp
  from unused_entry_not_used [OF assms(3,4,5) m this assms(8)] show ?thesis by (simp add: uses_def)
qed

lemma reconcile_logs:
  assumes "re_Ops re = ops" and "retry_contract re" and get: "re_Get re (rc_events st) = Inr x"
    and "mt_IsZero (om_DeletionTimestamp (mo_Meta ops x))"
    and D: "\<And>pods pm match s0 s1 s2 prefixes byImage s3 d.
       re_ListPods re (rc_events st @ [EvGet]) (om_Namespace (mo_Meta ops x)) = Inr pods \<Longrightarrow>
       mo_PodMatcher ops x = Inr pm \<Longrightarrow> mo_ImageFilter ops x = Inr match \<Longrightarrow> rc_obj s0 = x \<Longrightarrow>
       ensure_finalizer re s0 = (Inr (), s1) \<Longrightarrow> rc_obj s2 = rc_obj s1 \<Longrightarrow>
       merge_status re (selected re pm pods) match prefixes s2 = (Inr byImage, s3) \<Longrightarrow>
       first_patch re st (snd (reconcile re st)) (rc_obj s3) \<Longrightarrow>
       expired_entry re (mo_Spec ops (rc_obj s3)) (mo_Status ops (rc_obj s3)) d \<Longrightarrow> D d"
  shows "logs (deletes_only D) st (snd (reconcile re st))"
proof -
  let ?st1 = "(log_event EvGet st)\<lparr>rc_obj := x\<rparr>" and ?ns = "om_Namespace (mo_Meta ops x)"
  have ev: "rc_events ?st1 = rc_events st @ [EvGet]" by (simp add: log_event_def)
  have run: "reconcile re st = and_then (select_pods re ?ns ?st1) (\<lambda>sel st2.
                     case sel of
                       None \<Rightarrow> (Inr 0, st2)
                     | Some (pods, match) \<Rightarrow> reconcile_images re ?ns pods match st2)"
    using assms(1,3,4) by (simp add: reconcile_def get_object_def Let_def cong: option.case_cong)
  have nd: "logs no_delete s s' \<Longrightarrow> logs (deletes_only D) s s'" for s s' :: "'a RecState"
    by (erule logs_mono) (rule no_delete_deletes_only)
  have sp: "logs no_delete ?st1 (snd (select_pods re ?ns ?st1))" "logs plain_call ?st1 (snd (select_pods re ?ns ?st1))"
    by (intro select_pods_logs; simp add: plain_call_def)+
  have "logs (deletes_only D) ?st1 (snd (reconcile re st))"
  proof (cases "\<exists>spods match st2. select_pods re ?ns ?st1 = (Inr (Some (spods, match)), st2)")
    case False
    then have "snd (reconcile re st) = snd (select_pods re ?ns ?st1)"
      unfolding run and_then_def by (auto split: prod.splits sum.splits option.splits)
    then show ?thesis using nd [OF sp(1)] by simp
  next
    case True
    then obtain spods match st2 where sel: "select_pods re ?ns ?st1 = (Inr (Some (spods, match)), st2)" by blast
    then obtain pods pm where l: "re_ListPods re (rc_events st @ [EvGet]) ?ns = Inr pods"
        "mo_PodMatcher ops x = Inr pm" "mo_ImageFilter ops x = Inr match" "rc_obj st2 = x"
        "spods = selected re pm pods"
      using assms(1) by (auto simp: select_pods_def Let_def ev selected_def log_event_def split: sum.splits)
    have r2: "reconcile re st = reconcile_images re ?ns spods match st2" by (simp add: run sel)
    have p2: "logs plain_call st st2" "logs no_delete st st2"
      by (rule logs_trans [of _ _ "log_event EvGet st"], simp add: plain_call_def, use sp sel in simp)+
    have fp: "first_patch re st s y" if "first_patch re st2 s y" for s y
    proof -
      from that obtain h original new evs where h: "rc_events s = rc_events st2 @ h @ EvPatchStatus original new # evs"
        "list_all plain_call h" "re_Patch re (rc_events st2 @ h) original new = Inr y" by (auto simp: first_patch_def)
      from p2(1) obtain h0 where "rc_events st2 = rc_events st @ h0" "list_all plain_call h0" by (auto simp: logs_def)
      with h show ?thesis unfolding first_patch_def
        by (intro exI [of _ "h0 @ h"] exI [of _ original] exI [of _ new] exI [of _ evs]) simp
    qed
    have "logs (deletes_only D) st2 (snd (reconcile_images re ?ns spods match st2))"
    proof (rule reconcile_images_logs [OF assms(2)])
      fix s1 s2 prefixes byImage s3 d
      assume "ensure_finalizer re st2 = (Inr (), s1)" "list_prefixes re (?ns = []) s1 = (Inr prefixes, s2)"
        "merge_status re spods match prefixes s2 = (Inr byImage, s3)"
        "first_patch re st2 (snd (reconcile_images re ?ns spods match st2)) (rc_obj s3)"
        "expired_entry re (mo_Spec (re_Ops re) (rc_obj s3)) (mo_Status (re_Ops re) (rc_obj s3)) d"
      then show "D d"
        using D [OF l(1-4)] l(5) assms(1) list_prefixes_obj [of re "?ns = []" s1] fp r2 by auto
    qed
    moreover have "logs (deletes_only D) ?st1 st2" using nd [OF sp(1)] sel by simp
    ultimately show ?thesis unfolding r2 by (blast intro: logs_trans)
  qed
  then have "logs (deletes_only D) (log_event EvGet st) (snd (reconcile re st))" by (simp only: logs_obj)
  moreover have "logs (deletes_only D) st (log_event EvGet st)" by (simp add: deletes_only_def)
  ultimately show ?thesis by (blast intro: logs_trans)
qed

lemma expired_deletions_only:
  assumes "re_Ops re = ops" and "retry_contract re" and "re_Get re (rc_events st) = Inr x"
    and "mt_IsZero (om_DeletionTimestamp (mo_Meta ops x))"
  shows "logs (deletes_only (\<lambda>d. \<exists>y. first_patch re st (snd (reconcile re st)) y
      \<and> expired_entry re (mo_Spec ops y) (mo_Status ops y) d)) st (snd (reconcile re st))"
  by (rule reconcile_logs [OF assms]) blast

lemma unused_deletions_only:
  assumes "re_Ops re = ops" and "retry_contract re" and "re_Get re (rc_events st) = Inr x"
    and "mt_IsZero (om_DeletionTimestamp (mo_Meta ops x))"
    and "keeps_status re" and "serves_wf re" and "range_order (re_Order re)"
    and "normalizing (env_ParseNamed (re_Net re))"
  shows "logs (deletes_only (\<lambda>d. \<exists>y pods pm match. first_patch re st (snd (reconcile re st)) y
      \<and> re_ListPods re (rc_events st @ [EvGet]) (om_Namespace (mo_Meta ops x)) = Inr pods
      \<and> mo_PodMatcher ops x = Inr pm \<and> mo_ImageFilter ops x = Inr match
      \<and> unused_entry re match (selected re pm pods) (mo_Status ops y) d)) st (snd (reconcile re st))"
proof (rule reconcile_logs [OF assms(1-4)])
  fix pods pm match s0 s1 s2 prefixes byImage s3 d
  assume l: "re_ListPods re (rc_events st @ [EvGet]) (om_Namespace (mo_Meta ops x)) = Inr pods"
    "mo_PodMatcher ops x = Inr pm" "mo_ImageFilter ops x = Inr match"
    and s0: "rc_obj s0 = x" and f: "ensure_finalizer re s0 = (Inr (), s1)" and s2: "rc_obj s2 = rc_obj s1"
    and m: "merge_status re (selected re pm pods) match prefixes s2 = (Inr byImage, s3)"
    and fp: "first_patch re st (snd (reconcile re st)) (rc_obj s3)"
    and e: "expired_entry re (mo_Spec ops (rc_obj s3)) (mo_Status ops (rc_obj s3)) d"
  have "wf_status (env_ParseNamed (re_Net re)) (mo_Status ops x)"
    using assms(1,3,6) by (auto simp: serves_wf_def)
  then have wf: "wf_status (env_ParseNamed (re_Net re)) (mo_Status ops (rc_obj s2))"
    using ensure_finalizer_wf [OF assms(2,6) f] s0 s2 assms(1) by simp
  from e obtain i since where i: "i \<in> set (mo_Status ops (rc_obj s3))" "mat_UnusedSince i = Some since"
    "d \<in> ms_Image ` set (mat_Mirrors i)" by (auto simp: expired_entry_def)
  from merged_entries_unused [OF assms(1,5,7,8) wf m i(1,2)] i(1,3)
  have "unused_entry re match (selected re pm pods) (mo_Status ops (rc_obj s3)) d"
    unfolding unused_entry_def by blast
  with l fp show "\<exists>y pods pm match. first_patch re st (snd (reconcile re st)) y
      \<and> re_ListPods re (rc_events st @ [EvGet]) (om_Namespace (mo_Meta ops x)) = Inr pods
      \<and> mo_PodMatcher ops x = Inr pm \<and> mo_ImageFilter ops x = Inr match
      \<and> unused_entry re match (selected re pm pods) (mo_Status ops y) d" by blast
qed

end

end
