(* ===== verification/Alternatives.thy ===== *)
theory Alternatives
  imports References Parallel "HOL-Library.Product_Lexorder"
begin

text \<open>
  The routing decision of \<open>internal/webhook/core/v1/pod_webhook.go\<close>: the alternatives of
  one container image (\<open>buildAlternativesList\<close>), their two-level priority order
  (\<open>compareAlternatives\<close>, shown to satisfy the contract \<open>comparator\<close> of the sort), their
  pull secrets, and the choice of the first available one (\<open>findBestAlternative\<close>).
\<close>

section \<open>Data\<close>

datatype crTypeOrder =
    crTypeOrderOriginal
  | crTypeOrderCISM
  | crTypeOrderISM
  | crTypeOrderCRIS
  | crTypeOrderRIS

fun type_rank :: "crTypeOrder \<Rightarrow> nat" where
  "type_rank crTypeOrderOriginal = 0"
| "type_rank crTypeOrderCISM = 1"
| "type_rank crTypeOrderISM = 2"
| "type_rank crTypeOrderCRIS = 3"
| "type_rank crTypeOrderRIS = 4"

lemma type_rank_inj: "type_rank x = type_rank y \<Longrightarrow> x = y"
  by (cases x; cases y) auto

text \<open>The constants are an \<open>iota\<close>: they compare as their ranks.\<close>

instantiation crTypeOrder :: linorder
begin

definition less_eq_crTypeOrder :: "crTypeOrder \<Rightarrow> crTypeOrder \<Rightarrow> bool" where
  "x \<le> y \<longleftrightarrow> type_rank x \<le> type_rank y"

definition less_crTypeOrder :: "crTypeOrder \<Rightarrow> crTypeOrder \<Rightarrow> bool" where
  "x < y \<longleftrightarrow> type_rank x < type_rank y"

instance
  by standard (auto simp: less_eq_crTypeOrder_def less_crTypeOrder_def intro: type_rank_inj)

end

lemma original_least: "x \<noteq> crTypeOrderOriginal \<Longrightarrow> crTypeOrderOriginal < x"
  by (cases x) (simp_all add: less_crTypeOrder_def)

text \<open>
  \<open>SecretOwner\<close> is a \<open>client.Object\<close>; the webhook stores an (flattened) image set mirror or
  replicated image set in it, or nil for the original image.
\<close>

datatype SecretOwner = OwnerISM ImageSetMirror | OwnerRIS ReplicatedImageSet

record AlternativeImage =
  alt_Reference :: string
  alt_CredentialSecret :: "CredentialSecret option"
  alt_ImagePullSecret :: "Secret option"
  alt_SecretOwner :: "SecretOwner option"

text \<open>
  The webhook's \<open>Container\<close>: the pod container it points to (its index in the pod and the
  fields read through the pointer), and the alternatives; the keys of the map
  \<open>Alternatives\<close> are kept in the order of insertion.
\<close>

record Container =
  con_Index :: nat
  con_Container :: PodContainer
  con_IsInit :: bool
  con_NormalizedImage :: string
  con_Images :: "AlternativeImage list"
  con_Alternatives :: "string list"

record prioritizedAlternative =
  pa_reference :: string
  pa_credentialSecret :: "CredentialSecret option"
  pa_secretOwner :: "SecretOwner option"
  pa_crPriority :: "64 word"
  pa_intraPriority :: "64 word"
  pa_typeOrder :: crTypeOrder
  pa_declarationOrder :: nat

definition compareAlternatives :: "prioritizedAlternative \<Rightarrow> prioritizedAlternative \<Rightarrow> int" where
  "compareAlternatives a b =
     cmp_Or [cmp_Compare (sint (pa_crPriority a)) (sint (pa_crPriority b)),
             cmp_Compare (pa_typeOrder a) (pa_typeOrder b),
             cmp_Compare (pa_intraPriority a) (pa_intraPriority b),
             cmp_Compare (pa_declarationOrder a) (pa_declarationOrder b)]"

section \<open>Collecting\<close>

definition upstream_filter :: "regexp_compile \<Rightarrow> ReplicatedUpstream \<Rightarrow> (string \<Rightarrow> bool) result" where
  "upstream_filter rx upstream =
     ImageFilter_BuildWithRegistry rx (up_ImageFilter upstream) (up_Registry upstream)"

definition upstream_matches :: "regexp_compile \<Rightarrow> string \<Rightarrow> ReplicatedUpstream \<Rightarrow> bool" where
  "upstream_matches rx img upstream =
     (case upstream_filter rx upstream of Inl _ \<Rightarrow> False | Inr f \<Rightarrow> f img)"

definition ris_alternative ::
  "ReplicatedImageSet \<Rightarrow> string \<Rightarrow> nat \<Rightarrow> ReplicatedUpstream \<Rightarrow> prioritizedAlternative" where
  "ris_alternative ris suffix declarationIdx upstream =
     \<lparr>pa_reference = path_Join [up_Registry upstream, up_Path upstream] @ suffix,
      pa_credentialSecret = up_CredentialSecret upstream,
      pa_secretOwner = Some (OwnerRIS ris),
      pa_crPriority = ris_Priority ris,
      pa_intraPriority = up_Priority upstream,
      pa_typeOrder = (if om_Namespace (ris_Meta ris) = [] then crTypeOrderCRIS else crTypeOrderRIS),
      pa_declarationOrder = declarationIdx\<rparr>"

definition usable_upstream :: "regexp_compile \<Rightarrow> ReplicatedUpstream \<Rightarrow> bool" where
  "usable_upstream rx upstream \<longleftrightarrow> is_ok (upstream_filter rx upstream) \<and> \<not> up_DiscardAlternative upstream"

text \<open>One replicated image set: whether it discards the original, and its alternatives.\<close>

definition ris_collect ::
  "regexp_compile \<Rightarrow> string \<Rightarrow> ReplicatedImageSet \<Rightarrow> bool \<times> prioritizedAlternative list" where
  "ris_collect rx normalizedImage ris =
     (case find (upstream_matches rx normalizedImage) (ris_Upstreams ris) of
        None \<Rightarrow> (False, [])
      | Some match \<Rightarrow>
          let pfx = path_Join [up_Registry match, up_Path match];
              suffix = TrimPrefix normalizedImage pfx
          in (up_DiscardAlternative match,
              map (\<lambda>(i, u). ris_alternative ris suffix i u)
                (filter (\<lambda>(i, u). usable_upstream rx u) (enumerate 0 (ris_Upstreams ris)))))"

definition original_alternative :: "bool \<Rightarrow> PullPolicy \<Rightarrow> string \<Rightarrow> prioritizedAlternative" where
  "original_alternative honorPriorities policy normalizedImage =
     \<lparr>pa_reference = normalizedImage, pa_credentialSecret = None, pa_secretOwner = None,
      pa_crPriority = (if policy = PullAlways \<and> \<not> honorPriorities then word_of_int (- (2 ^ 63)) else 0),
      pa_intraPriority = 0, pa_typeOrder = crTypeOrderOriginal, pa_declarationOrder = 0\<rparr>"

definition ism_alternative ::
  "ImageSetMirror \<Rightarrow> string \<Rightarrow> nat \<Rightarrow> Mirror \<Rightarrow> prioritizedAlternative" where
  "ism_alternative ism imgPath declarationIdx mirror =
     \<lparr>pa_reference = path_Join [mir_Registry mirror, mir_Path mirror, imgPath],
      pa_credentialSecret = mir_CredentialSecret mirror,
      pa_secretOwner = Some (OwnerISM ism),
      pa_crPriority = isb_Priority (ism_Base ism),
      pa_intraPriority = mir_Priority mirror,
      pa_typeOrder = (if om_Namespace (ism_Meta ism) = [] then crTypeOrderCISM else crTypeOrderISM),
      pa_declarationOrder = declarationIdx\<rparr>"

definition mirrors_of_alternative ::
  "ref_parser \<Rightarrow> (string \<Rightarrow> bool) \<Rightarrow> ImageSetMirror \<Rightarrow> prioritizedAlternative \<Rightarrow>
     prioritizedAlternative list result" where
  "mirrors_of_alternative parse match ism alternative =
     (case RegistryAndPathFromReference parse (pa_reference alternative) of
        Inl e \<Rightarrow> Inl e
      | Inr (imgRegistry, imgPath) \<Rightarrow>
          if \<not> match (path_Join [imgRegistry, imgPath]) then Inr []
          else Inr (map (\<lambda>(i, m). ism_alternative ism imgPath i m)
                     (enumerate 0 (isb_Mirrors (ism_Base ism)))))"

text \<open>
  The loops over the image set mirrors. The inner \<open>range\<close> is over the slice as it was when
  the loop started, so the mirrors of one resource are not mirrored by it again, but the
  resources after it see them.
\<close>

fun ism_collect ::
  "regexp_compile \<Rightarrow> ref_parser \<Rightarrow> ImageSetMirror list \<Rightarrow> prioritizedAlternative list \<Rightarrow>
     prioritizedAlternative list result" where
  "ism_collect rx parse [] alternatives = Inr alternatives"
| "ism_collect rx parse (ism # isms) alternatives =
     (case ISM_ImageFilter rx ism of
        Inl e \<Rightarrow> ism_collect rx parse isms alternatives
      | Inr match \<Rightarrow>
          (case traverse (mirrors_of_alternative parse match ism) alternatives of
             Inl e \<Rightarrow> Inl e
           | Inr new \<Rightarrow> ism_collect rx parse isms (alternatives @ concat new)))"

definition discards_original :: "regexp_compile \<Rightarrow> string \<Rightarrow> ReplicatedImageSet list \<Rightarrow> bool" where
  "discards_original rx normalizedImage riss = list_ex (\<lambda>ris. fst (ris_collect rx normalizedImage ris)) riss"

definition collect_alternatives ::
  "regexp_compile \<Rightarrow> ref_parser \<Rightarrow> bool \<Rightarrow> ImageSetMirror list \<Rightarrow> ReplicatedImageSet list \<Rightarrow>
     PullPolicy \<Rightarrow> string \<Rightarrow> prioritizedAlternative list result" where
  "collect_alternatives rx parse honorPriorities isms riss policy normalizedImage =
     ism_collect rx parse isms
       (concat (map (\<lambda>ris. snd (ris_collect rx normalizedImage ris)) riss)
        @ (if discards_original rx normalizedImage riss then []
           else [original_alternative honorPriorities policy normalizedImage]))"

section \<open>The container's list\<close>

definition addAlternative ::
  "string \<Rightarrow> CredentialSecret option \<Rightarrow> SecretOwner option \<Rightarrow> Container \<Rightarrow> Container" where
  "addAlternative reference credentialSecret secretOwner c =
     (if reference \<in> set (con_Alternatives c) then c
      else c\<lparr>con_Alternatives := con_Alternatives c @ [reference],
             con_Images := con_Images c @
               [\<lparr>alt_Reference = reference, alt_CredentialSecret = credentialSecret,
                 alt_ImagePullSecret = None, alt_SecretOwner = secretOwner\<rparr>]\<rparr>)"

fun add_alternatives :: "prioritizedAlternative list \<Rightarrow> Container \<Rightarrow> Container" where
  "add_alternatives [] c = c"
| "add_alternatives (a # alts) c =
     add_alternatives alts (addAlternative (pa_reference a) (pa_credentialSecret a) (pa_secretOwner a) c)"

type_synonym get_secret = "string \<Rightarrow> string \<Rightarrow> Secret result"

definition load_secret :: "get_secret \<Rightarrow> AlternativeImage \<Rightarrow> AlternativeImage result" where
  "load_secret get img =
     (case alt_CredentialSecret img of
        None \<Rightarrow> Inr img
      | Some cs \<Rightarrow>
          if alt_ImagePullSecret img \<noteq> None then Inr img
          else (case get (cs_Namespace cs) (cs_Name cs) of
                  Inl e \<Rightarrow> Inl e
                | Inr s \<Rightarrow> Inr (img\<lparr>alt_ImagePullSecret := Some s\<rparr>)))"

definition loadAlternativesSecrets :: "get_secret \<Rightarrow> Container \<Rightarrow> Container result" where
  "loadAlternativesSecrets get c =
     (case traverse (load_secret get) (con_Images c) of
        Inl e \<Rightarrow> Inl e | Inr imgs \<Rightarrow> Inr (c\<lparr>con_Images := imgs\<rparr>))"

definition buildAlternativesList ::
  "regexp_compile \<Rightarrow> ref_parser \<Rightarrow> get_secret \<Rightarrow> bool \<Rightarrow> ImageSetMirror list \<Rightarrow>
     ReplicatedImageSet list \<Rightarrow> Container \<Rightarrow> Container result" where
  "buildAlternativesList rx parse get honorPriorities isms riss c =
     (case collect_alternatives rx parse honorPriorities isms riss
             (ctr_ImagePullPolicy (con_Container c)) (con_NormalizedImage c) of
        Inl e \<Rightarrow> Inl e
      | Inr alternatives \<Rightarrow>
          loadAlternativesSecrets get (add_alternatives (SortStableFunc compareAlternatives alternatives) c))"

text \<open>
  \<open>check\<close> is \<open>checkImageAvailabilityCached\<close>; \<open>arrival\<close> the order in which the parallel
  checks end.
\<close>

definition findBestAlternative ::
  "nat list \<Rightarrow> (AlternativeImage \<Rightarrow> Secret list \<Rightarrow> error option) \<Rightarrow> AlternativeImage list \<Rightarrow>
     Secret list \<Rightarrow> AlternativeImage option \<times> error option list" where
  "findBestAlternative arrival check images pullSecrets =
     (if length images > 1 then
        (let (img, errs) = FirstSuccessful arrival images
               (\<lambda>i. \<lparr>Value = Some i,
                      Error = check i (pullSecrets @
                        (case alt_ImagePullSecret i of None \<Rightarrow> [] | Some s \<Rightarrow> [s]))\<rparr>)
         in if img \<noteq> None then (img, errs) else (None, []))
      else (None, []))"

section \<open>The order of the alternatives\<close>

definition alt_key :: "prioritizedAlternative \<Rightarrow> int \<times> crTypeOrder \<times> 64 word \<times> nat" where
  "alt_key a = (sint (pa_crPriority a), pa_typeOrder a, pa_intraPriority a, pa_declarationOrder a)"

lemma compare_key:
  "compareAlternatives a b \<le> 0 \<longleftrightarrow> alt_key a \<le> alt_key b"
  "compareAlternatives a b < 0 \<longleftrightarrow> alt_key a < alt_key b"
  "0 < compareAlternatives a b \<longleftrightarrow> alt_key b < alt_key a"
  by (auto simp: compareAlternatives_def alt_key_def cmp_Compare_def)

interpretation alternatives: comparator compareAlternatives
proof
  show "compareAlternatives x y < 0 \<longleftrightarrow> 0 < compareAlternatives y x" for x y
    by (simp add: compare_key)
  show "compareAlternatives x y \<le> 0 \<Longrightarrow> compareAlternatives y z \<le> 0 \<Longrightarrow> compareAlternatives x z \<le> 0" for x y z
    by (simp add: compare_key)
qed

text \<open>The first of the alternatives with each reference that is not yet seen.\<close>

fun firsts :: "string list \<Rightarrow> prioritizedAlternative list \<Rightarrow> prioritizedAlternative list" where
  "firsts seen [] = []"
| "firsts seen (a # alts) =
     (if pa_reference a \<in> set seen then firsts seen alts else a # firsts (seen @ [pa_reference a]) alts)"

definition to_image :: "prioritizedAlternative \<Rightarrow> AlternativeImage" where
  "to_image a = \<lparr>alt_Reference = pa_reference a, alt_CredentialSecret = pa_credentialSecret a,
     alt_ImagePullSecret = None, alt_SecretOwner = pa_secretOwner a\<rparr>"

lemma add_alternatives_firsts:
  "con_Images (add_alternatives alts c) = con_Images c @ map to_image (firsts (con_Alternatives c) alts)"
  "con_Alternatives (add_alternatives alts c) =
     con_Alternatives c @ map pa_reference (firsts (con_Alternatives c) alts)"
  by (induction alts arbitrary: c) (simp_all add: addAlternative_def to_image_def)

lemma firsts_set: "set (firsts seen alts) \<subseteq> set alts"
  by (induction seen alts rule: firsts.induct) auto

lemma firsts_references:
  "set (map pa_reference (firsts seen alts)) = set (map pa_reference alts) - set seen"
  by (induction seen alts rule: firsts.induct) auto

lemma firsts_distinct: "distinct (map pa_reference (firsts seen alts))"
proof (induction seen alts rule: firsts.induct)
  case (2 seen a alts)
  then show ?case using firsts_references [of "seen @ [pa_reference a]" alts] by auto
qed simp

lemma firsts_sorted: "sorted_wrt R alts \<Longrightarrow> sorted_wrt R (firsts seen alts)"
proof (induction seen alts rule: firsts.induct)
  case (2 seen a alts)
  then show ?case using firsts_set [of "seen @ [pa_reference a]" alts] by auto
qed simp

lemma firsts_least:
  assumes "sorted_wrt (\<lambda>x y. alt_key x \<le> alt_key y) alts" and "x \<in> set (firsts seen alts)"
    and "a \<in> set alts" and "pa_reference a = pa_reference x"
  shows "alt_key x \<le> alt_key a"
  using assms
proof (induction seen alts rule: firsts.induct)
  case (2 seen b alts)
  have seen: "pa_reference x \<notin> set seen"
    using "2.prems"(2) firsts_references [of seen "b # alts"] by auto
  show ?case
  proof (cases "pa_reference b \<in> set seen")
    case True
    with 2 seen show ?thesis by auto
  next
    case False
    show ?thesis
    proof (cases "x = b")
      case True
      with 2 show ?thesis by auto
    next
      case x: False
      with False "2.prems"(2) have in_rest: "x \<in> set (firsts (seen @ [pa_reference b]) alts)" by auto
      then have "pa_reference x \<noteq> pa_reference b"
        using firsts_references [of "seen @ [pa_reference b]" alts] by auto
      with 2 False in_rest show ?thesis by auto
    qed
  qed
qed simp

lemma load_secret_fields:
  "load_secret get i = Inr j \<Longrightarrow> alt_Reference j = alt_Reference i \<and> alt_SecretOwner j = alt_SecretOwner i
     \<and> alt_CredentialSecret j = alt_CredentialSecret i"
  by (auto simp: load_secret_def split: option.splits if_splits sum.splits)

lemma loadAlternativesSecrets_fields:
  assumes "loadAlternativesSecrets get c = Inr c'"
  shows "map alt_Reference (con_Images c') = map alt_Reference (con_Images c)"
    and "map alt_SecretOwner (con_Images c') = map alt_SecretOwner (con_Images c)"
    and "con_Alternatives c' = con_Alternatives c"
proof -
  from assms obtain imgs where t: "traverse (load_secret get) (con_Images c) = Inr imgs"
    and c': "c' = c\<lparr>con_Images := imgs\<rparr>"
    by (auto simp: loadAlternativesSecrets_def split: sum.splits)
  have "list_all2 (\<lambda>x y. load_secret get x = Inr y) (con_Images c) imgs" by (rule traverse_InrD [OF t])
  then have "map alt_Reference imgs = map alt_Reference (con_Images c)
      \<and> map alt_SecretOwner imgs = map alt_SecretOwner (con_Images c)"
    by (induction rule: list_all2_induct) (auto dest: load_secret_fields)
  with c' show "map alt_Reference (con_Images c') = map alt_Reference (con_Images c)"
    "map alt_SecretOwner (con_Images c') = map alt_SecretOwner (con_Images c)"
    "con_Alternatives c' = con_Alternatives c" by simp_all
qed

text \<open>What \<open>buildAlternativesList\<close> leaves in a fresh container.\<close>

definition fresh :: "Container \<Rightarrow> bool" where
  "fresh c \<longleftrightarrow> con_Images c = [] \<and> con_Alternatives c = []"

lemma buildAlternativesList_spec:
  assumes "buildAlternativesList rx parse get honor isms riss c = Inr c'" and "fresh c"
  shows "\<exists>alts chosen. collect_alternatives rx parse honor isms riss
             (ctr_ImagePullPolicy (con_Container c)) (con_NormalizedImage c) = Inr alts
       \<and> chosen = firsts [] (SortStableFunc compareAlternatives alts)
       \<and> map alt_Reference (con_Images c') = map pa_reference chosen
       \<and> map alt_SecretOwner (con_Images c') = map pa_secretOwner chosen
       \<and> con_Alternatives c' = map pa_reference chosen"
  using assms loadAlternativesSecrets_fields
  by (auto simp: buildAlternativesList_def fresh_def add_alternatives_firsts to_image_def o_def
      split: sum.splits)

lemma sorted_keys: "sorted_wrt (\<lambda>x y. alt_key x \<le> alt_key y) (SortStableFunc compareAlternatives alts)"
  using alternatives.sorted_SortStableFunc [of alts] by (simp add: compare_key)

text \<open>
  C14. The alternatives of an image are the collected ones, each reference once, sorted by
  resource priority, then type of resource, then priority within the resource, then
  declaration order; a reference that several resources propose takes its best rank.
\<close>

theorem alternatives_in_priority_order:
  assumes "buildAlternativesList rx parse get honor isms riss c = Inr c'" and "fresh c"
  shows "\<exists>alts chosen. collect_alternatives rx parse honor isms riss
             (ctr_ImagePullPolicy (con_Container c)) (con_NormalizedImage c) = Inr alts
       \<and> map alt_Reference (con_Images c') = map pa_reference chosen
       \<and> con_Alternatives c' = map pa_reference chosen
       \<and> distinct (map pa_reference chosen) \<and> set (map pa_reference chosen) = set (map pa_reference alts)
       \<and> set chosen \<subseteq> set alts \<and> sorted_wrt (\<lambda>x y. alt_key x \<le> alt_key y) chosen
       \<and> list_all (\<lambda>x. list_all (\<lambda>a. pa_reference a \<noteq> pa_reference x \<or> alt_key x \<le> alt_key a) alts) chosen"
proof -
  from buildAlternativesList_spec [OF assms] obtain alts where
    alts: "collect_alternatives rx parse honor isms riss
       (ctr_ImagePullPolicy (con_Container c)) (con_NormalizedImage c) = Inr alts"
    and refs: "map alt_Reference (con_Images c') = map pa_reference (firsts [] (SortStableFunc compareAlternatives alts))"
      "con_Alternatives c' = map pa_reference (firsts [] (SortStableFunc compareAlternatives alts))"
    by blast
  let ?s = "SortStableFunc compareAlternatives alts"
  let ?f = "firsts [] ?s"
  have "set ?f \<subseteq> set alts" using firsts_set [of "[]" ?s] by simp
  moreover have "set (map pa_reference ?f) = set (map pa_reference alts)"
    using firsts_references [of "[]" ?s] by simp
  moreover have "list_all (\<lambda>x. list_all (\<lambda>a. pa_reference a \<noteq> pa_reference x \<or> alt_key x \<le> alt_key a) alts) ?f"
    using firsts_least [OF sorted_keys] by (auto simp: list_all_iff)
  ultimately show ?thesis
    using alts refs firsts_distinct [of "[]" ?s] firsts_sorted [OF sorted_keys, of "[]"]
    by (intro exI [of _ alts] exI [of _ ?f]) simp
qed

definition all_rx :: regexp_compile where
  "all_rx p = Some (\<lambda>_. True)"

definition example_filter :: ImageFilterDefinition where
  "example_filter = \<lparr>ifd_Include = [''.*''], ifd_Exclude = []\<rparr>"

definition example_mirrors :: "string \<Rightarrow> int \<Rightarrow> string \<Rightarrow> ImageSetMirror" where
  "example_mirrors ns prio registry =
     \<lparr>ism_Meta = \<lparr>om_Name = ''m'', om_Namespace = ns, om_UID = ''u'', om_Finalizers = [], om_DeletionTimestamp = None\<rparr>,
      ism_Base = \<lparr>isb_Priority = word_of_int prio, isb_ImageFilter = example_filter,
        isb_Cleanup = \<lparr>cl_Enabled = False, cl_Retention = 0\<rparr>,
        isb_Mirrors = [\<lparr>mir_Priority = 0, mir_Registry = registry, mir_Path = [],
          mir_CredentialSecret = None, mir_Cleanup = None\<rparr>]\<rparr>,
      ism_Filter = \<lparr>flt_Include = [], flt_Exclude = []\<rparr>, ism_MatchingImages = []\<rparr>"

definition example_container :: "PullPolicy \<Rightarrow> string \<Rightarrow> Container" where
  "example_container policy img =
     \<lparr>con_Index = 0, con_Container = \<lparr>ctr_Name = ''c'', ctr_Image = img, ctr_ImagePullPolicy = policy\<rparr>,
      con_IsInit = False, con_NormalizedImage = img, con_Images = [], con_Alternatives = []\<rparr>"

definition no_secret :: get_secret where
  "no_secret ns n = Inl (ENotFound n)"

lemma example_fresh: "fresh (example_container policy img)"
  by (simp add: fresh_def example_container_def)

theorem alternatives_in_priority_order_witness:
  "\<exists>c' (alts :: prioritizedAlternative list) chosen. buildAlternativesList all_rx example_parse no_secret False
       [example_mirrors [] 0 ''m'', example_mirrors ''ns'' (-1) ''n''] [] (example_container PullAlways ''r/a'') = Inr c'
     \<and> map alt_Reference (con_Images c') = map pa_reference chosen
     \<and> set (map pa_reference chosen) = set (map pa_reference alts)
     \<and> sorted_wrt (\<lambda>x y. alt_key x \<le> alt_key y) chosen"
proof -
  let ?r = "buildAlternativesList all_rx example_parse no_secret False
       [example_mirrors [] 0 ''m'', example_mirrors ''ns'' (-1) ''n''] [] (example_container PullAlways ''r/a'')"
  have "is_ok ?r" by code_simp
  then obtain c' where r: "?r = Inr c'" by (auto simp: is_ok_iff)
  from alternatives_in_priority_order [OF r example_fresh] obtain alts chosen :: "prioritizedAlternative list" where
    "map alt_Reference (con_Images c') = map pa_reference chosen"
    "set (map pa_reference chosen) = set (map pa_reference alts)"
    "sorted_wrt (\<lambda>x y. alt_key x \<le> alt_key y) chosen" by blast
  with r show ?thesis by (intro exI conjI)
qed

section \<open>The place of the original image\<close>

lemma ris_alternative_not_original:
  "a \<in> set (snd (ris_collect rx img ris)) \<Longrightarrow> pa_typeOrder a \<noteq> crTypeOrderOriginal \<and> pa_secretOwner a \<noteq> None"
  by (auto simp: ris_collect_def Let_def ris_alternative_def split: option.splits if_splits)

lemma mirrors_not_original:
  "mirrors_of_alternative parse match ism b = Inr new \<Longrightarrow> a \<in> set new \<Longrightarrow>
     pa_typeOrder a \<noteq> crTypeOrderOriginal \<and> pa_secretOwner a \<noteq> None"
  by (auto simp: mirrors_of_alternative_def ism_alternative_def split: sum.splits if_splits)

lemma ism_collect_set:
  assumes "ism_collect rx parse isms alts = Inr alts'"
  shows "\<exists>new. alts' = alts @ new \<and> (\<forall>a\<in>set new. pa_typeOrder a \<noteq> crTypeOrderOriginal \<and> pa_secretOwner a \<noteq> None)"
  using assms
proof (induction isms arbitrary: alts)
  case Nil
  then show ?case by simp
next
  case (Cons ism isms)
  show ?case
  proof (cases "ISM_ImageFilter rx ism")
    case (Inl e)
    with Cons show ?thesis by simp
  next
    case (Inr match)
    with Cons.prems obtain new where t: "traverse (mirrors_of_alternative parse match ism) alts = Inr new"
      and rest: "ism_collect rx parse isms (alts @ concat new) = Inr alts'"
      by (auto split: sum.splits)
    have "list_all2 (\<lambda>b n. mirrors_of_alternative parse match ism b = Inr n) alts new"
      by (rule traverse_InrD [OF t])
    then have "\<forall>a\<in>set (concat new). pa_typeOrder a \<noteq> crTypeOrderOriginal \<and> pa_secretOwner a \<noteq> None"
      by (induction rule: list_all2_induct) (use mirrors_not_original in fastforce)+
    with Cons.IH [OF rest] show ?thesis by fastforce
  qed
qed

lemma collect_split:
  assumes "collect_alternatives rx parse honor isms riss policy img = Inr alts"
  shows "\<exists>pre post. alts = pre @ (if discards_original rx img riss then []
             else [original_alternative honor policy img]) @ post
         \<and> (\<forall>a\<in>set (pre @ post). pa_typeOrder a \<noteq> crTypeOrderOriginal \<and> pa_secretOwner a \<noteq> None)"
proof -
  let ?ris = "concat (map (\<lambda>ris. snd (ris_collect rx img ris)) riss)"
  from ism_collect_set [OF assms [unfolded collect_alternatives_def]] obtain new where
    new: "alts = (?ris @ (if discards_original rx img riss then [] else [original_alternative honor policy img])) @ new"
    "\<forall>a\<in>set new. pa_typeOrder a \<noteq> crTypeOrderOriginal \<and> pa_secretOwner a \<noteq> None" by blast
  moreover have "\<forall>a\<in>set ?ris. pa_typeOrder a \<noteq> crTypeOrderOriginal \<and> pa_secretOwner a \<noteq> None"
    using ris_alternative_not_original by fastforce
  ultimately show ?thesis by (intro exI [of _ ?ris] exI [of _ new]) auto
qed

lemma original_type: "pa_typeOrder (original_alternative honor policy img) = crTypeOrderOriginal"
  and original_reference: "pa_reference (original_alternative honor policy img) = img"
  and original_owner: "pa_secretOwner (original_alternative honor policy img) = None"
  by (simp_all add: original_alternative_def)

lemma sint_bounds: "- (2 ^ 63) \<le> sint (w :: 64 word)"
  using sint_greater_eq [of w] by simp

lemma min_int: "sint (word_of_int (- (2 ^ 63)) :: 64 word) = - (2 ^ 63)"
  by simp

text \<open>
  A container that always pulls keeps its own image first, whatever priorities the
  resources give themselves, unless the operator opted into honouring them or a matching
  upstream discards the original.
\<close>

theorem always_pull_pins_original:
  assumes "buildAlternativesList rx parse get False isms riss c = Inr c'" and "fresh c"
    and "ctr_ImagePullPolicy (con_Container c) = PullAlways"
    and "\<not> discards_original rx (con_NormalizedImage c) riss"
  shows "\<exists>img rest. con_Images c' = img # rest \<and> alt_Reference img = con_NormalizedImage c"
proof -
  let ?o = "original_alternative False PullAlways (con_NormalizedImage c)"
  from buildAlternativesList_spec [OF assms(1,2)] assms(3) obtain alts where
    alts: "collect_alternatives rx parse False isms riss PullAlways (con_NormalizedImage c) = Inr alts"
    and refs: "map alt_Reference (con_Images c') = map pa_reference (firsts [] (SortStableFunc compareAlternatives alts))"
    by auto
  from collect_split [OF alts] assms(4) have o: "?o \<in> set alts"
    and others: "\<And>a. a \<in> set alts \<Longrightarrow> a \<noteq> ?o \<Longrightarrow> pa_typeOrder a \<noteq> crTypeOrderOriginal"
    by auto
  have "compareAlternatives ?o a < 0" if "a \<in> set alts" "a \<noteq> ?o" for a
    using original_least [OF others [OF that]] sint_bounds [of "pa_crPriority a"]
    by (auto simp: compare_key alt_key_def original_alternative_def min_int)
  from alternatives.min_first [OF o this] obtain ys where "SortStableFunc compareAlternatives alts = ?o # ys"
    by blast
  then have "map alt_Reference (con_Images c') = con_NormalizedImage c # map pa_reference (firsts [con_NormalizedImage c] ys)"
    using refs by (simp add: original_reference)
  then show ?thesis by auto
qed

theorem always_pull_pins_original_witness:
  "\<exists>c' img rest. buildAlternativesList all_rx example_parse no_secret False
       [example_mirrors [] (-5) ''m''] [] (example_container PullAlways ''r/a'') = Inr c'
     \<and> con_Images c' = img # rest \<and> alt_Reference img = ''r/a''"
proof -
  let ?r = "buildAlternativesList all_rx example_parse no_secret False
       [example_mirrors [] (-5) ''m''] [] (example_container PullAlways ''r/a'')"
  have "is_ok ?r" by code_simp
  then obtain c' where r: "?r = Inr c'" by (auto simp: is_ok_iff)
  from always_pull_pins_original [OF r example_fresh] r show ?thesis
    by (simp add: example_container_def discards_original_def)
qed

lemma map_split: "map f xs = as @ b # cs \<Longrightarrow> \<exists>p i q. xs = p @ i # q \<and> map f p = as \<and> f i = b"
  by (auto simp: map_eq_append_conv map_eq_Cons_conv)

text \<open>
  Only a negative priority can put a mirror before the original: under any other pull
  policy (or when priorities are honoured), every image tried before the original one is
  proposed by a resource whose \<open>spec.priority\<close> is negative.
\<close>

theorem original_precedes_nonnegative:
  assumes "buildAlternativesList rx parse get honor isms riss c = Inr c'" and "fresh c"
    and "ctr_ImagePullPolicy (con_Container c) \<noteq> PullAlways \<or> honor"
    and "\<not> discards_original rx (con_NormalizedImage c) riss"
  shows "\<exists>alts pre img post. collect_alternatives rx parse honor isms riss
             (ctr_ImagePullPolicy (con_Container c)) (con_NormalizedImage c) = Inr alts
       \<and> con_Images c' = pre @ img # post \<and> alt_Reference img = con_NormalizedImage c
       \<and> list_all (\<lambda>i. \<exists>a\<in>set alts. pa_reference a = alt_Reference i \<and> sint (pa_crPriority a) < 0) pre"
proof -
  let ?o = "original_alternative honor (ctr_ImagePullPolicy (con_Container c)) (con_NormalizedImage c)"
  from buildAlternativesList_spec [OF assms(1,2)] obtain alts where
    alts: "collect_alternatives rx parse honor isms riss
        (ctr_ImagePullPolicy (con_Container c)) (con_NormalizedImage c) = Inr alts"
    and refs: "map alt_Reference (con_Images c') = map pa_reference (firsts [] (SortStableFunc compareAlternatives alts))"
    by auto
  let ?s = "SortStableFunc compareAlternatives alts"
  let ?f = "firsts [] ?s"
  from collect_split [OF alts] assms(4) have o: "?o \<in> set alts"
    and others: "\<And>a. a \<in> set alts \<Longrightarrow> a \<noteq> ?o \<Longrightarrow> pa_typeOrder a \<noteq> crTypeOrderOriginal"
    by auto
  have okey: "alt_key ?o = (0, crTypeOrderOriginal, 0, 0)"
    using assms(3) by (auto simp: alt_key_def original_alternative_def)
  have "con_NormalizedImage c \<in> set (map pa_reference ?f)"
  proof -
    have "pa_reference ?o \<in> set (map pa_reference alts)" using o by (simp only: list.set_map imageI)
    then show ?thesis using firsts_references [of "[]" ?s] by (simp add: original_reference)
  qed
  then obtain x where x: "x \<in> set ?f" "pa_reference x = con_NormalizedImage c" by auto
  then obtain pre post where f: "?f = pre @ x # post" by (meson split_list)
  note x = x(2)
  have x_key: "alt_key x \<le> alt_key ?o"
    using firsts_least [OF sorted_keys, of x "[]" alts ?o] f o x original_reference by simp
  have pre: "a \<in> set alts \<and> sint (pa_crPriority a) < 0" if a: "a \<in> set pre" for a
  proof -
    have in_alts: "a \<in> set alts" using a firsts_set [of "[]" ?s] f by auto
    have "alt_key a \<le> alt_key x"
      using firsts_sorted [OF sorted_keys, of "[]" alts] a unfolding f by (auto simp: sorted_wrt_append)
    with x_key have le: "alt_key a \<le> (0, crTypeOrderOriginal, 0, 0)" unfolding okey by simp
    have "pa_reference a \<noteq> pa_reference x"
    proof -
      have "pa_reference a \<in> set (map pa_reference pre)" using a by simp
      moreover have "distinct (map pa_reference pre @ pa_reference x # map pa_reference post)"
        using firsts_distinct [of "[]" ?s] unfolding f by simp
      ultimately show ?thesis by (simp only: distinct_append) auto
    qed
    then have "a \<noteq> ?o" using x original_reference by metis
    from original_least [OF others [OF in_alts this]] le have "sint (pa_crPriority a) < 0"
      by (auto simp: alt_key_def)
    with in_alts show ?thesis by blast
  qed
  have "map alt_Reference (con_Images c') = map pa_reference pre @ con_NormalizedImage c # map pa_reference post"
    using refs unfolding f by (simp add: x)
  from map_split [OF this] obtain pre' img post' where i: "con_Images c' = pre' @ img # post'"
    "map alt_Reference pre' = map pa_reference pre" "alt_Reference img = con_NormalizedImage c"
    by blast
  have "\<exists>a\<in>set alts. pa_reference a = alt_Reference i \<and> sint (pa_crPriority a) < 0" if "i \<in> set pre'" for i
  proof -
    have "alt_Reference i \<in> set (map pa_reference pre)" using that i(2) by (metis image_eqI list.set_map)
    then show ?thesis using pre by auto
  qed
  with alts i show ?thesis by (auto simp: list_all_iff)
qed

theorem original_precedes_nonnegative_witness:
  "\<exists>c' (alts :: prioritizedAlternative list) pre img post. buildAlternativesList all_rx example_parse no_secret True
       [example_mirrors [] (-5) ''m'', example_mirrors [] 5 ''n''] [] (example_container PullAlways ''r/a'') = Inr c'
     \<and> con_Images c' = pre @ img # post \<and> alt_Reference img = ''r/a''
     \<and> list_all (\<lambda>i. \<exists>a\<in>set alts. pa_reference a = alt_Reference i \<and> sint (pa_crPriority a) < 0) pre"
proof -
  let ?r = "buildAlternativesList all_rx example_parse no_secret True
       [example_mirrors [] (-5) ''m'', example_mirrors [] 5 ''n''] [] (example_container PullAlways ''r/a'')"
  have "is_ok ?r" by code_simp
  then obtain c' where r: "?r = Inr c'" by (auto simp: is_ok_iff)
  have "ctr_ImagePullPolicy (con_Container (example_container PullAlways ''r/a'')) \<noteq> PullAlways \<or> True"
    and "\<not> discards_original all_rx (con_NormalizedImage (example_container PullAlways ''r/a'')) []"
    and img: "con_NormalizedImage (example_container PullAlways ''r/a'') = ''r/a''"
    by (simp_all add: discards_original_def example_container_def)
  from original_precedes_nonnegative [OF r example_fresh this(1,2), unfolded img]
  obtain alts :: "prioritizedAlternative list" and pre img post where
    "con_Images c' = pre @ img # post" "alt_Reference img = ''r/a''"
    "list_all (\<lambda>i. \<exists>a\<in>set alts. pa_reference a = alt_Reference i \<and> sint (pa_crPriority a) < 0) pre"
    by blast
  with r show ?thesis by (intro exI conjI)
qed

text \<open>
  A matching upstream marked \<open>discardAlternative\<close> takes the original out of the race:
  every remaining alternative is proposed by a mirror or an upstream.
\<close>

theorem discarded_original_not_listed:
  assumes "buildAlternativesList rx parse get honor isms riss c = Inr c'" and "fresh c"
    and "discards_original rx (con_NormalizedImage c) riss"
  shows "list_all (\<lambda>i. alt_SecretOwner i \<noteq> None) (con_Images c')"
proof -
  from buildAlternativesList_spec [OF assms(1,2)] obtain alts where
    alts: "collect_alternatives rx parse honor isms riss
        (ctr_ImagePullPolicy (con_Container c)) (con_NormalizedImage c) = Inr alts"
    and owners: "map alt_SecretOwner (con_Images c') = map pa_secretOwner (firsts [] (SortStableFunc compareAlternatives alts))"
    by blast
  have "pa_secretOwner a \<noteq> None" if "a \<in> set (firsts [] (SortStableFunc compareAlternatives alts))" for a
  proof -
    have "a \<in> set alts" using that firsts_set [of "[]" "SortStableFunc compareAlternatives alts"] by auto
    with collect_split [OF alts] assms(3) show ?thesis by (metis append_Nil)
  qed
  then have "None \<notin> set (map alt_SecretOwner (con_Images c'))" unfolding owners by force
  then have "alt_SecretOwner i \<noteq> None" if "i \<in> set (con_Images c')" for i
    using that by (metis imageI list.set_map)
  then show ?thesis by (simp only: list_all_iff) blast
qed

definition example_upstream :: "string \<Rightarrow> string \<Rightarrow> bool \<Rightarrow> ReplicatedUpstream" where
  "example_upstream registry p discard =
     \<lparr>up_Registry = registry, up_Path = p, up_Priority = 0, up_DiscardAlternative = discard,
      up_ImageFilter = example_filter, up_CredentialSecret = None\<rparr>"

definition example_replicated :: "ReplicatedUpstream list \<Rightarrow> ReplicatedImageSet" where
  "example_replicated ups =
     \<lparr>ris_Meta = \<lparr>om_Name = ''r'', om_Namespace = [], om_UID = ''u'', om_Finalizers = [], om_DeletionTimestamp = None\<rparr>,
      ris_Priority = 0, ris_Upstreams = ups, ris_Filter = \<lparr>flt_Include = [], flt_Exclude = []\<rparr>\<rparr>"

theorem discarded_original_not_listed_witness:
  "\<exists>c'. buildAlternativesList all_rx example_parse no_secret False []
       [example_replicated [example_upstream ''r'' [] True, example_upstream ''n'' [] False]]
       (example_container PullAlways ''r/a'') = Inr c'
     \<and> list_all (\<lambda>i. alt_SecretOwner i \<noteq> None) (con_Images c')"
proof -
  let ?r = "buildAlternativesList all_rx example_parse no_secret False []
       [example_replicated [example_upstream ''r'' [] True, example_upstream ''n'' [] False]]
       (example_container PullAlways ''r/a'')"
  have "is_ok ?r" by code_simp
  then obtain c' where r: "?r = Inr c'" by (auto simp: is_ok_iff)
  have "discards_original all_rx (con_NormalizedImage (example_container PullAlways ''r/a''))
      [example_replicated [example_upstream ''r'' [] True, example_upstream ''n'' [] False]]"
    by code_simp
  from discarded_original_not_listed [OF r example_fresh this] r show ?thesis by blast
qed

section \<open>The choice\<close>

text \<open>
  With several alternatives, the one chosen is the first in priority order whose check
  succeeds, with the pod's secrets and its own; the order in which the parallel checks end
  plays no part. When every check fails nothing is chosen.
\<close>

theorem best_alternative_is_first_available:
  assumes "mset arrival = mset [0..<length images]" and "1 < length images"
  shows "fst (findBestAlternative arrival check images secrets) =
    find (\<lambda>i. check i (secrets @ (case alt_ImagePullSecret i of None \<Rightarrow> [] | Some s \<Rightarrow> [s])) = None) images"
proof -
  let ?f = "\<lambda>i. \<lparr>Value = Some i, Error = check i (secrets @
      (case alt_ImagePullSecret i of None \<Rightarrow> [] | Some s \<Rightarrow> [s]))\<rparr>"
  have v: "Value (?f i) = Some i" for i by simp
  have "fst (FirstSuccessful arrival images ?f) = find (\<lambda>i. Error (?f i) = None) images"
    unfolding FirstSuccessful_spec [OF assms(1)] first_success_find v by (simp split: option.split)
  then show ?thesis
    using assms(2) by (auto simp: findBestAlternative_def split: prod.splits)
qed

definition example_image :: "string \<Rightarrow> AlternativeImage" where
  "example_image r = \<lparr>alt_Reference = r, alt_CredentialSecret = None, alt_ImagePullSecret = None,
     alt_SecretOwner = None\<rparr>"

theorem best_alternative_is_first_available_witness:
  "fst (findBestAlternative [1, 0] (\<lambda>i _. if alt_Reference i = ''a'' then Some (EMsg ''down'') else None)
       [example_image ''a'', example_image ''b''] []) = Some (example_image ''b'')"
  by (subst best_alternative_is_first_available) (auto simp: example_image_def)

text \<open>
  The documented example of \<open>discardAlternative\<close> is not routed: with one discarded
  upstream and one active one, the active upstream is the only alternative, so no check is
  made and nothing is chosen, although the upstream is available.
\<close>

theorem sole_alternative_never_chosen:
  "case buildAlternativesList all_rx example_parse no_secret False []
          [example_replicated [example_upstream ''r'' [] True, example_upstream ''n'' [] False]]
          (example_container PullIfNotPresent ''r/a'') of
     Inl _ \<Rightarrow> False
   | Inr c' \<Rightarrow> map alt_Reference (con_Images c') = [''n/a'']
       \<and> (\<forall>arrival check secrets. findBestAlternative arrival check (con_Images c') secrets = (None, []))"
proof -
  let ?r = "buildAlternativesList all_rx example_parse no_secret False []
          [example_replicated [example_upstream ''r'' [] True, example_upstream ''n'' [] False]]
          (example_container PullIfNotPresent ''r/a'')"
  have "case ?r of Inl _ \<Rightarrow> False | Inr c' \<Rightarrow> map alt_Reference (con_Images c') = [''n/a'']"
    by code_simp
  then obtain c' where r: "?r = Inr c'" "map alt_Reference (con_Images c') = [''n/a'']"
    by (auto split: sum.splits)
  then have "length (con_Images c') = 1" by (metis length_map list.size(3,4) One_nat_def add_0)
  with r show ?thesis by (simp add: findBestAlternative_def)
qed

text \<open>
  The suffix of a replicated image is cut without checking that the upstream's path is
  really a prefix of it: an image that matches the upstream's registry but lies outside its
  path gives a reference that glues two references together.
\<close>

theorem replicated_suffix_unchecked:
  "case buildAlternativesList all_rx example_parse no_secret False []
          [example_replicated [example_upstream ''r'' ''team'' False, example_upstream ''n'' ''x'' False]]
          (example_container PullIfNotPresent ''r/a'') of
     Inl _ \<Rightarrow> False
   | Inr c' \<Rightarrow> list_ex (\<lambda>i. alt_Reference i = ''n/xr/a'') (con_Images c')"
  by code_simp

end
