(* ===== verification/Webhook.thy ===== *)
theory Webhook
  imports Alternatives Config
begin

text \<open>
  The admission webhook of \<open>internal/webhook/core/v1/pod_webhook.go\<close>: \<open>defaultPod\<close> and
  what it calls. The API server, the JSON codec of the annotation, the hash function and the
  registries are fields of \<open>WebhookEnv\<close>, as is the scheduling the code leaves open (which
  cache entries are still alive when they are looked up, in what order parallel checks end,
  what had been sent when a check starts). The webhook's own state is \<open>WebhookState\<close>: its
  two caches, its semaphore with the clean-ups started, and the secrets it wrote.
\<close>

section \<open>Names of secrets\<close>

definition hex_digit :: "nat \<Rightarrow> char" where
  "hex_digit n = char_of (if n < 10 then n + 48 else n + 87)"

fun hex_of :: "nat \<Rightarrow> nat \<Rightarrow> string" where
  "hex_of 0 n = []"
| "hex_of (Suc k) n = hex_of k (n div 16) @ [hex_digit (n mod 16)]"

text \<open>\<open>%016x\<close> of the 64-bit hash of the input; the hash function is a parameter.\<close>

definition makeSecretName :: "(string \<Rightarrow> 64 word) \<Rightarrow> string \<Rightarrow> string \<Rightarrow> string \<Rightarrow> string result" where
  "makeSecretName hash pfx name hashInput =
     (let nameLength = min (253 - int (length pfx) - 16 - 2) (int (length name))
      in if nameLength < 0 then Inl (EPanic ''slice bounds out of range'')
         else Inr (pfx @ ''-'' @ take (nat nameLength) name @ ''-'' @ hex_of 16 (unat (hash hashInput))))"

lemma length_hex_of [simp]: "length (hex_of k n) = k"
  by (induction k arbitrary: n) simp_all

lemma hex_digit_code: "n < 16 \<Longrightarrow> (of_char (hex_digit n) :: nat) = (if n < 10 then n + 48 else n + 87)"
  by (simp add: hex_digit_def)

lemma hex_digit_inj: "a < 16 \<Longrightarrow> b < 16 \<Longrightarrow> hex_digit a = hex_digit b \<Longrightarrow> a = b"
proof -
  assume a: "a < 16" and b: "b < 16" and eq: "hex_digit a = hex_digit b"
  have "(if a < 10 then a + 48 else a + 87) = (if b < 10 then b + 48 else b + 87)"
    unfolding hex_digit_code [OF a, symmetric] hex_digit_code [OF b, symmetric] eq ..
  then show "a = b" by presburger
qed

lemma hex_of_inj: "a < 16 ^ k \<Longrightarrow> b < 16 ^ k \<Longrightarrow> hex_of k a = hex_of k b \<Longrightarrow> a = b"
proof (induction k arbitrary: a b)
  case 0
  then show ?case by simp
next
  case (Suc k)
  then have "hex_of k (a div 16) = hex_of k (b div 16)" and "hex_digit (a mod 16) = hex_digit (b mod 16)"
    by simp_all
  moreover have "a div 16 < 16 ^ k" "b div 16 < 16 ^ k"
    using Suc.prems by (simp_all add: less_mult_imp_div_less mult.commute)
  ultimately have "a div 16 = b div 16" and "a mod 16 = b mod 16"
    using Suc.IH hex_digit_inj [of "a mod 16" "b mod 16"] by auto
  then show ?case by (metis div_mult_mod_eq)
qed

text \<open>
  The name of a copied secret fits Kubernetes' limit of 253 characters whatever the
  source's name is, and two sources whose hashes differ never share a name.
\<close>

theorem secret_name_bounded_and_distinct:
  assumes "length pfx \<le> 235"
  shows "\<exists>n m. makeSecretName hash pfx name1 in1 = Inr n \<and> makeSecretName hash pfx name2 in2 = Inr m
           \<and> length n \<le> 253 \<and> HasPrefix n (pfx @ ''-'')
           \<and> (hash in1 = hash in2 \<or> n \<noteq> m)"
proof -
  let ?k = "\<lambda>s. nat (min (253 - int (length pfx) - 16 - 2) (int (length (s :: string))))"
  let ?n = "\<lambda>s i. pfx @ ''-'' @ take (?k s) s @ ''-'' @ hex_of 16 (unat (hash i))"
  have run: "makeSecretName hash pfx s i = Inr (?n s i)" for s i
    using assms by (simp add: makeSecretName_def Let_def)
  have len: "length (?n name1 in1) \<le> 253" using assms by simp
  have pre: "HasPrefix (?n s i) (pfx @ ''-'')" for s i
    by (metis HasPrefix_append append.assoc)
  have "hash in1 = hash in2" if "?n name1 in1 = ?n name2 in2"
  proof -
    have last16: "drop (length (?n s i) - 16) (?n s i) = hex_of 16 (unat (hash i))" for s i by simp
    from that have "hex_of 16 (unat (hash in1)) = hex_of 16 (unat (hash in2))" by (metis last16)
    moreover have "unat w < 16 ^ 16" for w :: "64 word"
      using unsigned_less [of w] by simp
    ultimately have "unat (hash in1) = unat (hash in2)" using hex_of_inj by blast
    then show ?thesis by (simp only: word_unat_eq_iff)
  qed
  with run len pre show ?thesis by blast
qed

theorem secret_name_bounded_and_distinct_witness:
  "\<exists>n m. makeSecretName (\<lambda>s. of_nat (length s)) ''kuik'' ''a'' ''ns/1'' = Inr n
     \<and> makeSecretName (\<lambda>s. of_nat (length s)) ''kuik'' ''a'' ''ns2/1'' = Inr m
     \<and> length n \<le> 253 \<and> n \<noteq> m"
proof -
  let ?h = "\<lambda>s :: string. of_nat (length s) :: 64 word"
  have "?h ''ns/1'' \<noteq> ?h ''ns2/1''" by simp
  with secret_name_bounded_and_distinct [of "''kuik''" ?h "''a''" "''ns/1''" "''a''" "''ns2/1''"]
  show ?thesis by auto
qed

section \<open>Environment and state\<close>

record WebhookEnv =
  we_config :: Config
  we_rx :: regexp_compile
  we_sel :: selector_parse
  we_parse :: ref_parser
  we_unmarshal :: "string \<Rightarrow> string gomap \<times> error option"
  we_marshal :: "string gomap \<Rightarrow> string result"
  we_cisms :: "ClusterImageSetMirror list result"
  we_isms :: "string \<Rightarrow> ImageSetMirror list result"
  we_criss :: "ClusterReplicatedImageSet list result"
  we_riss :: "string \<Rightarrow> ReplicatedImageSet list result"
  we_get :: get_secret
  we_createOrUpdate :: "Secret \<Rightarrow> error option"
  we_hash :: "string \<Rightarrow> 64 word"
  we_registry :: RegistryEnv
  we_started :: "string \<Rightarrow> Request list"
  we_arrival :: "string \<Rightarrow> nat \<Rightarrow> nat list"
  we_live :: "nat \<Rightarrow> bool"

record WebhookState =
  ws_checkCache :: "string \<rightharpoonup> bool"
  ws_alternativeCache :: "string \<rightharpoonup> (AlternativeImage option \<times> nat)"
  ws_cleanups :: "AlternativeImage list"
  ws_secrets :: "Secret list"

text \<open>
  \<open>tryCleanupStaleMirrorStatus\<close> within one run: the clean-ups in flight never exceed the
  semaphore's capacity; a further one is dropped. When they end is modelled in the step
  relation of the semaphore below.
\<close>

definition tryCleanupStaleMirrorStatus :: "Config \<Rightarrow> AlternativeImage \<Rightarrow> WebhookState \<Rightarrow> WebhookState" where
  "tryCleanupStaleMirrorStatus cfg img st =
     (if int (length (ws_cleanups st))
           < smc_MaxConcurrent (act_StaleMirrorCleanup (rt_ActiveCheck (cfg_Routing cfg)))
      then st\<lparr>ws_cleanups := ws_cleanups st @ [img]\<rparr> else st)"

definition checkImageAvailabilityCached ::
  "WebhookEnv \<Rightarrow> AlternativeImage \<Rightarrow> Secret list \<Rightarrow> WebhookState \<Rightarrow> error option \<times> WebhookState" where
  "checkImageAvailabilityCached env img pullSecrets st =
     (case ws_checkCache st (alt_Reference img) of
        Some result \<Rightarrow> (if result then None else Some (EMsg ''cached''), st)
      | None \<Rightarrow>
          (let ac = rt_ActiveCheck (cfg_Routing (we_config env))
           in (case fst (CheckImageAvailability (we_registry env) (alt_Reference img) ''HEAD''
                      (act_Timeout ac) pullSecrets (act_ResolveDigest ac)
                      (we_started env (alt_Reference img))) of
                 Inl e \<Rightarrow> (Some e, st)
               | Inr (result, err) \<Rightarrow>
                   (let st1 = st\<lparr>ws_checkCache := (ws_checkCache st)(alt_Reference img \<mapsto> (err = None))\<rparr>
                    in (err,
                        if result = NotFound \<and> alt_SecretOwner img \<noteq> None
                        then tryCleanupStaleMirrorStatus (we_config env) img st1 else st1)))))"

text \<open>
  The checks of one container run in parallel and all run to their end; they look up and
  write the cache at their own, distinct references. Their effects happen in the order of
  \<open>arrival\<close>.
\<close>

definition secrets_for :: "Secret list \<Rightarrow> AlternativeImage \<Rightarrow> Secret list" where
  "secrets_for pullSecrets img =
     pullSecrets @ (case alt_ImagePullSecret img of None \<Rightarrow> [] | Some s \<Rightarrow> [s])"

fun run_checks ::
  "WebhookEnv \<Rightarrow> Secret list \<Rightarrow> AlternativeImage list \<Rightarrow> WebhookState \<Rightarrow> WebhookState" where
  "run_checks env pullSecrets [] st = st"
| "run_checks env pullSecrets (img # imgs) st =
     run_checks env pullSecrets imgs
       (snd (checkImageAvailabilityCached env img (secrets_for pullSecrets img) st))"

definition findBestAlternativeCached ::
  "WebhookEnv \<Rightarrow> nat \<Rightarrow> ImageSetMirror list \<Rightarrow> ReplicatedImageSet list \<Rightarrow> Container \<Rightarrow> Secret list \<Rightarrow>
     WebhookState \<Rightarrow> (AlternativeImage option \<times> nat) result \<times> WebhookState" where
  "findBestAlternativeCached env time isms riss c pullSecrets st =
     (case (if we_live env time then ws_alternativeCache st (con_NormalizedImage c) else None) of
        Some cached \<Rightarrow> (Inr cached, st)
      | None \<Rightarrow>
          (case buildAlternativesList (we_rx env) (we_parse env) (we_get env)
                  (rt_HonorPrioritiesOnAlwaysImagePullPolicy (cfg_Routing (we_config env))) isms riss c of
             Inl e \<Rightarrow> (Inl e, st)
           | Inr c' \<Rightarrow>
               (let imgs = con_Images c';
                    arrival = we_arrival env (con_NormalizedImage c) (length imgs);
                    (best, errs) = findBestAlternative arrival
                      (\<lambda>i s. fst (checkImageAvailabilityCached env i s st)) imgs pullSecrets;
                    st1 = (if length imgs > 1
                           then run_checks env pullSecrets (map (\<lambda>k. imgs ! k) arrival) st else st);
                    cached = (best, length (con_Alternatives c'))
                in (Inr cached,
                    st1\<lparr>ws_alternativeCache := (ws_alternativeCache st1)(con_NormalizedImage c \<mapsto> cached)\<rparr>))))"

section \<open>Copying a secret\<close>

fun owner_meta :: "SecretOwner \<Rightarrow> ObjectMeta" where
  "owner_meta (OwnerISM i) = ism_Meta i"
| "owner_meta (OwnerRIS r) = ris_Meta r"

text \<open>
  \<open>GVKForObject\<close> goes by the Go type: the flattened cluster resources report the kind of
  their namespaced counterpart.
\<close>

fun owner_kind :: "SecretOwner \<Rightarrow> string" where
  "owner_kind (OwnerISM i) = ''ImageSetMirror''"
| "owner_kind (OwnerRIS r) = ''ReplicatedImageSet''"

definition target_secret :: "string \<Rightarrow> string \<Rightarrow> Secret" where
  "target_secret name namespace =
     \<lparr>sec_Name = name, sec_Namespace = namespace, sec_UID = [], sec_Type = [],
      sec_Data = Map.empty, sec_Labels = Map.empty\<rparr>"

definition mutate_target :: "SecretOwner \<Rightarrow> Secret \<Rightarrow> Secret \<Rightarrow> Secret" where
  "mutate_target owner secret target =
     target\<lparr>sec_Data := sec_Data secret, sec_Type := sec_Type secret,
       sec_Labels := [''kuik.enix.io/owner-version'' \<mapsto> ''v1alpha1'',
                      ''kuik.enix.io/owner-group'' \<mapsto> ''kuik.enix.io'',
                      ''kuik.enix.io/owner-kind'' \<mapsto> owner_kind owner,
                      ''kuik.enix.io/owner-uid'' \<mapsto> om_UID (owner_meta owner),
                      ''kuik.enix.io/owner-name'' \<mapsto> om_Name (owner_meta owner)]\<rparr>"

definition ensureSecret ::
  "WebhookEnv \<Rightarrow> string \<Rightarrow> AlternativeImage \<Rightarrow> bool \<Rightarrow> WebhookState \<Rightarrow> Secret result \<times> WebhookState" where
  "ensureSecret env namespace alternativeImage write st =
     (case (alt_ImagePullSecret alternativeImage, alt_SecretOwner alternativeImage) of
        (Some secret, owner) \<Rightarrow>
          if namespace = sec_Namespace secret then (Inr secret, st)
          else (case owner of
                  None \<Rightarrow> (Inl (EPanic ''nil pointer dereference''), st)
                | Some own \<Rightarrow>
                    (case makeSecretName (we_hash env) ''kuik'' (sec_Name secret)
                            (sec_Namespace secret @ ''/'' @ om_UID (owner_meta own)) of
                       Inl e \<Rightarrow> (Inl e, st)
                     | Inr name \<Rightarrow>
                         (let target = target_secret name namespace
                          in if \<not> write then (Inr target, st)
                             else (let full = mutate_target own secret target
                                   in (case we_createOrUpdate env full of
                                         Some e \<Rightarrow> (Inl e, st)
                                       | None \<Rightarrow> (Inr full, st\<lparr>ws_secrets := ws_secrets st @ [full]\<rparr>))))))
      | (None, _) \<Rightarrow> (Inl (EPanic ''nil pointer dereference''), st))"

section \<open>Reviewing a pod\<close>

definition original_images_annotation :: string where
  "original_images_annotation = ''kuik.enix.io/original-images''"

definition mirror_pod_annotation :: string where
  "mirror_pod_annotation = ''kubernetes.io/config.mirror''"

text \<open>
  The recorded original images: an empty map the annotation is unmarshalled into (whatever
  part of it was read before an error stays).
\<close>

definition read_original_images :: "WebhookEnv \<Rightarrow> Pod \<Rightarrow> string gomap" where
  "read_original_images env pod =
     (case map_get (pod_Annotations pod) original_images_annotation of
        None \<Rightarrow> Some Map.empty
      | Some s \<Rightarrow> fst (we_unmarshal env s))"

definition new_container :: "nat \<Rightarrow> PodContainer \<Rightarrow> bool \<Rightarrow> Container" where
  "new_container i c isInit =
     \<lparr>con_Index = i, con_Container = c, con_IsInit = isInit, con_NormalizedImage = [],
      con_Images = [], con_Alternatives = []\<rparr>"

fun record_containers ::
  "nat \<Rightarrow> PodContainer list \<Rightarrow> string gomap \<Rightarrow> (string gomap \<times> Container list) result" where
  "record_containers i [] m = Inr (m, [])"
| "record_containers i (c # cs) m =
     (if map_get m (ctr_Name c) \<noteq> None then record_containers (Suc i) cs m
      else (case map_set m (ctr_Name c) (ctr_Image c) of
              Inl e \<Rightarrow> Inl e
            | Inr m' \<Rightarrow>
                (case record_containers (Suc i) cs m' of
                   Inl e \<Rightarrow> Inl e
                 | Inr (m'', r) \<Rightarrow> Inr (m'', new_container i c False # r))))"

text \<open>The loop over the init containers looks names up but, unlike the first, writes none.\<close>

definition init_key :: "string \<Rightarrow> string" where
  "init_key name = ''init:'' @ name"

fun select_init_containers :: "nat \<Rightarrow> PodContainer list \<Rightarrow> string gomap \<Rightarrow> Container list" where
  "select_init_containers i [] m = []"
| "select_init_containers i (c # cs) m =
     (if map_get m (init_key (ctr_Name c)) \<noteq> None then select_init_containers (Suc i) cs m
      else new_container i c True # select_init_containers (Suc i) cs m)"

definition set_annotation :: "string \<Rightarrow> string \<Rightarrow> Pod \<Rightarrow> Pod" where
  "set_annotation k v pod =
     pod\<lparr>pod_Annotations := Some ((case pod_Annotations pod of None \<Rightarrow> Map.empty | Some a \<Rightarrow> a)(k \<mapsto> v))\<rparr>"

definition normalize_container :: "ref_parser \<Rightarrow> Container \<Rightarrow> Container" where
  "normalize_container parse c =
     (case parse (ctr_Image (con_Container c)) of
        Inl e \<Rightarrow> c | Inr named \<Rightarrow> c\<lparr>con_NormalizedImage := nmd_String named\<rparr>)"

definition eligible :: "Config \<Rightarrow> Container \<Rightarrow> bool" where
  "eligible cfg c \<longleftrightarrow>
     \<not> (con_NormalizedImage c = [] \<or> CHR ''@'' \<in> set (ctr_Image (con_Container c))
        \<or> (\<not> rt_RewriteOnNeverImagePullPolicy (cfg_Routing cfg)
            \<and> ctr_ImagePullPolicy (con_Container c) = PullNever))"

text \<open>Cluster resources are flattened into their namespaced counterparts, without a namespace.\<close>

definition flatten_cism :: "ClusterImageSetMirror \<Rightarrow> ImageSetMirror" where
  "flatten_cism c =
     \<lparr>ism_Meta = cism_Meta c, ism_Base = cism_Base c, ism_Filter = ToFilter (cism_Filter c),
      ism_MatchingImages = cism_MatchingImages c\<rparr>"

definition flatten_cris :: "ClusterReplicatedImageSet \<Rightarrow> ReplicatedImageSet" where
  "flatten_cris c =
     \<lparr>ris_Meta = cris_Meta c, ris_Priority = cris_Priority c, ris_Upstreams = cris_Upstreams c,
      ris_Filter = ToFilter (cris_Filter c)\<rparr>"

definition own_credential :: "string \<Rightarrow> CredentialSecret option \<Rightarrow> CredentialSecret option" where
  "own_credential ns cred = map_option (\<lambda>cs. cs\<lparr>cs_Namespace := ns\<rparr>) cred"

definition localize_ism :: "ImageSetMirror \<Rightarrow> ImageSetMirror" where
  "localize_ism i =
     i\<lparr>ism_Base := (ism_Base i)\<lparr>isb_Mirrors :=
         map (\<lambda>m. m\<lparr>mir_CredentialSecret := own_credential (om_Namespace (ism_Meta i)) (mir_CredentialSecret m)\<rparr>)
           (isb_Mirrors (ism_Base i))\<rparr>\<rparr>"

definition localize_ris :: "ReplicatedImageSet \<Rightarrow> ReplicatedImageSet" where
  "localize_ris r =
     r\<lparr>ris_Upstreams :=
         map (\<lambda>u. u\<lparr>up_CredentialSecret := own_credential (om_Namespace (ris_Meta r)) (up_CredentialSecret u)\<rparr>)
           (ris_Upstreams r)\<rparr>"

text \<open>Keeping the resources whose pod matcher compiles and matches.\<close>

definition matching :: "('r \<Rightarrow> (Pod \<Rightarrow> bool) result) \<Rightarrow> Pod \<Rightarrow> 'r list \<Rightarrow> 'r list" where
  "matching matcher pod rs = filter (\<lambda>r. case matcher r of Inl _ \<Rightarrow> False | Inr m \<Rightarrow> m pod) rs"

text \<open>The pod's own pull secrets: one that does not exist is skipped.\<close>

fun pod_pull_secrets :: "get_secret \<Rightarrow> string \<Rightarrow> string list \<Rightarrow> Secret list result" where
  "pod_pull_secrets get ns [] = Inr []"
| "pod_pull_secrets get ns (name # names) =
     (case get ns name of
        Inr s \<Rightarrow>
          (case pod_pull_secrets get ns names of Inl e \<Rightarrow> Inl e | Inr ss \<Rightarrow> Inr (s # ss))
      | Inl (ENotFound _) \<Rightarrow> pod_pull_secrets get ns names
      | Inl e \<Rightarrow> Inl e)"

definition set_image :: "Container \<Rightarrow> string \<Rightarrow> Pod \<Rightarrow> Pod" where
  "set_image c img pod =
     (let upd = (\<lambda>cs. cs[con_Index c := (cs ! con_Index c)\<lparr>ctr_Image := img\<rparr>])
      in if con_IsInit c then pod\<lparr>pod_InitContainers := upd (pod_InitContainers pod)\<rparr>
         else pod\<lparr>pod_Containers := upd (pod_Containers pod)\<rparr>)"

definition add_pull_secret :: "string \<Rightarrow> Pod \<Rightarrow> Pod" where
  "add_pull_secret name pod =
     (if name \<in> set (pod_ImagePullSecrets pod) then pod
      else pod\<lparr>pod_ImagePullSecrets := pod_ImagePullSecrets pod @ [name]\<rparr>)"

text \<open>The body of the last loop, for one container.\<close>

definition reroute ::
  "WebhookEnv \<Rightarrow> nat \<Rightarrow> ImageSetMirror list \<Rightarrow> ReplicatedImageSet list \<Rightarrow> Secret list \<Rightarrow> bool \<Rightarrow>
     Container \<Rightarrow> Pod \<Rightarrow> WebhookState \<Rightarrow> Pod result \<times> WebhookState" where
  "reroute env time isms riss secrets dryRun c pod st =
     (case findBestAlternativeCached env time isms riss c secrets st of
        (Inl e, st1) \<Rightarrow> (Inl e, st1)
      | (Inr (None, n), st1) \<Rightarrow> (Inr pod, st1)
      | (Inr (Some alt, n), st1) \<Rightarrow>
          if con_NormalizedImage c = alt_Reference alt then (Inr pod, st1)
          else
            (let pod1 = set_image c (alt_Reference alt) pod
             in if alt_ImagePullSecret alt = None then (Inr pod1, st1)
                else (case ensureSecret env (pod_Namespace pod) alt (\<not> dryRun) st1 of
                        (Inl e, st2) \<Rightarrow> (Inl e, st2)
                      | (Inr target, st2) \<Rightarrow> (Inr (add_pull_secret (sec_Name target) pod1), st2))))"

fun reroute_all ::
  "WebhookEnv \<Rightarrow> nat \<Rightarrow> ImageSetMirror list \<Rightarrow> ReplicatedImageSet list \<Rightarrow> Secret list \<Rightarrow> bool \<Rightarrow>
     Container list \<Rightarrow> Pod \<Rightarrow> WebhookState \<Rightarrow> Pod result \<times> WebhookState" where
  "reroute_all env time isms riss secrets dryRun [] pod st = (Inr pod, st)"
| "reroute_all env time isms riss secrets dryRun (c # cs) pod st =
     (case reroute env time isms riss secrets dryRun c pod st of
        (Inl e, st1) \<Rightarrow> (Inl e, st1)
      | (Inr pod1, st1) \<Rightarrow> reroute_all env (Suc time) isms riss secrets dryRun cs pod1 st1)"

text \<open>The resources that apply to the pod, listed in the order of the code.\<close>

definition list_sources ::
  "WebhookEnv \<Rightarrow> Pod \<Rightarrow> (ImageSetMirror list \<times> ReplicatedImageSet list) result" where
  "list_sources env pod =
     (case we_cisms env of Inl e \<Rightarrow> Inl e | Inr cisms \<Rightarrow>
     (case we_isms env (pod_Namespace pod) of Inl e \<Rightarrow> Inl e | Inr isms \<Rightarrow>
     (case we_criss env of Inl e \<Rightarrow> Inl e | Inr criss \<Rightarrow>
     (case we_riss env (pod_Namespace pod) of Inl e \<Rightarrow> Inl e | Inr riss \<Rightarrow>
       Inr (map flatten_cism (matching (CISM_PodMatcher (we_rx env) (we_sel env)) pod cisms)
              @ map localize_ism (matching (ISM_PodMatcher (we_sel env)) pod isms),
            map flatten_cris (matching (CRIS_PodMatcher (we_rx env) (we_sel env)) pod criss)
              @ map localize_ris (matching (RIS_PodMatcher (we_sel env)) pod riss))))))"

definition review ::
  "WebhookEnv \<Rightarrow> Container list \<Rightarrow> Pod \<Rightarrow> bool \<Rightarrow> WebhookState \<Rightarrow> Pod result \<times> WebhookState" where
  "review env cs pod dryRun st =
     (if length cs = 0 then (Inr pod, st)
      else
        (let cs1 = filter (eligible (we_config env)) (map (normalize_container (we_parse env)) cs)
         in if length cs1 = 0 then (Inr pod, st)
            else (case list_sources env pod of
                    Inl e \<Rightarrow> (Inl e, st)
                  | Inr (isms, riss) \<Rightarrow>
                      (case pod_pull_secrets (we_get env) (pod_Namespace pod) (pod_ImagePullSecrets pod) of
                         Inl e \<Rightarrow> (Inl e, st)
                       | Inr secrets \<Rightarrow> reroute_all env 0 isms riss secrets dryRun cs1 pod st))))"

text \<open>The annotations are made non-nil and the original images written into them.\<close>

definition annotate :: "WebhookEnv \<Rightarrow> string gomap \<Rightarrow> Pod \<Rightarrow> Pod" where
  "annotate env originalImages pod =
     (let pod0 = pod\<lparr>pod_Annotations := Some (case pod_Annotations pod of None \<Rightarrow> Map.empty | Some a \<Rightarrow> a)\<rparr>
      in (case we_marshal env originalImages of
            Inl e \<Rightarrow> pod0
          | Inr s \<Rightarrow> set_annotation original_images_annotation s pod0))"

definition defaultPod ::
  "WebhookEnv \<Rightarrow> PodFilter \<Rightarrow> Pod \<Rightarrow> bool \<Rightarrow> WebhookState \<Rightarrow> Pod result \<times> WebhookState" where
  "defaultPod env globalPodFilter pod dryRun st =
     (if map_get (pod_Annotations pod) mirror_pod_annotation \<noteq> None then (Inr pod, st)
      else if \<not> PodFilter_Match globalPodFilter pod then (Inr pod, st)
      else
        (case record_containers 0 (pod_Containers pod) (read_original_images env pod) of
           Inl e \<Rightarrow> (Inl e, st)
         | Inr (originalImages, cs) \<Rightarrow>
             review env (cs @ select_init_containers 0 (pod_InitContainers pod) originalImages)
               (annotate env originalImages pod) dryRun st))"

text \<open>\<open>Default\<close> dereferences the request's optional \<open>dryRun\<close>.\<close>

definition Default :: "WebhookEnv \<Rightarrow> PodFilter \<Rightarrow> bool option \<Rightarrow> Pod \<Rightarrow> WebhookState \<Rightarrow> Pod result \<times> WebhookState" where
  "Default env globalPodFilter dryRun pod st =
     (case dryRun of
        None \<Rightarrow> (Inl (EPanic ''nil pointer dereference''), st)
      | Some d \<Rightarrow> defaultPod env globalPodFilter pod d st)"

section \<open>What an admission may change\<close>

text \<open>
  \<open>evolved S pod pod'\<close>: the pods differ at most in the images of the containers at the
  positions of \<open>S\<close> (init or not, index), in further pull secrets and in their annotations.
\<close>

definition same_but_image :: "PodContainer \<Rightarrow> PodContainer \<Rightarrow> bool" where
  "same_but_image c c' \<longleftrightarrow> c' = c\<lparr>ctr_Image := ctr_Image c'\<rparr>"

definition images_evolved :: "(nat \<Rightarrow> bool) \<Rightarrow> PodContainer list \<Rightarrow> PodContainer list \<Rightarrow> bool" where
  "images_evolved S cs cs' \<longleftrightarrow>
     length cs' = length cs
     \<and> (\<forall>i<length cs. same_but_image (cs ! i) (cs' ! i) \<and> (S i \<or> cs' ! i = cs ! i))"

definition evolved :: "(bool \<Rightarrow> nat \<Rightarrow> bool) \<Rightarrow> Pod \<Rightarrow> Pod \<Rightarrow> bool" where
  "evolved S pod pod' \<longleftrightarrow>
     pod_Name pod' = pod_Name pod \<and> pod_Namespace pod' = pod_Namespace pod
     \<and> pod_Labels pod' = pod_Labels pod
     \<and> images_evolved (S False) (pod_Containers pod) (pod_Containers pod')
     \<and> images_evolved (S True) (pod_InitContainers pod) (pod_InitContainers pod')
     \<and> (\<exists>extra. pod_ImagePullSecrets pod' = pod_ImagePullSecrets pod @ extra)"

lemma same_but_image_refl [simp]: "same_but_image c c"
  by (simp add: same_but_image_def)

lemma same_but_image_trans: "same_but_image a b \<Longrightarrow> same_but_image b c \<Longrightarrow> same_but_image a c"
  unfolding same_but_image_def by (metis PodContainer.surjective PodContainer.update_convs(2))

lemma images_evolved_refl [simp]: "images_evolved S cs cs"
  by (simp add: images_evolved_def)

lemma images_evolved_trans: "images_evolved S a b \<Longrightarrow> images_evolved S b c \<Longrightarrow> images_evolved S a c"
  unfolding images_evolved_def using same_but_image_trans by metis

lemma nth_update: "j < length cs \<Longrightarrow> cs[i := x] ! j = (if i = j then x else cs ! j)"
  by (cases "i = j") auto

lemma images_evolved_update:
  "S i \<Longrightarrow> images_evolved S cs (cs[i := (cs ! i)\<lparr>ctr_Image := img\<rparr>])"
  by (auto simp: images_evolved_def nth_update same_but_image_def)

lemma evolved_refl [simp]: "evolved S pod pod"
  by (simp add: evolved_def)

lemma evolved_trans: "evolved S a b \<Longrightarrow> evolved S b c \<Longrightarrow> evolved S a c"
  unfolding evolved_def using images_evolved_trans by (metis append.assoc)

lemma evolved_set_image: "S (con_IsInit c) (con_Index c) \<Longrightarrow> evolved S pod (set_image c img pod)"
  by (cases "con_IsInit c") (auto simp: set_image_def Let_def evolved_def images_evolved_update)

lemma evolved_add_pull_secret: "evolved S pod (add_pull_secret name pod)"
  by (auto simp: add_pull_secret_def evolved_def)

lemma reroute_evolved:
  assumes "reroute env t isms riss secrets dry c pod st = (Inr pod', st')"
    and "S (con_IsInit c) (con_Index c)"
  shows "evolved S pod pod'"
  using assms
  by (auto simp: reroute_def Let_def split: prod.splits sum.splits option.splits if_splits
      intro: evolved_trans [OF evolved_set_image evolved_add_pull_secret] evolved_set_image)

lemma reroute_all_evolved:
  assumes "reroute_all env t isms riss secrets dry cs pod st = (Inr pod', st')"
    and "\<forall>c\<in>set cs. S (con_IsInit c) (con_Index c)"
  shows "evolved S pod pod'"
  using assms
proof (induction cs arbitrary: t pod st)
  case Nil
  then show ?case by simp
next
  case (Cons c cs)
  then obtain pod1 st1 where r: "reroute env t isms riss secrets dry c pod st = (Inr pod1, st1)"
    "reroute_all env (Suc t) isms riss secrets dry cs pod1 st1 = (Inr pod', st')"
    by (auto split: prod.splits sum.splits)
  with Cons show ?case using reroute_evolved [OF r(1), of S] evolved_trans by auto
qed

text \<open>The containers selected for review, and where they come from.\<close>

lemma record_containers_new:
  assumes "record_containers i cs m = Inr (m', r)" and "c \<in> set r"
  shows "\<not> con_IsInit c \<and> i \<le> con_Index c \<and> con_Index c < i + length cs
     \<and> con_Container c = cs ! (con_Index c - i) \<and> map_get m (ctr_Name (con_Container c)) = None"
  using assms
proof (induction cs arbitrary: i m r)
  case Nil
  then show ?case by simp
next
  case (Cons x cs)
  show ?case
  proof (cases "map_get m (ctr_Name x) \<noteq> None")
    case True
    with Cons.prems have "record_containers (Suc i) cs m = Inr (m', r)" by simp
    from Cons.IH [OF this Cons.prems(2)] show ?thesis by (auto simp: nth_Cons')
  next
    case False
    with Cons.prems obtain m1 r1 where m1: "map_set m (ctr_Name x) (ctr_Image x) = Inr m1"
      and r1: "record_containers (Suc i) cs m1 = Inr (m', r1)" "r = new_container i x False # r1"
      by (auto split: sum.splits)
    show ?thesis
    proof (cases "c = new_container i x False")
      case True
      with False show ?thesis by (simp add: new_container_def)
    next
      case other: False
      with r1 Cons.prems have "c \<in> set r1" by simp
      from Cons.IH [OF r1(1) this] m1 show ?thesis
        by (auto simp: nth_Cons' map_set_def map_get_def split: option.splits if_splits)
    qed
  qed
qed

lemma select_init_new:
  assumes "c \<in> set (select_init_containers i cs m)"
  shows "con_IsInit c \<and> i \<le> con_Index c \<and> con_Index c < i + length cs
     \<and> con_Container c = cs ! (con_Index c - i) \<and> map_get m (init_key (ctr_Name (con_Container c))) = None"
  using assms
proof (induction cs arbitrary: i)
  case Nil
  then show ?case by simp
next
  case (Cons x cs)
  show ?case
  proof (cases "c = new_container i x True \<and> map_get m (init_key (ctr_Name x)) = None")
    case True
    then show ?thesis by (simp add: new_container_def)
  next
    case False
    with Cons.prems have "c \<in> set (select_init_containers (Suc i) cs m)" by (auto split: if_splits)
    from Cons.IH [OF this] show ?thesis by (auto simp: nth_Cons')
  qed
qed

lemma map_get_record:
  "record_containers i cs m = Inr (m', r) \<Longrightarrow> map_get m k \<noteq> None \<Longrightarrow> map_get m' k = map_get m k"
proof (induction cs arbitrary: i m r)
  case Nil
  then show ?case by simp
next
  case (Cons x cs)
  show ?case
  proof (cases "map_get m (ctr_Name x) \<noteq> None")
    case True
    with Cons show ?thesis by auto
  next
    case False
    with Cons.prems obtain m1 r1 where m1: "map_set m (ctr_Name x) (ctr_Image x) = Inr m1"
      and r1: "record_containers (Suc i) cs m1 = Inr (m', r1)"
      by (auto split: sum.splits)
    have "map_get m1 k = map_get m k"
      using m1 False Cons.prems(2) by (cases m) (auto simp: map_get_def)
    with Cons.IH [OF r1] Cons.prems(2) show ?thesis by simp
  qed
qed

definition rewritable :: "WebhookEnv \<Rightarrow> string gomap \<Rightarrow> string \<Rightarrow> PodContainer \<Rightarrow> bool" where
  "rewritable env recorded key c \<longleftrightarrow>
     map_get recorded key = None \<and> CHR ''@'' \<notin> set (ctr_Image c)
     \<and> (rt_RewriteOnNeverImagePullPolicy (cfg_Routing (we_config env)) \<or> ctr_ImagePullPolicy c \<noteq> PullNever)"

lemma normalize_fields:
  "con_Container (normalize_container parse c) = con_Container c"
  "con_IsInit (normalize_container parse c) = con_IsInit c"
  "con_Index (normalize_container parse c) = con_Index c"
  by (auto simp: normalize_container_def split: sum.splits)

lemma review_evolved:
  assumes "review env cs pod dry st = (Inr pod', st')"
    and "\<And>c. c \<in> set cs \<Longrightarrow> eligible (we_config env) (normalize_container (we_parse env) c) \<Longrightarrow>
           S (con_IsInit c) (con_Index c)"
  shows "evolved S pod pod'"
proof -
  let ?cs = "filter (eligible (we_config env)) (map (normalize_container (we_parse env)) cs)"
  have S: "\<forall>c\<in>set ?cs. S (con_IsInit c) (con_Index c)"
    using assms(2) by (auto simp: normalize_fields)
  from assms(1) consider "pod' = pod"
    | isms riss secrets where "reroute_all env 0 isms riss secrets dry ?cs pod st = (Inr pod', st')"
    by (auto simp: review_def Let_def split: if_splits sum.splits prod.splits)
  then show ?thesis
    by cases (simp, metis reroute_all_evolved S)
qed

lemma evolved_annotations:
  "evolved S (pod\<lparr>pod_Annotations := a\<rparr>) pod' = evolved S pod pod'"
  by (simp add: evolved_def)

lemma annotate_only: "\<exists>a. annotate env m pod = pod\<lparr>pod_Annotations := a\<rparr>"
  by (auto simp: annotate_def set_annotation_def Let_def split: sum.split)

lemma defaultPod_evolved:
  assumes "defaultPod env gf pod dry st = (Inr pod', st')"
  shows "evolved (\<lambda>isInit i.
           if isInit then rewritable env (read_original_images env pod)
                (init_key (ctr_Name (pod_InitContainers pod ! i))) (pod_InitContainers pod ! i)
           else rewritable env (read_original_images env pod)
                (ctr_Name (pod_Containers pod ! i)) (pod_Containers pod ! i)) pod pod'"
    (is "evolved ?S pod pod'")
proof (cases "map_get (pod_Annotations pod) mirror_pod_annotation \<noteq> None \<or> \<not> PodFilter_Match gf pod")
  case True
  with assms show ?thesis by (auto simp: defaultPod_def split: if_splits)
next
  case False
  with assms obtain m cs where rec: "record_containers 0 (pod_Containers pod) (read_original_images env pod) = Inr (m, cs)"
    and rev: "review env (cs @ select_init_containers 0 (pod_InitContainers pod) m) (annotate env m pod) dry st = (Inr pod', st')"
    by (auto simp: defaultPod_def split: sum.splits if_splits)
  have "evolved ?S (annotate env m pod) pod'"
  proof (rule review_evolved [OF rev])
    fix c
    assume c: "c \<in> set (cs @ select_init_containers 0 (pod_InitContainers pod) m)"
      and el: "eligible (we_config env) (normalize_container (we_parse env) c)"
    then have rw: "CHR ''@'' \<notin> set (ctr_Image (con_Container c))"
      "rt_RewriteOnNeverImagePullPolicy (cfg_Routing (we_config env))
        \<or> ctr_ImagePullPolicy (con_Container c) \<noteq> PullNever"
      by (auto simp: eligible_def normalize_fields)
    show "?S (con_IsInit c) (con_Index c)"
    proof (cases "c \<in> set cs")
      case True
      from record_containers_new [OF rec this] have "\<not> con_IsInit c"
        "con_Container c = pod_Containers pod ! con_Index c"
        "map_get (read_original_images env pod) (ctr_Name (con_Container c)) = None" by auto
      with rw show ?thesis by (metis rewritable_def)
    next
      case init: False
      with c have "c \<in> set (select_init_containers 0 (pod_InitContainers pod) m)" by simp
      from select_init_new [OF this] have new: "con_IsInit c"
        "con_Container c = pod_InitContainers pod ! con_Index c"
        "map_get m (init_key (ctr_Name (con_Container c))) = None" by auto
      have "map_get (read_original_images env pod) (init_key (ctr_Name (con_Container c))) = None"
        using map_get_record [OF rec, of "init_key (ctr_Name (con_Container c))"] new(3) by argo
      with rw have "rewritable env (read_original_images env pod)
          (init_key (ctr_Name (con_Container c))) (con_Container c)"
        unfolding rewritable_def by blast
      with new(1,2) show ?thesis by simp
    qed
  qed
  moreover obtain a where "annotate env m pod = pod\<lparr>pod_Annotations := a\<rparr>"
    using annotate_only by blast
  ultimately show ?thesis by (simp only: evolved_annotations)
qed

text \<open>
  C8. An admission rewrites images and nothing else: the pod keeps its identity, labels, its
  containers in their number, order, names and pull policies, and its pull secrets (new ones
  are appended); and an image changes only if its container was not reviewed before, is not
  pinned by digest, and may be pulled (or the operator opted into rewriting \<open>Never\<close>).
\<close>

theorem webhook_rewrites_only_eligible_images:
  assumes "defaultPod env gf pod dry st = (Inr pod', st')"
  shows "pod_Name pod' = pod_Name pod \<and> pod_Namespace pod' = pod_Namespace pod \<and> pod_Labels pod' = pod_Labels pod
     \<and> list_all2 (\<lambda>c c'. same_but_image c c' \<and>
          (c' = c \<or> rewritable env (read_original_images env pod) (ctr_Name c) c))
          (pod_Containers pod) (pod_Containers pod')
     \<and> list_all2 (\<lambda>c c'. same_but_image c c' \<and>
          (c' = c \<or> rewritable env (read_original_images env pod) (init_key (ctr_Name c)) c))
          (pod_InitContainers pod) (pod_InitContainers pod')
     \<and> (\<exists>extra. pod_ImagePullSecrets pod' = pod_ImagePullSecrets pod @ extra)"
  using defaultPod_evolved [OF assms]
  by (auto simp: evolved_def images_evolved_def list_all2_conv_all_nth)

definition example_config :: Config where
  "example_config = defaultConfig"

definition example_pod_of :: "string \<Rightarrow> string \<Rightarrow> string gomap \<Rightarrow> Pod" where
  "example_pod_of ns img annotations =
     \<lparr>pod_Name = ''web'', pod_Namespace = ns, pod_Labels = None, pod_Annotations = annotations,
      pod_Containers = [\<lparr>ctr_Name = ''c'', ctr_Image = img, ctr_ImagePullPolicy = PullIfNotPresent\<rparr>],
      pod_InitContainers = [], pod_ImagePullSecrets = []\<rparr>"

text \<open>An environment for the witnesses: one mirror \<open>m\<close>; the registry answers 404 for \<open>r/a\<close> only.\<close>

definition example_webhook :: "ImageSetMirror list \<Rightarrow> WebhookEnv" where
  "example_webhook isms =
     \<lparr>we_config = example_config, we_rx = all_rx, we_sel = (\<lambda>_. None), we_parse = example_parse,
      we_unmarshal = (\<lambda>s. if s = ''null'' then (None, None) else (Some Map.empty, None)),
      we_marshal = (\<lambda>_. Inr ''m''), we_cisms = Inr [], we_isms = (\<lambda>_. Inr isms),
      we_criss = Inr [], we_riss = (\<lambda>_. Inr []), we_get = no_secret,
      we_createOrUpdate = (\<lambda>_. None), we_hash = (\<lambda>_. 0),
      we_registry = \<lparr>env_DockerConfigJSON = (\<lambda>_. Inr []), env_DockerConfig = (\<lambda>_. Inr []),
        env_MapOrder = rev, env_ParseNamed = example_parse, env_ParseReference = (\<lambda>s. Inr (example_ref s)),
        env_Remote = (\<lambda>_ rq. \<lparr>rs_Headers = None,
          rs_Result = (if rq_Ref rq = ''r/a'' then Inl (ETransport 404) else Inr None)\<rparr>)\<rparr>,
      we_started = (\<lambda>_. []), we_arrival = (\<lambda>_ n. [0..<n]), we_live = (\<lambda>_. False)\<rparr>"

definition no_skips :: PodFilter where
  "no_skips = \<lparr>pdf_includeLabels = [], pdf_excludeLabels = [], pdf_includeAnnotations = [],
     pdf_excludeAnnotations = []\<rparr>"

definition fresh_webhook :: WebhookState where
  "fresh_webhook = \<lparr>ws_checkCache = Map.empty, ws_alternativeCache = Map.empty, ws_cleanups = [],
     ws_secrets = []\<rparr>"

text \<open>The example pod is rewritten to the mirror.\<close>

lemma example_rewrite:
  "case fst (defaultPod (example_webhook [example_mirrors ''ns'' 0 ''m'']) no_skips
       (example_pod_of ''ns'' ''r/a'' None) False fresh_webhook) of
     Inl _ \<Rightarrow> False
   | Inr pod' \<Rightarrow> map ctr_Image (pod_Containers pod') = [''m/a'']"
  by code_simp

theorem webhook_rewrites_only_eligible_images_witness:
  "\<exists>pod' st'. defaultPod (example_webhook [example_mirrors ''ns'' 0 ''m'']) no_skips
       (example_pod_of ''ns'' ''r/a'' None) False fresh_webhook = (Inr pod', st')
     \<and> pod_Namespace pod' = ''ns'' \<and> map ctr_Image (pod_Containers pod') = [''m/a'']"
proof -
  let ?r = "defaultPod (example_webhook [example_mirrors ''ns'' 0 ''m'']) no_skips
       (example_pod_of ''ns'' ''r/a'' None) False fresh_webhook"
  obtain pod' st' where r: "?r = (Inr pod', st')" and img: "map ctr_Image (pod_Containers pod') = [''m/a'']"
    using example_rewrite by (cases ?r) (auto split: sum.splits)
  from webhook_rewrites_only_eligible_images [OF r] r img show ?thesis
    by (auto simp: example_pod_of_def)
qed

section \<open>Rerouting goes to available images only\<close>

lemma check_cached_ok:
  assumes "fst (checkImageAvailabilityCached env img secrets st) = None"
  shows "ws_checkCache st (alt_Reference img) = Some True
    \<or> (ws_checkCache st (alt_Reference img) = None
       \<and> fst (CheckImageAvailability (we_registry env) (alt_Reference img) ''HEAD''
              (act_Timeout (rt_ActiveCheck (cfg_Routing (we_config env)))) secrets
              (act_ResolveDigest (rt_ActiveCheck (cfg_Routing (we_config env))))
              (we_started env (alt_Reference img))) = Inr (Available, None))"
proof (cases "ws_checkCache st (alt_Reference img)")
  case (Some b)
  with assms show ?thesis by (auto simp: checkImageAvailabilityCached_def split: if_splits)
next
  case None
  let ?check = "CheckImageAvailability (we_registry env) (alt_Reference img) ''HEAD''
              (act_Timeout (rt_ActiveCheck (cfg_Routing (we_config env)))) secrets
              (act_ResolveDigest (rt_ActiveCheck (cfg_Routing (we_config env))))
              (we_started env (alt_Reference img))"
  from assms None obtain status where s: "fst ?check = Inr (status, None)"
    by (auto simp: checkImageAvailabilityCached_def Let_def split: sum.splits prod.splits if_splits)
  then have "status = Available"
    using CheckImageAvailability_result [OF s] by (auto simp: check_result_def)
  with s None show ?thesis by simp
qed

lemma find_best_ok:
  assumes "mset arrival = mset [0..<length imgs]"
    and "fst (findBestAlternative arrival check imgs secrets) = Some alt"
  shows "alt \<in> set imgs \<and> check alt (secrets_for secrets alt) = None"
proof -
  let ?f = "\<lambda>i. \<lparr>Value = Some i, Error = check i (secrets @
      (case alt_ImagePullSecret i of None \<Rightarrow> [] | Some s \<Rightarrow> [s]))\<rparr>"
  have v: "Value (?f i) = Some i" for i by simp
  have "fst (FirstSuccessful arrival imgs ?f) = find (\<lambda>i. Error (?f i) = None) imgs"
    unfolding FirstSuccessful_spec [OF assms(1)] first_success_find v by (simp split: option.split)
  moreover have "fst (FirstSuccessful arrival imgs ?f) = Some alt"
    using assms(2) by (auto simp: findBestAlternative_def split: prod.splits if_splits)
  ultimately have "find (\<lambda>i. Error (?f i) = None) imgs = Some alt" by simp
  then show ?thesis by (auto simp: find_Some_iff secrets_for_def)
qed



section \<open>Pull secrets\<close>

lemma tryCleanup_secrets [simp]: "ws_secrets (tryCleanupStaleMirrorStatus cfg img st) = ws_secrets st"
  by (simp add: tryCleanupStaleMirrorStatus_def)

lemma check_secrets [simp]: "ws_secrets (snd (checkImageAvailabilityCached env img secrets st)) = ws_secrets st"
  by (auto simp: checkImageAvailabilityCached_def Let_def split: option.split sum.split prod.split)

lemma run_checks_secrets [simp]: "ws_secrets (run_checks env secrets imgs st) = ws_secrets st"
  by (induction imgs arbitrary: st) simp_all

lemma find_cached_secrets:
  "ws_secrets (snd (findBestAlternativeCached env t isms riss c secrets st)) = ws_secrets st"
  by (auto simp: findBestAlternativeCached_def Let_def split: option.split sum.split prod.split)

lemma mutate_fields:
  "sec_Name (target_secret n ns) = n" "sec_Namespace (target_secret n ns) = ns"
  "sec_Name (mutate_target own s t) = sec_Name t" "sec_Namespace (mutate_target own s t) = sec_Namespace t"
  "sec_Data (mutate_target own s t) = sec_Data s" "sec_Type (mutate_target own s t) = sec_Type s"
  "sec_Labels (mutate_target own s t) ''kuik.enix.io/owner-uid'' = Some (om_UID (owner_meta own))"
  by (simp_all add: mutate_target_def target_secret_def)

lemma ensureSecret_cases:
  assumes "ensureSecret env ns alt write st = (r, st')"
  shows "(ws_secrets st' = ws_secrets st
          \<or> (write \<and> (\<exists>s. ws_secrets st' = ws_secrets st @ [s] \<and> r = Inr s)))
     \<and> (case r of Inl _ \<Rightarrow> True
        | Inr t \<Rightarrow> sec_Namespace t = ns
            \<and> (\<exists>s. alt_ImagePullSecret alt = Some s
                 \<and> (if sec_Namespace s = ns then t = s
                    else \<exists>own. alt_SecretOwner alt = Some own
                      \<and> makeSecretName (we_hash env) ''kuik'' (sec_Name s)
                           (sec_Namespace s @ ''/'' @ om_UID (owner_meta own)) = Inr (sec_Name t)
                      \<and> (\<not> write \<or> (sec_Data t = sec_Data s \<and> sec_Type t = sec_Type s
                            \<and> sec_Labels t ''kuik.enix.io/owner-uid'' = Some (om_UID (owner_meta own))
                            \<and> ws_secrets st' = ws_secrets st @ [t])))))"
proof (cases "alt_ImagePullSecret alt")
  case None
  with assms show ?thesis by (auto simp: ensureSecret_def split: prod.splits)
next
  case sec: (Some s)
  show ?thesis
  proof (cases "ns = sec_Namespace s")
    case True
    with assms sec show ?thesis by (auto simp: ensureSecret_def Let_def)
  next
    case ns: False
    show ?thesis
    proof (cases "alt_SecretOwner alt")
      case None
      with assms sec ns show ?thesis by (auto simp: ensureSecret_def Let_def)
    next
      case own: (Some own)
      show ?thesis
      proof (cases "makeSecretName (we_hash env) ''kuik'' (sec_Name s)
          (sec_Namespace s @ ''/'' @ om_UID (owner_meta own))")
        case (Inl e)
        with assms sec ns own show ?thesis by (auto simp: ensureSecret_def Let_def)
      next
        case (Inr name)
        show ?thesis
        proof (cases "write \<and> we_createOrUpdate env (mutate_target own s (target_secret name ns)) = None")
          case True
          with assms sec ns own Inr have "r = Inr (mutate_target own s (target_secret name ns))"
            "st' = st\<lparr>ws_secrets := ws_secrets st @ [mutate_target own s (target_secret name ns)]\<rparr>"
            by (auto simp: ensureSecret_def Let_def)
          then show ?thesis using True sec ns own Inr by (simp add: mutate_fields)
        next
          case False
          with assms sec ns own Inr show ?thesis
            by (cases "write") (auto simp: ensureSecret_def Let_def mutate_fields)
        qed
      qed
    qed
  qed
qed


definition example_alternative :: AlternativeImage where
  "example_alternative =
     \<lparr>alt_Reference = ''m/a'', alt_CredentialSecret = None,
      alt_ImagePullSecret = Some (example_secret ''x''),
      alt_SecretOwner = Some (OwnerISM (example_mirrors [] 0 ''m''))\<rparr>"


lemma reroute_dry: "ws_secrets (snd (reroute env t isms riss secrets True c pod st)) = ws_secrets st"
proof -
  obtain r st1 where f: "findBestAlternativeCached env t isms riss c secrets st = (r, st1)" by fastforce
  have st1: "ws_secrets st1 = ws_secrets st" using find_cached_secrets [of env t isms riss c secrets st] f by simp
  have dry: "ws_secrets (snd (ensureSecret env ns alt False st1)) = ws_secrets st1" for ns alt
    using ensureSecret_cases [of env ns alt False st1] by (metis prod.collapse)
  show ?thesis
    using st1 dry by (auto simp: reroute_def f Let_def split: sum.split option.split prod.split)
      (metis snd_conv)+
qed

lemma reroute_all_dry:
  "ws_secrets (snd (reroute_all env t isms riss secrets True cs pod st)) = ws_secrets st"
proof (induction cs arbitrary: t pod st)
  case Nil
  then show ?case by simp
next
  case (Cons c cs)
  obtain r st1 where f: "reroute env t isms riss secrets True c pod st = (r, st1)" by fastforce
  with reroute_dry [of env t isms riss secrets c pod st] have "ws_secrets st1 = ws_secrets st" by simp
  with f Cons show ?case by (auto split: sum.split)
qed


section \<open>The record of the original images\<close>

text \<open>The images the annotation should hold: those recorded, then the first per new name.\<close>

fun recorded :: "PodContainer list \<Rightarrow> (string \<rightharpoonup> string) \<Rightarrow> (string \<rightharpoonup> string)" where
  "recorded [] m = m"
| "recorded (c # cs) m =
     recorded cs (if m (ctr_Name c) = None then m(ctr_Name c \<mapsto> ctr_Image c) else m)"

lemma record_containers_map:
  "\<exists>r. record_containers i cs (Some m) = Inr (Some (recorded cs m), r)"
proof (induction cs arbitrary: i m)
  case Nil
  then show ?case by simp
next
  case (Cons c cs)
  show ?case
  proof (cases "m (ctr_Name c)")
    case None
    obtain r where "record_containers (Suc i) cs (Some (m(ctr_Name c \<mapsto> ctr_Image c)))
        = Inr (Some (recorded cs (m(ctr_Name c \<mapsto> ctr_Image c))), r)" using Cons.IH by blast
    with None show ?thesis by simp
  next
    case (Some x)
    with Cons.IH show ?thesis by simp
  qed
qed

lemma recorded_get:
  "recorded cs m k = (case m k of Some x \<Rightarrow> Some x
     | None \<Rightarrow> map_option ctr_Image (find (\<lambda>c. ctr_Name c = k) cs))"
  by (induction cs arbitrary: m) (auto split: option.splits)

lemma reroute_annotations:
  "reroute env t isms riss secrets dry c pod st = (Inr pod', st') \<Longrightarrow> pod_Annotations pod' = pod_Annotations pod"
  by (auto simp: reroute_def set_image_def add_pull_secret_def Let_def
      split: prod.splits sum.splits option.splits if_splits)

lemma reroute_all_annotations:
  "reroute_all env t isms riss secrets dry cs pod st = (Inr pod', st') \<Longrightarrow>
     pod_Annotations pod' = pod_Annotations pod"
  by (induction cs arbitrary: t pod st)
    (auto split: prod.splits sum.splits dest: reroute_annotations)

lemma review_annotations:
  "review env cs pod dry st = (Inr pod', st') \<Longrightarrow> pod_Annotations pod' = pod_Annotations pod"
  by (auto simp: review_def Let_def split: if_splits sum.splits prod.splits dest: reroute_all_annotations)

text \<open>
  The admission remembers what it replaced: the annotation of the resulting pod holds,
  for every regular container, the image recorded by an earlier admission or else the image
  the container came with.
\<close>

theorem original_images_recorded:
  assumes "defaultPod env gf pod dry st = (Inr pod', st')"
    and "map_get (pod_Annotations pod) mirror_pod_annotation = None" and "PodFilter_Match gf pod"
    and "read_original_images env pod = Some m" and "we_marshal env (Some (recorded (pod_Containers pod) m)) = Inr s"
  shows "map_get (pod_Annotations pod') original_images_annotation = Some s
     \<and> list_all (\<lambda>c. recorded (pod_Containers pod) m (ctr_Name c) =
          (case m (ctr_Name c) of Some img \<Rightarrow> Some img
           | None \<Rightarrow> map_option ctr_Image (find (\<lambda>d. ctr_Name d = ctr_Name c) (pod_Containers pod))))
        (pod_Containers pod)"
proof -
  from record_containers_map [of 0 "pod_Containers pod" m] obtain r where
    r: "record_containers 0 (pod_Containers pod) (Some m) = Inr (Some (recorded (pod_Containers pod) m), r)" by blast
  with assms have "review env (r @ select_init_containers 0 (pod_InitContainers pod)
        (Some (recorded (pod_Containers pod) m))) (annotate env (Some (recorded (pod_Containers pod) m)) pod) dry st = (Inr pod', st')"
    by (simp add: defaultPod_def)
  from review_annotations [OF this] assms(5) show ?thesis
    by (auto simp: annotate_def set_annotation_def recorded_get list_all_iff)
qed

theorem original_images_recorded_witness:
  "\<exists>pod' st'. defaultPod (example_webhook [example_mirrors ''ns'' 0 ''m'']) no_skips
       (example_pod_of ''ns'' ''r/a'' None) False fresh_webhook = (Inr pod', st')
     \<and> map_get (pod_Annotations pod') original_images_annotation = Some ''m''"
proof -
  let ?env = "example_webhook [example_mirrors ''ns'' 0 ''m'']"
  let ?pod = "example_pod_of ''ns'' ''r/a'' None"
  obtain pod' st' where r: "defaultPod ?env no_skips ?pod False fresh_webhook = (Inr pod', st')"
    using example_rewrite by (cases "defaultPod ?env no_skips ?pod False fresh_webhook") (auto split: sum.splits)
  have "map_get (pod_Annotations ?pod) mirror_pod_annotation = None" "PodFilter_Match no_skips ?pod"
    "read_original_images ?env ?pod = Some Map.empty"
    "we_marshal ?env (Some (recorded (pod_Containers ?pod) Map.empty)) = Inr ''m''"
    by (simp_all add: example_pod_of_def no_skips_def PodFilter_Match_def matchSelectorSets_def
        read_original_images_def example_webhook_def)
  from original_images_recorded [OF r this] r show ?thesis by blast
qed

text \<open>
  Init containers are rewritten like the others but never remembered: whatever a pod's
  init containers, the record of a fresh pod has no key of an init container, so their
  original images are lost and every later admission reviews them again.
\<close>

theorem init_images_not_recorded:
  assumes "list_all (\<lambda>c. \<not> HasPrefix (ctr_Name c) ''init:'') (pod_Containers pod)"
    and "record_containers 0 (pod_Containers pod) (Some Map.empty) = Inr (m, cs)"
  shows "list_all (\<lambda>c. map_get m (init_key (ctr_Name c)) = None) (pod_InitContainers pod)
     \<and> length (select_init_containers 0 (pod_InitContainers pod) m) = length (pod_InitContainers pod)"
proof -
  have m: "m = Some (recorded (pod_Containers pod) Map.empty)"
    using record_containers_map [of 0 "pod_Containers pod" Map.empty] assms(2) by auto
  have none: "map_get m (init_key k) = None" for k
    using assms(1) unfolding m init_key_def
    by (auto simp: recorded_get find_None_iff list_all_iff HasPrefix_iff)
  have "length (select_init_containers i cs m) = length cs" for i cs
    by (induction cs arbitrary: i) (simp_all add: none)
  with none show ?thesis by (simp add: list_all_iff)
qed

theorem init_images_not_recorded_witness:
  "\<exists>m cs. record_containers 0 (pod_Containers (example_pod_of ''ns'' ''r/a'' None)) (Some Map.empty) = Inr (m, cs)
     \<and> length (select_init_containers 0 (pod_InitContainers (example_pod_of ''ns'' ''r/a'' None)) m) = 0"
proof -
  let ?pod = "example_pod_of ''ns'' ''r/a'' None"
  obtain m cs where r: "record_containers 0 (pod_Containers ?pod) (Some Map.empty) = Inr (m, cs)"
    using record_containers_map by blast
  have "list_all (\<lambda>c. \<not> HasPrefix (ctr_Name c) ''init:'') (pod_Containers ?pod)"
    by (simp add: example_pod_of_def HasPrefix_def)
  from init_images_not_recorded [OF this r] r show ?thesis by (auto simp: example_pod_of_def)
qed

text \<open>
  A pod whose annotation is the JSON value \<open>null\<close> crashes its admission: the decoder sets
  the map to nil and recording the first container writes to it.
\<close>

theorem null_annotation_panics:
  assumes "map_get (pod_Annotations pod) mirror_pod_annotation = None" and "PodFilter_Match gf pod"
    and "map_get (pod_Annotations pod) original_images_annotation = Some s" and "we_unmarshal env s = (None, e)"
    and "pod_Containers pod \<noteq> []"
  shows "defaultPod env gf pod dry st = (Inl (EPanic ''assignment to entry in nil map''), st)"
proof -
  obtain c cs where "pod_Containers pod = c # cs" using assms(5) by (cases "pod_Containers pod") auto
  with assms(1-4) show ?thesis by (simp add: defaultPod_def read_original_images_def)
qed

theorem null_annotation_panics_witness:
  "defaultPod (example_webhook []) no_skips
     (example_pod_of ''ns'' ''r/a'' (Some [original_images_annotation \<mapsto> ''null''])) False fresh_webhook
   = (Inl (EPanic ''assignment to entry in nil map''), fresh_webhook)"
  by (rule null_annotation_panics [where s = "''null''" and e = None])
    (simp_all add: example_pod_of_def no_skips_def PodFilter_Match_def matchSelectorSets_def
      original_images_annotation_def mirror_pod_annotation_def example_webhook_def)

text \<open>
  The cache of decisions is keyed by the image alone: while an entry lives, a pod to which
  no mirror or replicated set applies at all is rerouted as the pod that filled the entry was.
\<close>

theorem cached_decision_crosses_namespaces:
  assumes "we_live env t" and "ws_alternativeCache st (con_NormalizedImage c) = Some (Some alt, n)"
  shows "findBestAlternativeCached env t [] [] c [] st = (Inr (Some alt, n), st)"
  using assms by (simp add: findBestAlternativeCached_def)

theorem cached_decision_crosses_namespaces_witness:
  "findBestAlternativeCached ((example_webhook [])\<lparr>we_live := \<lambda>_. True\<rparr>) 0 [] []
     (example_container PullIfNotPresent ''r/a'') []
     (fresh_webhook\<lparr>ws_alternativeCache := [''r/a'' \<mapsto> (Some example_alternative, 2)]\<rparr>)
   = (Inr (Some example_alternative, 2),
      fresh_webhook\<lparr>ws_alternativeCache := [''r/a'' \<mapsto> (Some example_alternative, 2)]\<rparr>)"
  by (rule cached_decision_crosses_namespaces) (simp_all add: example_container_def)

end
