(* ===== verification/MirrorSafety.thy ===== *)
theory MirrorSafety
  imports MirrorReconciler Webhook
begin

text \<open>
  What the reconcile loop of the mirror resources guarantees: which images it deletes, when a
  resource may disappear, what counts as mirrored, when it runs again and what a run without
  an error has achieved. The laws of the interface reach the two kinds through the
  interpretations \<open>ism\<close> and \<open>cism\<close>.
\<close>

section \<open>An environment for the witnesses\<close>

text \<open>A server that stores what it is sent and a registry that answers \<open>answer\<close>.\<close>

definition example_reconciler ::
  "'o MirrorObject \<Rightarrow> 'o \<Rightarrow> Pod list \<Rightarrow> int \<Rightarrow> string option result \<Rightarrow> 'o RecEnv" where
  "example_reconciler ops x pods now answer =
     \<lparr>re_Ops = ops, re_Net = example_transfer example_index answer, re_Early = False,
      re_GlobalFilter = \<lparr>pdf_includeLabels = [], pdf_excludeLabels = [], pdf_includeAnnotations = [],
        pdf_excludeAnnotations = []\<rparr>,
      re_Platforms = [example_platform ''arm64''], re_Order = rev, re_Originals = (\<lambda>_. []),
      re_Now = (\<lambda>_. now), re_Get = (\<lambda>_. Inr x), re_Update = (\<lambda>_ y. Inr (mo_SetStatus ops (mo_Status ops x) y)), re_Patch = (\<lambda>_ _ y. Inr y),
      re_GetSecret = (\<lambda>_ _ _. Inr zero_secret), re_ListPods = (\<lambda>_ _. Inr pods),
      re_ListClusterMirrors = (\<lambda>_. Inr []), re_ListMirrors = (\<lambda>_. Inr []), re_Retry = (\<lambda>fn. fn)\<rparr>"

definition started :: "'o \<Rightarrow> 'o RecState" where
  "started x = \<lparr>rc_obj = x, rc_events = [], rc_sent = []\<rparr>"

text \<open>A resource with one mirror whose status holds one mirrored image; clean-up is enabled.\<close>

definition example_mirroring :: "string list \<Rightarrow> mtime \<Rightarrow> ImageSetMirror" where
  "example_mirroring finalizers deleted =
     \<lparr>ism_Meta = (example_meta ''team'' ''prod'')\<lparr>om_Finalizers := finalizers, om_DeletionTimestamp := deleted\<rparr>,
      ism_Base = (example_base 0 [example_mirror ''m.io'' ''copy''])\<lparr>isb_Cleanup := \<lparr>cl_Enabled = True, cl_Retention = hour\<rparr>\<rparr>,
      ism_Filter = \<lparr>flt_Include = [\<lparr>fi_Image = ''r.io/b'', fi_Label = [], fi_Annotation = []\<rparr>], flt_Exclude = []\<rparr>,
      ism_MatchingImages = [example_matching ''r.io/a'' [example_mirror_status ''m.io/copy/a'' (Some 5)] None]\<rparr>"

lemma example_fields:
  "re_Get (example_reconciler ops x pods now answer) h = Inr x"
  "re_ListPods (example_reconciler ops x pods now answer) h ns = Inr pods"
  "re_Order (example_reconciler ops x pods now answer) = rev"
  "re_Now (example_reconciler ops x pods now answer) h = now"
  "env_ParseNamed (re_Net (example_reconciler ops x pods now answer)) = example_parse"
  "(example_reconciler ops x pods now answer)\<lparr>re_Ops := ops\<rparr> = example_reconciler ops x pods now answer"
  "rc_events (started x) = []"
  by (simp_all add: example_reconciler_def example_transfer_def started_def)

lemma example_retry: "retry_contract (example_reconciler ops x pods now answer)"
  by (auto simp: retry_contract_def example_reconciler_def intro: retried.once)

lemma example_keeps:
  "mo_Status ops = mo_Status ops' \<Longrightarrow> keeps_status ((example_reconciler ops x pods now answer)\<lparr>re_Ops := ops'\<rparr>)"
  by (auto simp: keeps_status_def example_reconciler_def)

section \<open>Deletions\<close>

lemma retry_contract_ops [simp]: "retry_contract (re\<lparr>re_Ops := ops\<rparr>) = retry_contract re"
  by (simp add: retry_contract_def)

lemma expired_entry_ops [simp]: "expired_entry (re\<lparr>re_Ops := ops\<rparr>) = expired_entry re"
  by (intro ext) (simp add: expired_entry_def)

lemma first_patch_ops [simp]: "first_patch (re\<lparr>re_Ops := ops\<rparr>) = first_patch re"
  by (intro ext) (simp add: first_patch_def)

lemma uses_ops [simp]: "uses (re\<lparr>re_Ops := ops\<rparr>) = uses re" "selected (re\<lparr>re_Ops := ops\<rparr>) = selected re"
  by (intro ext, simp add: uses_def selected_def)+

lemma unused_entry_ops [simp]: "unused_entry (re\<lparr>re_Ops := ops\<rparr>) = unused_entry re"
  by (intro ext) (simp add: unused_entry_def)

lemma logs_deletions:
  "logs (deletes_only D) st st' \<Longrightarrow>
     \<exists>evs. rc_events st' = rc_events st @ evs \<and> (\<forall>d. EvDeleteImage d \<in> set evs \<longrightarrow> D d)"
  by (auto simp: logs_def deletes_only_def list_all_iff)


text \<open>
  In the example the image no longer matches: it is deleted in the same run.
\<close>

lemma example_deletion:
  "EvDeleteImage ''m.io/copy/a'' \<in> set (rc_events (snd (ISM_Reconcile literal_rx presence_sel
     (example_reconciler (ISM_object literal_rx presence_sel) (example_mirroring [] None) [] (2 ^ 64) (Inl (ETransport 404)))
     (started (example_mirroring [] None)))))"
  by code_simp

abbreviation example_run :: "ImageSetMirror \<Rightarrow> string option result \<Rightarrow> int result \<times> ImageSetMirror RecState" where
  "example_run x answer \<equiv> ISM_Reconcile literal_rx presence_sel
     (example_reconciler (ISM_object literal_rx presence_sel) x [] (2 ^ 64) answer) (started x)"



text \<open>One image in use, one unused for longer than the retention: only the second is deleted.\<close>

definition example_clustered :: ClusterImageSetMirror where
  "example_clustered = (example_cism [] [])\<lparr>cism_Base := (example_base 0 [example_mirror ''m.io'' ''copy''])
       \<lparr>isb_Cleanup := \<lparr>cl_Enabled = True, cl_Retention = hour\<rparr>,
        isb_ImageFilter := \<lparr>ifd_Include = [''r.io/a'', ''r.io/b''], ifd_Exclude = []\<rparr>\<rparr>,
      cism_MatchingImages :=
        [example_matching ''r.io/a'' [example_mirror_status ''m.io/copy/a'' (Some 5)] None,
         example_matching ''r.io/b'' [example_mirror_status ''m.io/copy/b'' (Some 5)] (Some 5)]\<rparr>"

abbreviation example_cluster_env :: "ClusterImageSetMirror RecEnv" where
  "example_cluster_env \<equiv> example_reconciler (CISM_object literal_rx presence_sel) example_clustered
     [example_pod_of ''prod'' ''r.io/a'' None] (2 ^ 64) (Inl (ETransport 404))"

lemma example_cluster_deletion:
  "filter (\<lambda>e. \<not> no_delete e) (rc_events (snd (CISM_Reconcile literal_rx presence_sel example_cluster_env
     (started example_clustered)))) = [EvDeleteImage ''m.io/copy/b'']"
  by code_simp


section \<open>The finalizer\<close>

text \<open>A mirror that a deletion counts as cleaned: no credential to delete it with, or deleted.\<close>

definition cleaned :: "'o RecEnv \<Rightarrow> Mirror list \<Rightarrow> string \<Rightarrow> bool" where
  "cleaned re mirrors img \<longleftrightarrow>
     GetCredentialSecretForImage mirrors img = None
     \<or> (\<exists>secret n n'. DeleteImage (re_Net re) (WithPullSecrets [secret] (NewClient [])) img n = (Inr (), n'))"

lemma cleanupMirror_cleaned:
  assumes "cleanupMirror re img ns mirrors st = (Inr True, st')"
  shows "cleaned re mirrors img"
proof (cases "GetCredentialSecretForImage mirrors img")
  case None
  then show ?thesis by (simp add: cleaned_def)
next
  case (Some cred)
  with assms obtain secret st1 n n' where
    "DeleteImage (re_Net re) (WithPullSecrets [secret] (NewClient [])) img n = (Inr (), n')"
    by (auto simp: cleanupMirror_def getImageSecretFromMirrors_def getPullSecret_def on_network_def
        split: prod.splits sum.splits if_splits option.splits elim!: and_then_InrE)
  then show ?thesis by (auto simp: cleaned_def)
qed

lemma delete_mirrors_cleaned:
  assumes "delete_mirrors re ns mirrors ms st = (Inr (), st')" and "m \<in> set ms"
    and "\<not> mt_IsZero (ms_MirroredAt m)"
  shows "cleaned re mirrors (ms_Image m)"
  using assms
proof (induction ms arbitrary: st)
  case Nil
  then show ?case by simp
next
  case (Cons a ms)
  show ?case
  proof (cases "mt_IsZero (ms_MirroredAt a)")
    case True
    with Cons show ?thesis by auto
  next
    case False
    with Cons.prems(1) obtain st1 where "cleanupMirror re (ms_Image a) ns mirrors st = (Inr True, st1)"
      and rec: "delete_mirrors re ns mirrors ms st1 = (Inr (), st')"
      by (auto elim!: and_then_InrE split: if_splits)
    then show ?thesis using Cons cleanupMirror_cleaned by auto
  qed
qed

fun is_update :: "'o RecEvent \<Rightarrow> bool" where
  "is_update (EvUpdate _) = True"
| "is_update _ = False"

lemma not_update: "reads_secret e \<Longrightarrow> \<not> is_update e" "deletes img e \<Longrightarrow> \<not> is_update e"
  by (cases e; simp)+

lemma delete_mirrors_logs: "logs (\<lambda>e. \<not> is_update e) st (snd (delete_mirrors re ns mirrors ms st))"
proof (induction ms arbitrary: st)
  case Nil
  then show ?case by simp
next
  case (Cons a ms)
  have "logs (\<lambda>e. \<not> is_update e) st (snd (cleanupMirror re (ms_Image a) ns mirrors st))"
    by (rule logs_mono [OF cleanupMirror_logs]) (auto dest: not_update)
  then show ?case using Cons.IH by (auto intro!: logs_and_then)
qed

lemma remove_finalizer_updates:
  "logs (\<lambda>e. is_update e \<longrightarrow> (\<exists>z. e = EvUpdate (RemoveFinalizer (re_Ops re) z))) st (snd (remove_finalizer re st))"
  (is "logs ?P _ _")
proof (cases "get_object re st")
  case (Pair r st1)
  have "logs ?P st st1" using api_logs(1) [of ?P st re] Pair by simp
  with Pair show ?thesis
    by (cases r) (auto simp: remove_finalizer_def intro!: logs_trans [of ?P st st1])
qed

lemma reconcile_deletion_updates:
  assumes "retry_contract re" and "reconcile_deletion re st = (r, st')"
    and "rc_events st' = rc_events st @ evs" and "EvUpdate y \<in> set evs"
  shows "(\<exists>z. y = RemoveFinalizer (re_Ops re) z)
    \<and> (\<forall>m\<in>set (concat (map mat_Mirrors (mo_Status (re_Ops re) (rc_obj st)))).
         mt_IsZero (ms_MirroredAt m) \<or> cleaned re (isb_Mirrors (mo_Spec (re_Ops re) (rc_obj st))) (ms_Image m))"
proof -
  let ?x = "rc_obj st" and ?ops = "re_Ops re"
  let ?ms = "concat (map mat_Mirrors (mo_Status ?ops ?x))" and ?mirrors = "isb_Mirrors (mo_Spec ?ops ?x)"
  let ?P = "\<lambda>e. is_update e \<longrightarrow> (\<exists>z. e = EvUpdate (RemoveFinalizer (re_Ops re) z))"
  obtain r1 st1 where d: "delete_mirrors re (om_Namespace (mo_Meta ?ops ?x)) ?mirrors ?ms st = (r1, st1)"
    by (rule prod.exhaust)
  have l1: "logs (\<lambda>e. \<not> is_update e) st st1"
    using delete_mirrors_logs [of st re "om_Namespace (mo_Meta ?ops ?x)" ?mirrors ?ms] d by simp
  have run: "reconcile_deletion re st = (if ContainsFinalizer ?ops ?x
      then and_then (r1, st1) (\<lambda>_ st1. and_then (re_Retry re (remove_finalizer re) st1) (\<lambda>_ st2. (Inr 0, st2)))
      else (Inr 0, st))" by (simp add: reconcile_deletion_def Let_def d)
  have noup: "\<not> logs (\<lambda>e. \<not> is_update e) st st'"
    using assms(3,4) is_update.simps(1) [of y] by (auto simp: logs_def list_all_iff simp del: is_update.simps(1))
  have ok: "r1 = Inr ()" and fin: "ContainsFinalizer ?ops ?x"
    using noup assms(2) l1 unfolding run by (cases r1; force split: if_splits)+
  have "logs ?P st1 (snd (re_Retry re (remove_finalizer re) st1))"
    by (intro retry_logs assms(1) remove_finalizer_updates)
  then have "logs ?P st1 st'"
    using assms(2) ok fin unfolding run by (cases "re_Retry re (remove_finalizer re) st1"; cases "fst (re_Retry re (remove_finalizer re) st1)") auto
  with l1 have "logs ?P st st'" by (auto intro: logs_trans logs_mono)
  with assms(3,4) have "\<exists>z. y = RemoveFinalizer ?ops z" by (auto simp: logs_def list_all_iff)
  moreover have "\<forall>m\<in>set ?ms. mt_IsZero (ms_MirroredAt m) \<or> cleaned re ?mirrors (ms_Image m)"
    using delete_mirrors_cleaned d ok by blast
  ultimately show ?thesis by simp
qed

lemma reconcile_deletion_extends:
  assumes "retry_contract re" and "reconcile_deletion re st = (r, st')"
  shows "logs (\<lambda>_. True) st st'"
proof -
  have "logs (\<lambda>_. True) st (snd (reconcile_deletion re st))"
    unfolding reconcile_deletion_def Let_def
    by (auto intro!: logs_and_then retry_logs assms(1) logs_mono [OF delete_mirrors_logs]
        logs_mono [OF remove_finalizer_updates])
  with assms(2) show ?thesis by simp
qed

lemma reconcile_deleting:
  assumes "re_Get re (rc_events st) = Inr x" and "\<not> mt_IsZero (om_DeletionTimestamp (mo_Meta (re_Ops re) x))"
  shows "reconcile re st = reconcile_deletion re ((log_event EvGet st)\<lparr>rc_obj := x\<rparr>)"
  using assms by (simp add: reconcile_def get_object_def Let_def)


lemma example_finalizer_run:
  "filter is_update (rc_events (snd (example_run (example_mirroring [imageSetMirrorFinalizer] (Some 9)) (Inl (ETransport 404)))))
   = [EvUpdate (example_mirroring [] (Some 9))]"
  by code_simp


section \<open>What counts as mirrored\<close>

text \<open>The destination answers, or the copy of the source succeeded.\<close>

definition at_destination :: "'o RecEnv \<Rightarrow> string \<Rightarrow> bool" where
  "at_destination re dest \<longleftrightarrow>
     (\<exists>secret n x n'. GetDescriptor (re_Early re) (re_Net re) (WithPullSecrets [secret] (NewClient [])) dest n
        = ((x, None), n'))"

definition copied_to :: "'o RecEnv \<Rightarrow> string \<Rightarrow> bool" where
  "copied_to re dest \<longleftrightarrow>
     (\<exists>secret d n n'. CopyImage (re_Net re) (WithPullSecrets [secret] (WithTimeout 0 (NewClient []))) d dest
        (re_Platforms re) n = (Inr (), n'))"

lemma deferred_check_result:
  assumes "deferred_check re [secret] to err st = (Inr (e, to'), st')"
  shows "e = Some err \<and> to' = to
    \<or> e = None \<and> (\<exists>t. to' = to\<lparr>ms_MirroredAt := Some t\<rparr>) \<and> at_destination re (ms_Image to)"
  using assms
  by (auto simp: deferred_check_def on_network_def at_destination_def split: if_splits prod.splits option.splits)

lemma execute_loop_panics:
  "execute_loop (\<lambda>_ n. (Inl (EPanic msg), n)) ks errs st \<noteq> (Inr x, st')"
  by (cases ks) auto

lemma copy_image_success:
  assumes "copy_image re [secret] desc dest st = (Inr u, st')"
  shows "copied_to re dest"
proof (cases desc)
  case None
  with assms show ?thesis
    by (auto simp: copy_image_def on_network_def Execute_def execute_loop_panics Let_def
        split: sum.splits prod.splits if_splits)
next
  case (Some d)
  with assms show ?thesis
    by (auto simp: copy_image_def on_network_def copied_to_def Let_def split: prod.splits)
qed

lemma mirrorImage_result:
  assumes "mirrorImage re ns mirrors byImage src to st = (Inr (err, to'), st')"
  shows "if err = None
         then (\<exists>t. to' = to\<lparr>ms_MirroredAt := Some t\<rparr>) \<and> (copied_to re (ms_Image to) \<or> at_destination re (ms_Image to))
         else to' = to"
proof -
  obtain r1 st1 where r1: "getPullSecretsFromPods re byImage src st = (r1, st1)" by (rule prod.exhaust)
  obtain r2 st2 where r2: "getImageSecretFromMirrors re (ms_Image to) ns mirrors st1 = (r2, st2)" by (rule prod.exhaust)
  show ?thesis
  proof (cases "\<exists>s secret. r1 = Inr s \<and> r2 = Inr secret")
    case False
    with assms r1 r2 show ?thesis by (auto simp: mirrorImage_def split: sum.splits)
  next
    case True
    then obtain s secret where ok: "r1 = Inr s" "r2 = Inr secret" by blast
    let ?d = "case secret of None \<Rightarrow> zero_secret | Some s \<Rightarrow> s"
    obtain desc e st3 where g: "on_network (GetDescriptor (re_Early re) (re_Net re)
        (WithPullSecrets s (NewClient [])) src) st2 = ((desc, e), st3)" by (metis prod.exhaust)
    obtain r4 st4 where c: "copy_image re [?d] desc (ms_Image to) (log_event (EvCopyImage src (ms_Image to)) st3) = (r4, st4)"
      by (rule prod.exhaust)
    note run = assms r1 r2 ok g
    show ?thesis
    proof (cases e)
      case (Some e')
      with run have "deferred_check re [?d] to e' st3 = (Inr (err, to'), st')"
        by (simp add: mirrorImage_def Let_def)
      from deferred_check_result [OF this] show ?thesis by auto
    next
      case None
      show ?thesis
      proof (cases r4)
        case (Inl e')
        with None run c have "deferred_check re [?d] to e' st4 = (Inr (err, to'), st')"
          by (simp add: mirrorImage_def Let_def)
        from deferred_check_result [OF this] show ?thesis by auto
      next
        case (Inr u)
        with c have "copied_to re (ms_Image to)" by (intro copy_image_success) simp
        with None run c Inr show ?thesis by (auto simp: mirrorImage_def Let_def)
      qed
    qed
  qed
qed



section \<open>What the clean-up keeps and when it runs again\<close>

text \<open>With a clock that reads \<open>now\<close>: the entries that stay and the delays still to wait.\<close>

definition stays :: "Cleanup \<Rightarrow> int \<Rightarrow> MatchingImage \<Rightarrow> bool" where
  "stays c now i \<longleftrightarrow>
     (case mat_UnusedSince i of
        None \<Rightarrow> True
      | Some since \<Rightarrow> mat_Mirrors i \<noteq> [] \<and> (\<not> cl_Enabled c \<or> delete_after c now since > 0))"

definition pending_delays :: "Cleanup \<Rightarrow> int \<Rightarrow> MatchingImage list \<Rightarrow> int list" where
  "pending_delays c now imgs =
     List.map_filter (\<lambda>i. case mat_UnusedSince i of
         None \<Rightarrow> None
       | Some since \<Rightarrow>
           if mat_Mirrors i \<noteq> [] \<and> cl_Enabled c \<and> delete_after c now since > 0
           then Some (delete_after c now since) else None) imgs"

lemma sooner_self: "sooner (sooner r d) d = sooner r d"
  by (simp add: sooner_def)

lemma foldl_sooner:
  assumes "\<forall>d\<in>set ds. d > 0" and "r \<ge> 0"
  shows "foldl sooner r ds = (if ds = [] then r else if r = 0 then Min (set ds) else Min (insert r (set ds)))"
  using assms
proof (induction ds arbitrary: r)
  case Nil
  then show ?case by simp
next
  case (Cons d ds)
  have d: "d > 0" and s: "sooner r d > 0" using Cons.prems by (auto simp: sooner_def)
  have IH: "foldl sooner (sooner r d) ds = (if ds = [] then sooner r d else Min (insert (sooner r d) (set ds)))"
    using Cons.IH [of "sooner r d"] Cons.prems s by simp
  have "sooner r d = (if r = 0 then d else min r d)" by (auto simp: sooner_def)
  with IH show ?case by (cases "ds = []") (auto simp: Min_insert2 insert_commute min.assoc min.left_commute)
qed

lemma pending_delays_positive: "\<forall>d\<in>set (pending_delays c now imgs). d > 0"
  by (auto simp: pending_delays_def set_map_filter split: option.splits if_splits)

lemma cleanup_mirrors_spec:
  assumes "\<And>h. re_Now re h = now"
    and "cleanup_mirrors re ns spec since ms rq f st = (Inr (kept, rq', f'), st')"
    and "d = delete_after (isb_Cleanup spec) now since" and "wait \<longleftrightarrow> \<not> cl_Enabled (isb_Cleanup spec) \<or> d > 0"
  shows "(f \<longrightarrow> f') \<and> (wait \<longrightarrow> kept = ms) \<and> (\<not> wait \<and> \<not> f' \<longrightarrow> kept = [])
    \<and> rq' = (if cl_Enabled (isb_Cleanup spec) \<and> d > 0 \<and> ms \<noteq> [] then sooner rq d else rq)"
  using assms(2)
proof (induction ms arbitrary: rq f st kept)
  case Nil
  then show ?case by simp
next
  case (Cons m ms)
  let ?en = "cl_Enabled (isb_Cleanup spec)"
  consider (off) "\<not> ?en" | (wait) "?en" "d > 0" | (gone) "?en" "\<not> d > 0" "ms_MirroredAt m \<noteq> None"
    | (skip) "?en" "\<not> d > 0" "ms_MirroredAt m = None" by blast
  then show ?case
  proof cases
    case off
    with Cons.prems obtain k where "cleanup_mirrors re ns spec since ms rq f st = (Inr (k, rq', f'), st')" "kept = m # k"
      by (auto simp: Let_def elim!: and_then_InrE)
    with Cons.IH off assms(4) show ?thesis by auto
  next
    case wait
    with Cons.prems assms(1,3) obtain k where
      c: "cleanup_mirrors re ns spec since ms (sooner rq d) f st = (Inr (k, rq', f'), st')" "kept = m # k"
      by (auto simp: Let_def elim!: and_then_InrE)
    from Cons.IH [OF c(1)] c(2) wait assms(4) show ?thesis by (auto simp: sooner_self split: if_splits)
  next
    case gone
    with Cons.prems assms(1,3) obtain ok st1 where ok: "cleanupMirror re (ms_Image m) ns (isb_Mirrors spec) st = (Inr ok, st1)"
      and rest: "ok \<and> cleanup_mirrors re ns spec since ms rq f st1 = (Inr (kept, rq', f'), st')
        \<or> (\<exists>k. cleanup_mirrors re ns spec since ms rq True st1 = (Inr (k, rq', f'), st') \<and> kept = m # k)"
      by (auto simp: Let_def elim!: and_then_InrE split: if_splits)
    from rest show ?thesis
    proof (elim disjE conjE exE)
      assume "cleanup_mirrors re ns spec since ms rq f st1 = (Inr (kept, rq', f'), st')"
      from Cons.IH [OF this] gone assms(4) show ?thesis by simp
    next
      fix k assume "cleanup_mirrors re ns spec since ms rq True st1 = (Inr (k, rq', f'), st')"
      from Cons.IH [OF this] gone assms(4) show ?thesis by simp
    qed
  next
    case skip
    with Cons.prems assms(1,3) have "cleanup_mirrors re ns spec since ms rq f st = (Inr (kept, rq', f'), st')"
      by (auto simp: Let_def)
    with Cons.IH skip assms(4) show ?thesis by auto
  qed
qed

lemma cleanup_images_spec:
  assumes clock: "\<And>h. re_Now re h = now"
    and "cleanup_images re ns spec imgs rq f st = (Inr (stay, inplace, rq', f'), st')"
  shows "(f \<longrightarrow> f') \<and> rq' = foldl sooner rq (pending_delays (isb_Cleanup spec) now imgs)
    \<and> (\<not> f' \<longrightarrow> stay = filter (stays (isb_Cleanup spec) now) imgs)
    \<and> (\<forall>i\<in>set imgs. mat_UnusedSince i = None \<longrightarrow> i \<in> set stay)
    \<and> length inplace = length imgs \<and> length stay \<le> length imgs \<and> (length stay = length imgs \<longrightarrow> stay = inplace)"
  using assms(2)
proof (induction imgs arbitrary: rq f st stay inplace)
  case Nil
  then show ?case by (simp add: pending_delays_def List.map_filter_def)
next
  case (Cons i imgs)
  let ?c = "isb_Cleanup spec"
  show ?case
  proof (cases "mat_UnusedSince i")
    case None
    with Cons.prems obtain s p where c: "cleanup_images re ns spec imgs rq f st = (Inr (s, p, rq', f'), st')"
      "stay = i # s" "inplace = i # p" by (auto elim!: and_then_InrE)
    from Cons.IH [OF c(1)] c(2,3) None show ?thesis
      by (auto simp: stays_def pending_delays_def List.map_filter_def)
  next
    case (Some since)
    let ?d = "delete_after ?c now since"
    from Some Cons.prems obtain kept rq1 f1 st1 s p where
      m: "cleanup_mirrors re ns spec since (mat_Mirrors i) rq f st = (Inr (kept, rq1, f1), st1)"
      and c: "cleanup_images re ns spec imgs rq1 f1 st1 = (Inr (s, p, rq', f'), st')"
      and r: "if kept \<noteq> [] then stay = i\<lparr>mat_Mirrors := kept\<rparr> # s \<and> inplace = i\<lparr>mat_Mirrors := kept\<rparr> # p
              else stay = s \<and> inplace = i # p"
      by (auto elim!: and_then_InrE split: if_splits)
    note ms = cleanup_mirrors_spec [OF clock m refl refl]
    have rq1: "foldl sooner rq1 (pending_delays ?c now imgs) = foldl sooner rq (pending_delays ?c now (i # imgs))"
      using ms Some by (auto simp: pending_delays_def List.map_filter_def)
    have st: "stay = filter (stays ?c now) (i # imgs)" if "\<not> f'" "s = filter (stays ?c now) imgs"
    proof -
      have "\<not> f1" using Cons.IH [OF c] that(1) by blast
      then have "kept = (if \<not> cl_Enabled ?c \<or> ?d > 0 then mat_Mirrors i else [])" using ms by auto
      with r that(2) Some show ?thesis by (auto simp: stays_def split: if_splits)
    qed
    show ?thesis
      using Cons.IH [OF c] ms r st rq1 Some by (auto split: if_splits)
  qed
qed

lemma cleanup_images_keeps_used:
  assumes "cleanup_images re ns spec imgs rq f st = (Inr (stay, inplace, rq', f'), st')"
    and "i \<in> set imgs" and "mat_UnusedSince i = None"
  shows "i \<in> set stay"
  using assms
proof (induction imgs arbitrary: rq f st stay inplace)
  case Nil
  then show ?case by simp
next
  case (Cons a imgs)
  show ?case
  proof (cases "mat_UnusedSince a")
    case None
    with Cons.prems(1) obtain s p where "cleanup_images re ns spec imgs rq f st = (Inr (s, p, rq', f'), st')"
      "stay = a # s" by (auto elim!: and_then_InrE)
    with Cons show ?thesis by auto
  next
    case (Some since)
    with Cons.prems(1) obtain kept rq1 f1 st1 s p where
      "cleanup_mirrors re ns spec since (mat_Mirrors a) rq f st = (Inr (kept, rq1, f1), st1)"
      "cleanup_images re ns spec imgs rq1 f1 st1 = (Inr (s, p, rq', f'), st')"
      "if kept \<noteq> [] then stay = a\<lparr>mat_Mirrors := kept\<rparr> # s else stay = s"
      by (auto elim!: and_then_InrE split: if_splits)
    then have "cleanup_images re ns spec imgs rq1 f1 st1 = (Inr (s, p, rq', f'), st')" "set s \<subseteq> set stay"
      by (auto split: if_splits)
    with Cons Some show ?thesis by auto
  qed
qed

text \<open>
  Without a failed deletion the clean-up drops exactly the entries that are over: those
  unused whose retention has passed, or that have no mirror left. The controller asks to run
  again after the shortest delay still pending, or not at all when none is.
\<close>

theorem cleanup_drops_expired_and_requeues:
  assumes "\<And>h. re_Now re h = now"
    and "cleanup_images re ns spec imgs 0 False st = (Inr (stay, inplace, requeue, failed), st')"
  shows "(\<not> failed \<longrightarrow> stay = filter (stays (isb_Cleanup spec) now) imgs)
    \<and> requeue = (let ds = pending_delays (isb_Cleanup spec) now imgs in if ds = [] then 0 else Min (set ds))"
  using cleanup_images_spec [OF assms] foldl_sooner [OF pending_delays_positive, of 0]
  by (auto simp: Let_def)

theorem cleanup_drops_expired_and_requeues_witness:
  "\<exists>stay inplace requeue failed st'. cleanup_images
       (example_reconciler (ISM_object literal_rx presence_sel) (example_mirroring [] None) [] (10 + hour) (Inl (ETransport 404)))
       ''prod'' (ism_Base (example_mirroring [] None))
       [example_matching ''r.io/a'' [example_mirror_status ''m.io/copy/a'' (Some 5)] (Some 20),
        example_matching ''r.io/b'' [example_mirror_status ''m.io/copy/b'' (Some 5)] (Some 5)]
       0 False (started (example_mirroring [] None)) = (Inr (stay, inplace, requeue, failed), st')
     \<and> requeue = 10"
proof -
  let ?re = "example_reconciler (ISM_object literal_rx presence_sel) (example_mirroring [] None) [] (10 + hour) (Inl (ETransport 404))"
  let ?imgs = "[example_matching ''r.io/a'' [example_mirror_status ''m.io/copy/a'' (Some 5)] (Some 20),
        example_matching ''r.io/b'' [example_mirror_status ''m.io/copy/b'' (Some 5)] (Some 5)]"
  let ?r = "cleanup_images ?re ''prod'' (ism_Base (example_mirroring [] None)) ?imgs 0 False (started (example_mirroring [] None))"
  have "is_ok (fst ?r)" by code_simp
  then obtain stay inplace requeue failed st' where r: "?r = (Inr (stay, inplace, requeue, failed), st')"
    by (cases ?r; cases "fst ?r") auto
  have "pending_delays (isb_Cleanup (ism_Base (example_mirroring [] None))) (10 + hour) ?imgs = [10]" by code_simp
  with cleanup_drops_expired_and_requeues [OF example_fields(4) r] r show ?thesis by (simp add: Let_def)
qed

text \<open>
  An image that the filter stops matching is queued for instant expiry, and the marker does
  what it is meant to, whatever the retention: \<open>time.Since\<close> saturates at 292 years, and the
  difference is over at once. Only a negative retention below \<open>-1ns\<close> wraps around and keeps
  the image for centuries.
\<close>

theorem unmatched_image_expires_at_once:
  assumes "is_dur (cl_Retention c)" and "now \<ge> 2 ^ 63 + hour"
  shows "\<exists>since. unused_since now False in_use previous = Some since
    \<and> (delete_after c now since \<le> 0 \<longleftrightarrow> cl_Retention c \<ge> -1)"
proof -
  have "unused_since now False in_use previous = Some instant_expiry" by (simp add: unused_since_def)
  moreover have "delete_after c now instant_expiry = i64 (cl_Retention c - max_dur)"
    using assms(2) by (simp add: delete_after_def time_sub_def instant_expiry_def min_dur_def max_dur_def)
  moreover have "i64 (cl_Retention c - max_dur) \<le> 0 \<longleftrightarrow> cl_Retention c \<ge> -1"
  proof (cases "cl_Retention c \<ge> -1")
    case True
    then have "is_dur (cl_Retention c - max_dur)" using assms(1) by (simp add: is_dur_def min_dur_def max_dur_def)
    then show ?thesis using True assms(1) by (simp add: i64_id is_dur_def)
  next
    case False
    have "i64 (cl_Retention c - max_dur) = cl_Retention c - max_dur + 2 ^ 64"
      unfolding i64_def by (subst mod_add_self2 [symmetric]) (use False assms(1) in \<open>simp add: is_dur_def min_dur_def max_dur_def\<close>)
    then show ?thesis using False assms(1) by (simp add: is_dur_def min_dur_def max_dur_def)
  qed
  ultimately show ?thesis by simp
qed

theorem unmatched_image_expires_at_once_witness:
  "\<exists>since. unused_since (2 ^ 63 + hour) False True None = Some since
     \<and> delete_after \<lparr>cl_Enabled = True, cl_Retention = 24 * hour\<rparr> (2 ^ 63 + hour) since \<le> 0"
  using unmatched_image_expires_at_once [of "\<lparr>cl_Enabled = True, cl_Retention = 24 * hour\<rparr>" "2 ^ 63 + hour" True None]
  by (simp add: is_dur_def min_dur_def max_dur_def hour_def)

end
