(* ===== verification/MirrorProgress.thy ===== *)
theory MirrorProgress
  imports MirrorSafety
begin

text \<open>
  What a reconcile of a mirror resource achieves: after a run without an error every matching
  image of the selected pods is on every mirror; which resources a pod wakes up; and two
  limits of the code, destinations that collide and clean-ups that are not recorded.
\<close>

section \<open>Mirroring\<close>

definition all_mirrored :: "MirrorStatus list \<Rightarrow> bool" where
  "all_mirrored ms \<longleftrightarrow> (\<forall>m\<in>set ms. ms_MirroredAt m \<noteq> None)"

definition image_done :: "MatchingImage \<Rightarrow> bool" where
  "image_done i \<longleftrightarrow> (mat_UnusedSince i = None \<longrightarrow> all_mirrored (mat_Mirrors i))"

lemma mirror_mirrors_result:
  assumes "mirror_mirrors re ns mirrors byImage src ms f st = (Inr (ms', f'), st')"
  shows "(f \<longrightarrow> f') \<and> map ms_Image ms' = map ms_Image ms \<and> (\<not> f' \<longrightarrow> all_mirrored ms')"
  using assms
proof (induction ms arbitrary: f st ms')
  case Nil
  then show ?case by (simp add: all_mirrored_def)
next
  case (Cons m ms)
  show ?case
  proof (cases "ms_MirroredAt m = None")
    case False
    with Cons.prems obtain ms1 where c: "mirror_mirrors re ns mirrors byImage src ms f st = (Inr (ms1, f'), st')"
      "ms' = m # ms1" by (auto elim!: and_then_InrE)
    from Cons.IH [OF c(1)] c(2) False show ?thesis by (auto simp: all_mirrored_def)
  next
    case True
    with Cons.prems obtain err m1 st1 ms1 where
      i: "mirrorImage re ns mirrors byImage src m st = (Inr (err, m1), st1)"
      and c: "mirror_mirrors re ns mirrors byImage src ms (f \<or> err \<noteq> None) st1 = (Inr (ms1, f'), st')"
      and ms': "ms' = m1\<lparr>ms_LastError := err\<rparr> # ms1" by (auto elim!: and_then_InrE)
    from mirrorImage_result [OF i] have "ms_Image m1 = ms_Image m" "err = None \<Longrightarrow> ms_MirroredAt m1 \<noteq> None"
      by (auto split: if_splits)
    with Cons.IH [OF c] ms' show ?thesis by (cases err) (auto simp: all_mirrored_def)
  qed
qed

text \<open>An entry after the mirroring: the same image and use, the same mirrors in their order.\<close>

definition same_entry :: "MatchingImage \<Rightarrow> MatchingImage \<Rightarrow> bool" where
  "same_entry i j \<longleftrightarrow> mat_Image j = mat_Image i \<and> mat_UnusedSince j = mat_UnusedSince i
     \<and> map ms_Image (mat_Mirrors j) = map ms_Image (mat_Mirrors i)"

lemma same_entry_refl [simp]: "same_entry i i"
  by (simp add: same_entry_def)

lemma same_entry_trans: "same_entry i j \<Longrightarrow> same_entry j k \<Longrightarrow> same_entry i k"
  by (simp add: same_entry_def)

lemma patch_status_result:
  assumes "patch_status re original st = (Inr u, st')" and "keeps_status re"
  shows "mo_Status (re_Ops re) (rc_obj st') = mo_Status (re_Ops re) (rc_obj st)"
  using assms by (auto simp: patch_status_def keeps_status_def split: sum.splits)

context mirror_object
begin

lemma mirror_images_result:
  assumes "re_Ops re = ops" and keeps: "keeps_status re"
    and "mirror_images re ns byImage is f st = (Inr f', st')"
  shows "(f \<longrightarrow> f') \<and> list_all2 same_entry (mo_Status ops (rc_obj st)) (mo_Status ops (rc_obj st'))
    \<and> (\<not> f' \<longrightarrow> (\<forall>j<length (mo_Status ops (rc_obj st)).
         j \<in> set is \<or> image_done (mo_Status ops (rc_obj st) ! j) \<longrightarrow> image_done (mo_Status ops (rc_obj st') ! j)))"
  using assms(3)
proof (induction "is" arbitrary: f st)
  case Nil
  then show ?case by (simp add: list_all2_refl)
next
  case (Cons i "is")
  let ?imgs = "mo_Status ops (rc_obj st)"
  have i: "i < length ?imgs" using Cons.prems assms(1) by (auto simp: Let_def split: if_splits)
  show ?case
  proof (cases "mat_UnusedSince (?imgs ! i) = None")
    case False
    then have r: "mirror_images re ns byImage is f st = (Inr f', st')"
      using Cons.prems assms(1) i by (simp add: Let_def)
    have "image_done (?imgs ! i)" using False unfolding image_done_def by blast
    with Cons.IH [OF r] show ?thesis by auto
  next
    case True
    with Cons.prems assms(1) i obtain ms' f1 st1 st2 where
      m: "mirror_mirrors re ns (isb_Mirrors (mo_Spec ops (rc_obj st))) byImage
            (mat_Image (?imgs ! i)) (mat_Mirrors (?imgs ! i)) f st = (Inr (ms', f1), st1)"
      and p: "patch_status re (rc_obj st) (st1\<lparr>rc_obj := mo_SetStatus ops
            (?imgs[i := (?imgs ! i)\<lparr>mat_Mirrors := ms'\<rparr>]) (rc_obj st)\<rparr>) = (Inr (), st2)"
      and r: "mirror_images re ns byImage is f1 st2 = (Inr f', st')"
      by (auto simp: Let_def elim!: and_then_InrE)
    let ?imgs2 = "?imgs[i := (?imgs ! i)\<lparr>mat_Mirrors := ms'\<rparr>]"
    have s2: "mo_Status ops (rc_obj st2) = ?imgs2"
      using patch_status_result [OF p keeps] assms(1) by simp
    note mm = mirror_mirrors_result [OF m] and IH = Cons.IH [OF r, unfolded s2]
    have e: "same_entry (?imgs ! i) ((?imgs ! i)\<lparr>mat_Mirrors := ms'\<rparr>)" using mm by (simp add: same_entry_def)
    have "list_all2 same_entry ?imgs ?imgs2"
      unfolding list_all2_conv_all_nth
    proof (intro conjI allI impI)
      fix k assume "k < length ?imgs"
      then show "same_entry (?imgs ! k) (?imgs2 ! k)" using e by (cases "k = i") simp_all
    qed simp
    then have l: "list_all2 same_entry ?imgs (mo_Status ops (rc_obj st'))"
      using IH by (auto intro: list_all2_trans [OF same_entry_trans])
    have "image_done (mo_Status ops (rc_obj st') ! j)"
      if j: "\<not> f'" "j < length ?imgs" "j \<in> set (i # is) \<or> image_done (?imgs ! j)" for j
    proof -
      have "\<not> f1" using IH j(1) by blast
      then have "image_done (?imgs2 ! i)" using mm i by (simp add: image_done_def)
      with j have "j \<in> set is \<or> image_done (?imgs2 ! j)" by (cases "j = i") auto
      with IH j(1,2) show ?thesis by (simp only: length_list_update) blast
    qed
    with mm IH l show ?thesis by blast
  qed
qed

lemma cleanup_unused_result:
  assumes "re_Ops re = ops" and keeps: "keeps_status re" and "cleanup_unused re ns st = (Inr r, st')"
    and "i \<in> set (mo_Status ops (rc_obj st))" and "mat_UnusedSince i = None"
  shows "i \<in> set (mo_Status ops (rc_obj st'))"
proof -
  from assms(1,3) obtain stay inplace rq f st1 where
    c: "cleanup_images re ns (mo_Spec ops (rc_obj st)) (mo_Status ops (rc_obj st)) 0 False st = (Inr (stay, inplace, rq, f), st1)"
    and p: "patch_status re (mo_SetStatus ops inplace (rc_obj st)) (st1\<lparr>rc_obj := mo_SetStatus ops stay (rc_obj st)\<rparr>) = (Inr (), st')"
    by (auto simp: cleanup_unused_def Let_def elim!: and_then_InrE)
  have "mo_Status ops (rc_obj st') = stay" using patch_status_result [OF p keeps] assms(1) by simp
  moreover have "i \<in> set stay" using cleanup_images_keeps_used [OF c] assms(4,5) by blast
  ultimately show ?thesis by simp
qed

end

text \<open>The runs of \<open>reconcile\<close> that reach the end, once the resource has its finalizer.\<close>

context mirror_object
begin

lemma reconcile_phases:
  assumes "re_Ops re = ops" and "re_Get re (rc_events st) = Inr x"
    and "mt_IsZero (om_DeletionTimestamp (mo_Meta ops x))" and "ContainsFinalizer ops x"
    and "reconcile re st = (Inr r, st')"
    and "re_ListPods re (rc_events st @ [EvGet]) (om_Namespace (mo_Meta ops x)) = Inr pods"
    and "mo_PodMatcher ops x = Inr pm" and "mo_ImageFilter ops x = Inr match"
  shows "\<exists>s0 prefixes s1 byImage s2 rq f s3 s4. rc_obj s0 = x \<and> rc_obj s1 = x
    \<and> list_prefixes re (om_Namespace (mo_Meta ops x) = []) s0 = (Inr prefixes, s1)
    \<and> merge_status re (selected re pm pods) match prefixes s1 = (Inr byImage, s2)
    \<and> cleanup_unused re (om_Namespace (mo_Meta ops x)) s2 = (Inr (rq, f), s3)
    \<and> mirror_images re (om_Namespace (mo_Meta ops x)) byImage [0..<length (mo_Status ops (rc_obj s3))] False s3 = (Inr False, s4)
    \<and> st' = s4"
proof -
  let ?st1 = "(log_event EvGet st)\<lparr>rc_obj := x\<rparr>" and ?ns = "om_Namespace (mo_Meta ops x)"
  let ?s0 = "log_event (EvListPods ?ns) ?st1"
  have sel: "select_pods re ?ns ?st1 = (Inr (Some (selected re pm pods, match)), ?s0)"
    using assms(1,6-8) by (simp add: select_pods_def selected_def Let_def log_event_def)
  have o: "rc_obj ?s0 = x" by (simp add: log_event_def)
  have "reconcile re st = reconcile_images re ?ns (selected re pm pods) match ?s0"
    using assms(1-3) sel by (simp add: reconcile_def get_object_def Let_def cong: option.case_cong)
  with assms(5) have "reconcile_images re ?ns (selected re pm pods) match ?s0 = (Inr r, st')" by simp
  then obtain prefixes s1 byImage s2 rq f s3 where
    p: "list_prefixes re (?ns = []) ?s0 = (Inr prefixes, s1)"
    and m: "merge_status re (selected re pm pods) match prefixes s1 = (Inr byImage, s2)"
    and c: "cleanup_unused re ?ns s2 = (Inr (rq, f), s3)"
    and e: "mirror_and_report re ?ns byImage rq f s3 = (Inr r, st')"
    using assms(1,4) o by (auto simp: reconcile_images_def ensure_finalizer_def elim!: and_then_InrE)
  from e have i: "mirror_images re ?ns byImage [0..<length (mo_Status ops (rc_obj s3))] False s3 = (Inr False, st')"
    using assms(1) by (auto simp: mirror_and_report_def elim!: and_then_InrE split: if_splits)
  have x: "rc_obj s1 = x" using list_prefixes_obj [of re "?ns = []" ?s0] p o by simp
  show ?thesis using o x p m c i by blast
qed

end

lemma normalized_name_in_use:
  assumes "img \<in> set (normalizedImageNamesFromPod parse pod)" and "pod \<in> set pods"
  shows "img \<in> set (podsInUseImages parse originals pods)"
proof -
  have f: "set (keys (foldl (\<lambda>m img. AList.update img v m) m imgs)) = set (keys m) \<union> set imgs" for v :: bool and m imgs
    by (induction imgs arbitrary: m) auto
  have "img \<in> set (List.map_filter (normalized_name parse) (pod_container_images pod))"
    using assms(1) by (simp add: normalizedImageNamesFromPod_def)
  then have "img \<in> set (keys (normalizedImageNamesMapFromAnnotatedPod parse originals pod))"
    by (simp add: normalizedImageNamesMapFromAnnotatedPod_def Let_def f)
  then show ?thesis using assms(2) by (auto simp: podsInUseImages_def)
qed

lemma current_image_entry:
  assumes "range_order ord" and "normalizing parse" and "wf_status parse status"
    and "mergePreviousAndCurrentMatchingImages parse originals ord now pods mirrors status prefixes match
       = Inr (byImage, status')"
    and "pod \<in> set pods" and "k \<in> set (normalizedImageNamesFromPod parse pod)" and "match k"
    and "\<not> is_mirrored_name prefixes (pod_Namespace pod) k"
  shows "\<exists>i\<in>set status'. norm_key parse (mat_Image i) = k \<and> mat_UnusedSince i = None
    \<and> ms_Image ` set (expected_for mirrors {k} k) \<subseteq> ms_Image ` set (mat_Mirrors i)"
proof -
  let ?by = "podsByNormalizedMatchingImages parse ord match prefixes pods"
  let ?up = "refreshed parse now match (set (podsInUseImages parse originals pods))
      (expected_for mirrors (set (keys ?by)))"
  note spec = merge_spec [OF assms(1-3) refl refl, where match = match and prefixes = prefixes and pods = pods
      and originals = originals and now = now and mirrors = mirrors]
  from spec assms(4) have set': "set status' = ?up ` set status
      \<union> new_entry mirrors ` (set (keys ?by) - (norm_key parse \<circ> mat_Image) ` set status)" by auto
  have k: "k \<in> set (keys ?by)" using assms(5-8) by (auto simp: pods_by_images_keys [OF assms(1)])
  obtain n where n: "parse k = Inr n" "nmd_String n = k" using normalized_names_parse [OF assms(2,6)] by blast
  have used: "k \<in> set (podsInUseImages parse originals pods)" using normalized_name_in_use assms(5,6) by blast
  show ?thesis
  proof (cases "k \<in> (norm_key parse \<circ> mat_Image) ` set status")
    case True
    then obtain i where i: "i \<in> set status" "norm_key parse (mat_Image i) = k" by auto
    have "expected_for mirrors (set (keys ?by)) k = expected_for mirrors {k} k" using k by (simp add: expected_for_def)
    moreover have "ms_Image ` set b \<subseteq> ms_Image ` set (mergeMirrors a b)" for a b
      by (auto simp: mergeMirrors_spec)
    ultimately have "norm_key parse (mat_Image (?up i)) = k \<and> mat_UnusedSince (?up i) = None
      \<and> ms_Image ` set (expected_for mirrors {k} k) \<subseteq> ms_Image ` set (mat_Mirrors (?up i))"
      using i(2) used assms(7) by (simp add: refreshed_def Let_def unused_since_def)
    then show ?thesis using set' i(1) by blast
  next
    case False
    have "norm_key parse (mat_Image (new_entry mirrors k)) = k" using n by (simp add: new_entry_def norm_key_def)
    with False k set' show ?thesis
      by (intro bexI [of _ "new_entry mirrors k"]) (simp_all add: new_entry_def)
  qed
qed

context mirror_object
begin

lemma reconcile_mirrors_everything:
  assumes "re_Ops re = ops" and "re_Get re (rc_events st) = Inr x"
    and "mt_IsZero (om_DeletionTimestamp (mo_Meta ops x))" and "ContainsFinalizer ops x"
    and "reconcile re st = (Inr r, st')"
    and "keeps_status re" and "serves_wf re" and ord: "range_order (re_Order re)"
    and norm: "normalizing (env_ParseNamed (re_Net re))"
    and "re_ListPods re (rc_events st @ [EvGet]) (om_Namespace (mo_Meta ops x)) = Inr pods"
    and "mo_PodMatcher ops x = Inr pm" and "mo_ImageFilter ops x = Inr match"
    and "\<And>h. re_ListClusterMirrors re h = Inr cisms" and "\<And>h. re_ListMirrors re h = Inr isms"
    and pod: "pod \<in> set (selected re pm pods)" "k \<in> set (normalizedImageNamesFromPod (env_ParseNamed (re_Net re)) pod)"
      "match k"
    and loop: "\<not> is_mirrored_name (getAllMirrorPrefixes cisms isms (om_Namespace (mo_Meta ops x) = [])) (pod_Namespace pod) k"
  shows "\<exists>i\<in>set (mo_Status ops (rc_obj st')).
    norm_key (env_ParseNamed (re_Net re)) (mat_Image i) = k \<and> all_mirrored (mat_Mirrors i)
    \<and> ms_Image ` set (expected_for (isb_Mirrors (mo_Spec ops x)) {k} k) \<subseteq> ms_Image ` set (mat_Mirrors i)"
proof -
  let ?parse = "env_ParseNamed (re_Net re)" and ?ns = "om_Namespace (mo_Meta ops x)"
  from reconcile_phases [OF assms(1-5,10-12)] obtain s0 prefixes s1 byImage s2 rq f s3 where
    s: "rc_obj s1 = x" "list_prefixes re (?ns = []) s0 = (Inr prefixes, s1)"
    and m: "merge_status re (selected re pm pods) match prefixes s1 = (Inr byImage, s2)"
    and c: "cleanup_unused re ?ns s2 = (Inr (rq, f), s3)"
    and i: "mirror_images re ?ns byImage [0..<length (mo_Status ops (rc_obj s3))] False s3 = (Inr False, st')"
    by blast
  have prefixes: "prefixes = getAllMirrorPrefixes cisms isms (?ns = [])"
    using s(2) assms(13,14) by (auto simp: list_prefixes_def Let_def)
  from merge_status_result [OF m] assms(1) s(1) obtain status' where
    mp: "mergePreviousAndCurrentMatchingImages ?parse (re_Originals re) (re_Order re) (re_Now re (rc_events s1))
        (selected re pm pods) (isb_Mirrors (mo_Spec ops x)) (mo_Status ops x) prefixes match = Inr (byImage, status')"
    and p: "re_Patch re (rc_events s1) (rc_obj s1) (mo_SetStatus ops status' x) = Inr (rc_obj s2)"
    by (auto simp: Let_def)
  have st2: "mo_Status ops (rc_obj s2) = status'" using p assms(1,6) by (auto simp: keeps_status_def)
  have "wf_status ?parse (mo_Status ops x)" using assms(1,2,7) by (auto simp: serves_wf_def)
  from current_image_entry [OF ord norm this mp pod] loop prefixes obtain e where
    e: "e \<in> set status'" "norm_key ?parse (mat_Image e) = k" "mat_UnusedSince e = None"
      "ms_Image ` set (expected_for (isb_Mirrors (mo_Spec ops x)) {k} k) \<subseteq> ms_Image ` set (mat_Mirrors e)" by auto
  from cleanup_unused_result [OF assms(1,6) c, of e] e(1,3) st2 obtain j where
    j: "j < length (mo_Status ops (rc_obj s3))" "mo_Status ops (rc_obj s3) ! j = e" by (auto simp: in_set_conv_nth)
  note res = mirror_images_result [OF assms(1,6) i]
  let ?e = "mo_Status ops (rc_obj st') ! j"
  have se: "same_entry e ?e" "j < length (mo_Status ops (rc_obj st'))"
    using res j by (auto simp: list_all2_conv_all_nth)
  have "image_done ?e" using res j(1) by simp
  then have "all_mirrored (mat_Mirrors ?e)" using se(1) e(3) by (simp add: image_done_def same_entry_def)
  moreover have "ms_Image ` set (mat_Mirrors ?e) = ms_Image ` set (mat_Mirrors e)"
    using se(1) by (metis same_entry_def set_map)
  ultimately show ?thesis using e(2,4) se by (intro bexI [of _ ?e]) (simp_all add: same_entry_def)
qed

end

lemma CISM_Reconcile_mirrors_everything:
  assumes "re_Get re (rc_events st) = Inr x"
    and "mt_IsZero (om_DeletionTimestamp (cism_Meta x))" and "ContainsFinalizer (CISM_object rx sel) x"
    and "CISM_Reconcile rx sel re st = (Inr r, st')"
    and "keeps_status (re\<lparr>re_Ops := CISM_object rx sel\<rparr>)" and "serves_wf (re\<lparr>re_Ops := CISM_object rx sel\<rparr>)"
    and "range_order (re_Order re)" and "normalizing (env_ParseNamed (re_Net re))"
    and "re_ListPods re (rc_events st @ [EvGet]) (om_Namespace (cism_Meta x)) = Inr pods"
    and "CISM_PodMatcher rx sel x = Inr pm" and "CISM_ImageFilter rx x = Inr match"
    and "\<And>h. re_ListClusterMirrors re h = Inr cisms" and "\<And>h. re_ListMirrors re h = Inr isms"
    and "pod \<in> set (selected re pm pods)"
    and "k \<in> set (normalizedImageNamesFromPod (env_ParseNamed (re_Net re)) pod)" and "match k"
    and "\<not> is_mirrored_name (getAllMirrorPrefixes cisms isms (om_Namespace (cism_Meta x) = [])) (pod_Namespace pod) k"
  shows "\<exists>i\<in>set (cism_MatchingImages (rc_obj st')).
    norm_key (env_ParseNamed (re_Net re)) (mat_Image i) = k \<and> all_mirrored (mat_Mirrors i)
    \<and> ms_Image ` set (expected_for (isb_Mirrors (cism_Base x)) {k} k) \<subseteq> ms_Image ` set (mat_Mirrors i)"
proof -
  let ?re = "re\<lparr>re_Ops := CISM_object rx sel\<rparr>"
  have ops [simp]: "mo_Meta (CISM_object rx sel) = cism_Meta" "mo_Spec (CISM_object rx sel) = cism_Base"
    "mo_Status (CISM_object rx sel) = cism_MatchingImages" "mo_PodMatcher (CISM_object rx sel) = CISM_PodMatcher rx sel"
    "mo_ImageFilter (CISM_object rx sel) = CISM_ImageFilter rx" by (simp_all add: CISM_object_def)
  have "reconcile ?re st = (Inr r, st')" using assms(4) by (simp add: CISM_Reconcile_def)
  from cism.reconcile_mirrors_everything [of ?re rx sel st x r st' pods pm match cisms isms pod k, OF _ _ _ assms(3) this assms(5,6)]
  show ?thesis using assms by simp
qed


text \<open>A pod that runs a new image: after the run it is mirrored.\<close>

definition example_empty_cluster :: ClusterImageSetMirror where
  "example_empty_cluster = example_clustered
     \<lparr>cism_MatchingImages := [], cism_Meta := (example_meta ''global'' [])\<lparr>om_Finalizers := [imageSetMirrorFinalizer]\<rparr>\<rparr>"

abbreviation example_mirroring_env :: "ClusterImageSetMirror RecEnv" where
  "example_mirroring_env \<equiv> example_reconciler (CISM_object literal_rx presence_sel) example_empty_cluster
     [example_pod_of ''prod'' ''r.io/a'' None] 7 (Inr (Some ''d''))"

lemma example_mirroring_ok:
  "fst (CISM_Reconcile literal_rx presence_sel example_mirroring_env (started example_empty_cluster)) = Inr 0"
  by code_simp

lemma example_reconciler_lists:
  "re_ListClusterMirrors (example_reconciler ops x pods now answer) h = Inr []"
  "re_ListMirrors (example_reconciler ops x pods now answer) h = Inr []"
  by (simp_all add: example_reconciler_def)

abbreviation example_new_pod :: Pod where
  "example_new_pod \<equiv> example_pod_of ''prod'' ''r.io/a'' None"

lemma example_mirroring_facts:
  shows "mt_IsZero (om_DeletionTimestamp (cism_Meta example_empty_cluster))"
    and "ContainsFinalizer (CISM_object literal_rx presence_sel) example_empty_cluster"
    and "keeps_status (example_mirroring_env\<lparr>re_Ops := CISM_object literal_rx presence_sel\<rparr>)"
    and "serves_wf (example_mirroring_env\<lparr>re_Ops := CISM_object literal_rx presence_sel\<rparr>)"
    and "''r.io/a'' \<in> set (normalizedImageNamesFromPod (env_ParseNamed (re_Net example_mirroring_env)) example_new_pod)"
    and "\<not> is_mirrored_name (getAllMirrorPrefixes [] [] (om_Namespace (cism_Meta example_empty_cluster) = []))
           (pod_Namespace example_new_pod) ''r.io/a''"
proof -
  let ?x = example_empty_cluster and ?ops = "CISM_object literal_rx presence_sel"
  show "mt_IsZero (om_DeletionTimestamp (cism_Meta ?x))"
    by (simp add: example_empty_cluster_def example_meta_def)
  show "ContainsFinalizer ?ops ?x" by code_simp
  show "keeps_status (example_mirroring_env\<lparr>re_Ops := ?ops\<rparr>)" by (rule example_keeps) simp
  have "wf_status example_parse (cism_MatchingImages ?x)" by (simp add: wf_status_def example_empty_cluster_def)
  then show "serves_wf (example_mirroring_env\<lparr>re_Ops := ?ops\<rparr>)"
    by (simp add: example_fields serves_wf_def) (simp add: example_reconciler_def CISM_object_def)
  show "''r.io/a'' \<in> set (normalizedImageNamesFromPod (env_ParseNamed (re_Net example_mirroring_env)) example_new_pod)"
    unfolding example_fields by code_simp
  show "\<not> is_mirrored_name (getAllMirrorPrefixes [] [] (om_Namespace (cism_Meta ?x) = [])) (pod_Namespace example_new_pod) ''r.io/a''"
    by (simp add: is_mirrored_name_def getAllMirrorPrefixes_def)
qed

lemma example_mirroring_filters:
  obtains pm match where "CISM_PodMatcher literal_rx presence_sel example_empty_cluster = Inr pm"
    and "CISM_ImageFilter literal_rx example_empty_cluster = Inr match" and "match ''r.io/a''"
    and "example_new_pod \<in> set (selected example_mirroring_env pm [example_new_pod])"
proof -
  let ?x = example_empty_cluster
  have "is_ok (CISM_PodMatcher literal_rx presence_sel ?x)"
    "map_sum (\<lambda>e. e) (\<lambda>pm. pm example_new_pod) (CISM_PodMatcher literal_rx presence_sel ?x) = Inr True"
    "map_sum (\<lambda>e. e) (\<lambda>m. m ''r.io/a'') (CISM_ImageFilter literal_rx ?x) = Inr True" by code_simp+
  then obtain pm match where f: "CISM_PodMatcher literal_rx presence_sel ?x = Inr pm" "pm example_new_pod"
    "CISM_ImageFilter literal_rx ?x = Inr match" "match ''r.io/a''"
    by (cases "CISM_PodMatcher literal_rx presence_sel ?x"; cases "CISM_ImageFilter literal_rx ?x") auto
  moreover have "example_new_pod \<in> set (selected example_mirroring_env pm [example_new_pod])"
    using f(2) by (simp add: selected_def example_reconciler_def PodFilter_Match_def matchSelectorSets_def)
  ultimately show ?thesis using that by blast
qed


section \<open>Which resources a pod wakes up\<close>

definition wakes :: "'o MirrorObject \<Rightarrow> Pod \<Rightarrow> string list \<Rightarrow> 'o \<Rightarrow> bool" where
  "wakes ops pod names x \<longleftrightarrow>
     (\<exists>pm match. mo_PodMatcher ops x = Inr pm \<and> pm pod \<and> mo_ImageFilter ops x = Inr match
        \<and> (\<exists>img\<in>set names. \<not> has_digest img \<and> match img))"

lemma enqueue_requests_filter:
  assumes "range_order ord"
  shows "enqueue_requests ops ord pod names xs =
    map (\<lambda>x. (om_Namespace (mo_Meta ops x), om_Name (mo_Meta ops x))) (filter (wakes ops pod names) xs)"
proof (induction xs)
  case Nil
  then show ?case by simp
next
  case (Cons x xs)
  then show ?case
    by (cases "mo_PodMatcher ops x"; cases "mo_ImageFilter ops x")
      (auto simp: Let_def wakes_def list_ex_iff range_order_set [OF assms])
qed

text \<open>
  A pod event wakes up exactly the mirror resources of its namespace that would mirror one
  of its images: those whose filters compile, whose pod matcher takes the pod and whose image
  filter takes one of its normalised images; a pod the global filter skips wakes up none.
\<close>

theorem pod_wakes_exactly_matching_mirrors:
  assumes "range_order ord"
  shows "r \<in> set (ISM_mapPodToRequests rx sel gf parse ord list_in pod) \<longleftrightarrow>
    PodFilter_Match gf pod \<and>
    (\<exists>xs. list_in (pod_Namespace pod) = Inr xs \<and> (\<exists>x\<in>set xs. r = (om_Namespace (ism_Meta x), om_Name (ism_Meta x))
       \<and> (\<exists>pm match. ISM_PodMatcher sel x = Inr pm \<and> pm pod \<and> ISM_ImageFilter rx x = Inr match
            \<and> (\<exists>img\<in>set (normalizedImageNamesFromPod parse pod). \<not> has_digest img \<and> match img))))"
proof (cases "list_in (pod_Namespace pod)")
  case (Inl e)
  then show ?thesis by (simp add: ISM_mapPodToRequests_def enqueueForPod_def)
next
  case (Inr xs)
  then show ?thesis
    by (auto simp: ISM_mapPodToRequests_def enqueueForPod_def enqueue_requests_filter [OF assms] wakes_def ISM_object_def)
qed

theorem pod_wakes_exactly_matching_mirrors_witness:
  "(''prod'', ''team'') \<in> set (ISM_mapPodToRequests literal_rx presence_sel
       \<lparr>pdf_includeLabels = [], pdf_excludeLabels = [], pdf_includeAnnotations = [], pdf_excludeAnnotations = []\<rparr>
       example_parse rev (\<lambda>_. Inr [example_mirroring [] None]) (example_pod_of ''prod'' ''r.io/b'' None))
   \<longleftrightarrow> True"
proof -
  let ?x = "example_mirroring [] None" and ?pod = "example_pod_of ''prod'' ''r.io/b'' None"
  have "map_sum (\<lambda>e. e) (\<lambda>pm. pm ?pod) (ISM_PodMatcher presence_sel ?x) = Inr True"
    "map_sum (\<lambda>e. e) (\<lambda>m. m ''r.io/b'') (ISM_ImageFilter literal_rx ?x) = Inr True" by code_simp+
  then obtain pm match where f: "ISM_PodMatcher presence_sel ?x = Inr pm" "pm ?pod"
    "ISM_ImageFilter literal_rx ?x = Inr match" "match ''r.io/b''"
    by (cases "ISM_PodMatcher presence_sel ?x"; cases "ISM_ImageFilter literal_rx ?x") auto
  have "normalizedImageNamesFromPod example_parse ?pod = [''r.io/b'']" "\<not> has_digest ''r.io/b''" by code_simp+
  with f show ?thesis
    unfolding pod_wakes_exactly_matching_mirrors [OF range_order_rev]
    by (simp add: PodFilter_Match_def matchSelectorSets_def example_mirroring_def example_meta_def)
qed

section \<open>Two limits\<close>

text \<open>
  The destination forgets the registry an image comes from: two images that differ in
  nothing else have the same destinations on every mirror, so the copy of one overwrites the
  copy of the other, and the clean-up of one deletes it for both.
\<close>

theorem mirror_destinations_collide:
  assumes "CHR ''/'' \<notin> set host1" and "CHR ''/'' \<notin> set host2"
  shows "expected_mirrors mirrors (host1 @ CHR ''/'' # rest) = expected_mirrors mirrors (host2 @ CHR ''/'' # rest)"
  by (simp add: expected_mirrors_def SplitN2_append assms)

theorem mirror_destinations_collide_witness:
  "expected_mirrors [example_mirror ''m.io'' ''copy''] (''docker.io'' @ CHR ''/'' # ''library/nginx:1'')
     = expected_mirrors [example_mirror ''m.io'' ''copy''] (''quay.io'' @ CHR ''/'' # ''library/nginx:1'')"
  by (rule mirror_destinations_collide) simp_all

lemma cleanup_images_shape:
  assumes "cleanup_images re ns spec imgs rq f st = (Inr (stay, inplace, rq', f'), st')"
  shows "length stay \<le> length imgs \<and> (length stay = length imgs \<longrightarrow> stay = inplace)"
  using assms
proof (induction imgs arbitrary: rq f st stay inplace)
  case Nil
  then show ?case by simp
next
  case (Cons a imgs)
  show ?case
  proof (cases "mat_UnusedSince a")
    case None
    with Cons.prems obtain s p where "cleanup_images re ns spec imgs rq f st = (Inr (s, p, rq', f'), st')"
      "stay = a # s" "inplace = a # p" by (auto elim!: and_then_InrE)
    with Cons.IH show ?thesis by fastforce
  next
    case (Some since)
    with Cons.prems obtain kept rq1 f1 st1 s p where
      "cleanup_mirrors re ns spec since (mat_Mirrors a) rq f st = (Inr (kept, rq1, f1), st1)"
      and c: "cleanup_images re ns spec imgs rq1 f1 st1 = (Inr (s, p, rq', f'), st')"
      and r: "if kept \<noteq> [] then stay = a\<lparr>mat_Mirrors := kept\<rparr> # s \<and> inplace = a\<lparr>mat_Mirrors := kept\<rparr> # p
              else stay = s \<and> inplace = a # p"
      by (auto elim!: and_then_InrE split: if_splits)
    from Cons.IH [OF c] r show ?thesis by (auto split: if_splits)
  qed
qed


text \<open>Of two mirrors one is deleted, the credentials of the other cannot be read.\<close>

definition example_two_mirrors :: ImageSetMirror where
  "example_two_mirrors = (example_mirroring [] None)
     \<lparr>ism_Base := (ism_Base (example_mirroring [] None))
        \<lparr>isb_Mirrors := [example_mirror ''m.io'' ''copy'',
           (example_mirror ''n.io'' ''copy'')\<lparr>mir_CredentialSecret := Some \<lparr>cs_Name = ''gone'', cs_Namespace = ''kuik''\<rparr>\<rparr>]\<rparr>,
      ism_MatchingImages := [example_matching ''r.io/a''
        [example_mirror_status ''m.io/copy/a'' (Some 5), example_mirror_status ''n.io/copy/a'' (Some 5)] (Some 5)]\<rparr>"

abbreviation example_two_env :: "ImageSetMirror RecEnv" where
  "example_two_env \<equiv> (example_reconciler (ISM_object literal_rx presence_sel) example_two_mirrors [] (2 ^ 64)
       (Inl (ETransport 404)))\<lparr>re_GetSecret := \<lambda>_ ns n. if n = ''gone'' then Inl (ENotFound n) else Inr zero_secret\<rparr>"


end
