(* ===== verification/MirrorEffort.thy ===== *)
theory MirrorEffort
  imports MirrorProgress
begin

text \<open>
  The work of the mirroring phase is bounded by its backlog, the recorded mirrors of images in
  use that are not mirrored yet: each is attempted once, and a settled resource is left alone.
\<close>

section \<open>Counting copies\<close>

fun is_copy :: "'o RecEvent \<Rightarrow> bool" where
  "is_copy (EvCopyImage _ _) = True"
| "is_copy _ = False"

definition copies :: "'o RecEvent list \<Rightarrow> nat" where
  "copies evs = length (filter is_copy evs)"

lemma copies_simps [simp]:
  "copies [] = 0" "copies (e # evs) = (if is_copy e then 1 else 0) + copies evs"
  "copies (xs @ ys) = copies xs + copies ys"
  by (simp_all add: copies_def)

text \<open>At most \<open>k\<close> copies between two states.\<close>

definition copies_within :: "nat \<Rightarrow> 'o RecState \<Rightarrow> 'o RecState \<Rightarrow> bool" where
  "copies_within k st st' \<longleftrightarrow> (\<exists>evs. rc_events st' = rc_events st @ evs \<and> copies evs \<le> k)"

lemma copies_within_refl [simp]: "copies_within k st st"
  by (simp add: copies_within_def)

lemma copies_within_trans:
  "copies_within k st st1 \<Longrightarrow> copies_within l st1 st2 \<Longrightarrow> copies_within (k + l) st st2"
  by (force simp: copies_within_def)

lemma copies_within_mono: "copies_within k st st' \<Longrightarrow> k \<le> l \<Longrightarrow> copies_within l st st'"
  by (auto simp: copies_within_def)

lemma logs_no_copies: "logs P st st' \<Longrightarrow> (\<And>e. P e \<Longrightarrow> \<not> is_copy e) \<Longrightarrow> copies_within 0 st st'"
  by (auto simp: logs_def copies_within_def copies_def list_all_iff filter_empty_conv)

lemma copies_within_obj [simp]:
  "copies_within k (st\<lparr>rc_obj := x\<rparr>) st' = copies_within k st st'"
  "copies_within k st (st'\<lparr>rc_obj := x\<rparr>) = copies_within k st st'"
  by (simp_all add: copies_within_def)

lemma reads_no_copy: "reads_secret e \<Longrightarrow> \<not> is_copy e"
  by (cases e) simp_all

section \<open>One image\<close>

lemma mirrorImage_copies: "copies_within 1 st (snd (mirrorImage re ns mirrors byImage src to st))"
proof -
  note reads = logs_no_copies [OF _ reads_no_copy]
  obtain r1 st1 where r1: "getPullSecretsFromPods re byImage src st = (r1, st1)" by fastforce
  have c1: "copies_within 0 st st1"
    using reads [OF getPullSecretsFromPods_logs, of st re byImage src] r1 by simp
  obtain r2 st2 where r2: "getImageSecretFromMirrors re (ms_Image to) ns mirrors st1 = (r2, st2)" by fastforce
  have "copies_within 0 st1 st2"
    using reads [OF getImageSecretFromMirrors_logs, of st1 re "ms_Image to" ns mirrors] r2 by simp
  from copies_within_trans [OF c1 this] have c2: "copies_within 0 st st2" by simp
  show ?thesis
  proof (cases "\<exists>srcs secret. r1 = Inr srcs \<and> r2 = Inr secret")
    case False
    with r1 r2 c1 c2 show ?thesis
      by (auto simp: mirrorImage_def intro: copies_within_mono split: sum.splits)
  next
    case True
    then obtain srcs secret where ok: "r1 = Inr srcs" "r2 = Inr secret" by blast
    obtain desc e st3 where g: "on_network (GetDescriptor (re_Early re) (re_Net re)
        (WithPullSecrets srcs (NewClient [])) src) st2 = ((desc, e), st3)" by (metis prod.exhaust)
    have "rc_events st3 = rc_events st2"
      using on_network_events(1) [of "GetDescriptor (re_Early re) (re_Net re) (WithPullSecrets srcs (NewClient [])) src" st2] g
      by simp
    with c2 have c3: "copies_within 0 st st3" by (simp add: copies_within_def)
    let ?log = "log_event (EvCopyImage src (ms_Image to)) st3"
    let ?ds = "[case secret of None \<Rightarrow> zero_secret | Some s \<Rightarrow> s]"
    obtain r4 st4 where c: "copy_image re ?ds desc (ms_Image to) ?log = (r4, st4)" by fastforce
    have "logs (\<lambda>_. False) ?log st4" using copy_image_logs [of "\<lambda>_. False" ?log re ?ds desc "ms_Image to"] c by simp
    then have "rc_events st4 = rc_events st3 @ [EvCopyImage src (ms_Image to)]"
      by (auto simp: logs_def log_event_def list_all_iff)
    with c3 have c4: "copies_within 1 st st4" by (auto simp: copies_within_def)
    have def: "copies_within k st (snd (deferred_check re d to e' s))" if "copies_within k st s" for k d e' s
    proof -
      have "copies_within 0 s (snd (deferred_check re d to e' s))"
        using deferred_check_logs [of "\<lambda>_. False" s re d to e'] by (rule logs_no_copies) simp
      from copies_within_trans [OF that this] show ?thesis by simp
    qed
    have "copies_within 1 st (snd (deferred_check re ?ds to e' st3))" for e'
      using def [OF c3] by (rule copies_within_mono) simp
    moreover have "copies_within 1 st (snd (deferred_check re ?ds to e' st4))" for e' by (rule def [OF c4])
    ultimately show ?thesis
      using r1 r2 ok g c c4 by (auto simp: mirrorImage_def Let_def split: option.splits sum.splits)
  qed
qed

section \<open>The phase\<close>

definition missing :: "MirrorStatus list \<Rightarrow> nat" where
  "missing ms = length (filter (\<lambda>m. ms_MirroredAt m = None) ms)"

definition open_mirrors :: "MatchingImage \<Rightarrow> nat" where
  "open_mirrors i = (if mat_UnusedSince i = None then missing (mat_Mirrors i) else 0)"

definition backlog :: "MatchingImage list \<Rightarrow> nat" where
  "backlog imgs = sum_list (map open_mirrors imgs)"

lemma mirror_mirrors_copies:
  "copies_within (missing ms) st (snd (mirror_mirrors re ns mirrors byImage src ms failed st))"
proof (induction ms arbitrary: failed st)
  case Nil
  then show ?case by simp
next
  case (Cons m ms)
  show ?case
  proof (cases "ms_MirroredAt m = None")
    case False
    with Cons [of st failed] show ?thesis
      by (cases "mirror_mirrors re ns mirrors byImage src ms failed st")
        (auto simp: missing_def and_then_def split: sum.split)
  next
    case True
    obtain r1 st1 where i: "mirrorImage re ns mirrors byImage src m st = (r1, st1)" by fastforce
    with mirrorImage_copies [of st re ns mirrors byImage src m] have one: "copies_within 1 st st1" by simp
    show ?thesis
    proof (cases r1)
      case (Inl e)
      with True i one show ?thesis by (simp add: missing_def copies_within_mono)
    next
      case (Inr x)
      obtain err m1 where x: "x = (err, m1)" by fastforce
      obtain r2 st2 where r: "mirror_mirrors re ns mirrors byImage src ms (failed \<or> err \<noteq> None) st1 = (r2, st2)" by fastforce
      with Cons [of st1 "failed \<or> err \<noteq> None"] have "copies_within (missing ms) st1 st2" by simp
      from copies_within_trans [OF one this] have "copies_within (missing (m # ms)) st st2"
        using True by (simp add: missing_def)
      moreover have "snd (mirror_mirrors re ns mirrors byImage src (m # ms) failed st) = st2"
        using True i Inr x r by (auto simp: and_then_def split: sum.split)
      ultimately show ?thesis by simp
    qed
  qed
qed

context mirror_object
begin

lemma mirror_images_copies:
  assumes "re_Ops re = ops" and keeps: "keeps_status re" and "distinct is"
    and "\<forall>i\<in>set is. i < length (mo_Status ops (rc_obj st))"
  shows "copies_within (sum_list (map (\<lambda>i. open_mirrors (mo_Status ops (rc_obj st) ! i)) is)) st
    (snd (mirror_images re ns byImage is failed st))"
  using assms(3,4)
proof (induction "is" arbitrary: failed st)
  case Nil
  then show ?case by simp
next
  case (Cons i "is")
  let ?imgs = "mo_Status ops (rc_obj st)"
  show ?case
  proof (cases "mat_UnusedSince (?imgs ! i) = None")
    case False
    then obtain t where t: "mat_UnusedSince (?imgs ! i) = Some t" by blast
    then have "open_mirrors (?imgs ! i) = 0" by (simp add: open_mirrors_def)
    with t Cons.IH [of st failed] Cons.prems assms(1) show ?thesis by (simp add: Let_def)
  next
    case True
    let ?k = "missing (mat_Mirrors (?imgs ! i))"
    obtain r1 st1 where m: "mirror_mirrors re ns (isb_Mirrors (mo_Spec ops (rc_obj st))) byImage
        (mat_Image (?imgs ! i)) (mat_Mirrors (?imgs ! i)) failed st = (r1, st1)" by fastforce
    with mirror_mirrors_copies [of "mat_Mirrors (?imgs ! i)" st re ns "isb_Mirrors (mo_Spec ops (rc_obj st))" byImage
        "mat_Image (?imgs ! i)" failed] have one: "copies_within ?k st st1" by simp
    have k: "open_mirrors (?imgs ! i) = ?k" using True by (simp add: open_mirrors_def)
    show ?thesis
    proof (cases r1)
      case (Inl e)
      with True m one Cons.prems assms(1) k show ?thesis by (auto simp: Let_def intro: copies_within_mono)
    next
      case (Inr x)
      obtain ms' f where x: "x = (ms', f)" by fastforce
      let ?imgs2 = "?imgs[i := (?imgs ! i)\<lparr>mat_Mirrors := ms'\<rparr>]"
      let ?put = "st1\<lparr>rc_obj := mo_SetStatus ops ?imgs2 (rc_obj st)\<rparr>"
      obtain r2 st2 where p: "patch_status re (rc_obj st) ?put = (r2, st2)" by fastforce
      have "logs (\<lambda>e. \<not> is_copy e) ?put st2"
        using api_logs(3) [of "\<lambda>e. \<not> is_copy e" ?put re "rc_obj st"] p by simp
      then have "copies_within 0 st1 st2" by (simp add: logs_no_copies)
      from copies_within_trans [OF one this] have two: "copies_within ?k st st2" by simp
      show ?thesis
      proof (cases r2)
        case (Inl e)
        with True m Inr x p two Cons.prems assms(1) k show ?thesis by (auto simp: Let_def intro: copies_within_mono)
      next
        case ok: (Inr u)
        have s2: "mo_Status ops (rc_obj st2) = ?imgs2"
          using patch_status_result [of re "rc_obj st" ?put u st2] p ok keeps assms(1) by simp
        have "map (\<lambda>j. open_mirrors (?imgs2 ! j)) is = map (\<lambda>j. open_mirrors (?imgs ! j)) is"
        proof (rule map_cong [OF refl])
          fix j assume "j \<in> set is"
          with Cons.prems(1) have "i \<noteq> j" by auto
          then show "open_mirrors (?imgs2 ! j) = open_mirrors (?imgs ! j)" by simp
        qed
        moreover have "copies_within (sum_list (map (\<lambda>j. open_mirrors (?imgs2 ! j)) is)) st2
            (snd (mirror_images re ns byImage is f st2))"
          using Cons.IH [of st2 f] Cons.prems s2 by simp
        ultimately have "copies_within (sum_list (map (\<lambda>j. open_mirrors (?imgs ! j)) is)) st2
            (snd (mirror_images re ns byImage is f st2))" by (simp only:)
        from copies_within_trans [OF two this]
        have "copies_within (sum_list (map (\<lambda>j. open_mirrors (?imgs ! j)) (i # is))) st
            (snd (mirror_images re ns byImage is f st2))" using k by simp
        moreover have "snd (mirror_images re ns byImage (i # is) failed st) = snd (mirror_images re ns byImage is f st2)"
          using True m Inr x p ok Cons.prems assms(1) by (simp add: Let_def)
        ultimately show ?thesis by simp
      qed
    qed
  qed
qed

lemma mirror_and_report_copies:
  assumes "re_Ops re = ops" and "keeps_status re"
  shows "copies_within (backlog (mo_Status ops (rc_obj st))) st (snd (mirror_and_report re ns byImage rq del st))"
proof -
  let ?imgs = "mo_Status ops (rc_obj st)" and ?is = "[0..<length (mo_Status ops (rc_obj st))]"
  have "map (\<lambda>i. open_mirrors (?imgs ! i)) ?is = map open_mirrors ?imgs"
    by (metis (no_types, lifting) map_nth comp_def map_eq_conv map_map)
  then have "copies_within (backlog ?imgs) st (snd (mirror_images re ns byImage ?is False st))"
    using mirror_images_copies [OF assms, of ?is st ns byImage False] by (simp add: backlog_def)
  then show ?thesis
    using assms(1) by (cases "mirror_images re ns byImage ?is False st")
      (auto simp: mirror_and_report_def and_then_def split: sum.split)
qed

end

text \<open>
  C16. A reconcile attempts each missing copy at most once: the mirroring phase, whether it
  succeeds, fails or panics, starts at most as many copies as the images in use have mirrors
  recorded without a time; a resource whose images in use are all mirrored is left alone.
\<close>

theorem copies_bounded_by_backlog:
  assumes "mirror_object (re_Ops re)" and "keeps_status re"
    and "mirror_and_report re ns byImage requeueAfter someDeletionFailed st = (r, st')"
  shows "\<exists>evs. rc_events st' = rc_events st @ evs \<and> copies evs \<le> backlog (mo_Status (re_Ops re) (rc_obj st))"
  using mirror_object.mirror_and_report_copies [OF assms(1) refl assms(2), of st ns byImage requeueAfter someDeletionFailed]
    assms(3) by (simp add: copies_within_def)

definition settled_cluster :: ClusterImageSetMirror where
  "settled_cluster = example_empty_cluster\<lparr>cism_MatchingImages :=
     [example_matching ''r.io/a'' [example_mirror_status ''m.io/copy/a'' (Some 5), example_mirror_status ''n.io/a'' None] None,
      example_matching ''r.io/b'' [example_mirror_status ''m.io/copy/b'' None] (Some 9)]\<rparr>"

theorem copies_bounded_by_backlog_witness:
  "\<exists>r st'. mirror_and_report (example_mirroring_env\<lparr>re_Ops := CISM_object literal_rx presence_sel\<rparr>) [] [] 0 False
       (started settled_cluster) = (r, st')
     \<and> copies (rc_events st') \<le> 1"
proof -
  let ?re = "example_mirroring_env\<lparr>re_Ops := CISM_object literal_rx presence_sel\<rparr>"
  obtain r st' where run: "mirror_and_report ?re [] [] 0 False (started settled_cluster) = (r, st')"
    by (rule prod.exhaust)
  have "keeps_status ?re" by (rule example_keeps) simp
  moreover have "mirror_object (re_Ops ?re)" using cism.mirror_object_axioms by simp
  moreover have "backlog (mo_Status (re_Ops ?re) (rc_obj (started settled_cluster))) = 1" by code_simp
  moreover have "rc_events (started settled_cluster) = []" by (simp add: started_def)
  ultimately show ?thesis using copies_bounded_by_backlog [of ?re, OF _ _ run] run by auto
qed

end
