(* ===== verification/Availability.thy ===== *)
theory Availability
  imports MirrorMerge Config MirrorObject
begin

text \<open>
  \<open>internal/controller/kuik/clusterimagesetavailability_controller.go\<close> and
  \<open>backfill_original.go\<close>: the list of monitored images of a resource, the choice of the next
  image to check for each registry, the check with its credentials, and the reconcile loop.
  Pointers into the list of resources are indices into it: several candidates may share one
  resource, which each patch replaces.
\<close>

section \<open>The monitored images\<close>

text \<open>
  \<open>currentImages\<close>: for each pod in order the images of its map; a later pod overwrites the
  flag of an earlier one.
\<close>

definition add_current ::
  "(string \<Rightarrow> bool) \<Rightarrow> (string \<times> bool) list \<Rightarrow> (string \<times> bool) list \<Rightarrow> (string \<times> bool) list" where
  "add_current match names m =
     foldl (\<lambda>m (img, original). if match img then AList.update img original m else m) m names"

definition current_images ::
  "ref_parser \<Rightarrow> (string \<Rightarrow> string list) \<Rightarrow> (string \<Rightarrow> bool) \<Rightarrow> Pod list \<Rightarrow> (string \<times> bool) list" where
  "current_images parse originals match pods =
     foldl (\<lambda>m pod. add_current match (normalizedImageNamesMapFromAnnotatedPod parse originals pod) m) [] pods"

text \<open>
  The new \<open>UnusedSince\<close> of an image and whether the pointer changed: storing the address of
  the marker or of the current time always is a change.
\<close>

definition sync_unused ::
  "int \<Rightarrow> (string \<Rightarrow> bool) \<Rightarrow> string set \<Rightarrow> MonitoredImage \<Rightarrow> MonitoredImage \<times> bool" where
  "sync_unused now match current img =
     (if \<not> match (mon_Image img) then
        (if mon_UnusedSince img = None \<or> \<not> mt_Equal (mon_UnusedSince img) (Some instant_expiry)
         then (img\<lparr>mon_UnusedSince := Some instant_expiry\<rparr>, True) else (img, False))
      else if mon_Image img \<in> current then (img\<lparr>mon_UnusedSince := None\<rparr>, mon_UnusedSince img \<noteq> None)
      else if mon_Status img = Scheduled then (img\<lparr>mon_UnusedSince := Some instant_expiry\<rparr>, True)
      else if mon_UnusedSince img = None then (img\<lparr>mon_UnusedSince := Some now\<rparr>, True)
      else (img, False))"

definition image_expired :: "int \<Rightarrow> int \<Rightarrow> MonitoredImage \<Rightarrow> bool" where
  "image_expired later expiry img \<longleftrightarrow>
     (case mon_UnusedSince img of None \<Rightarrow> False | Some since \<Rightarrow> time_sub later since \<ge> expiry)"

text \<open>\<open>slices.DeleteFunc\<close>: what remains, and whether a removal was reported as a change.\<close>

definition remove_expired :: "int \<Rightarrow> int \<Rightarrow> MonitoredImage list \<Rightarrow> MonitoredImage list \<times> bool" where
  "remove_expired later expiry imgs =
     (if expiry > 0
      then (filter (\<lambda>i. \<not> image_expired later expiry i) imgs,
            list_ex (\<lambda>i. image_expired later expiry i \<and> mon_UnusedSince i \<noteq> Some instant_expiry) imgs)
      else (imgs, False))"

definition new_monitored :: "string \<times> bool \<Rightarrow> MonitoredImage" where
  "new_monitored = (\<lambda>(img, original).
     \<lparr>mon_Image = img, mon_Status = Scheduled, mon_UnusedSince = None, mon_LastError = None,
      mon_LastMonitor = None, mon_Original = original\<rparr>)"

text \<open>
  \<open>syncImageList\<close> with the image filter compiled: \<open>ord\<close> is the order of the map
  \<open>currentImages\<close>, \<open>now\<close> and \<open>later\<close> are the two readings of the clock.
\<close>

definition sync_images ::
  "int \<Rightarrow> int \<Rightarrow> int \<Rightarrow> (string \<Rightarrow> bool) \<Rightarrow> (string list \<Rightarrow> string list) \<Rightarrow> (string \<times> bool) list \<Rightarrow>
     MonitoredImage list \<Rightarrow> MonitoredImage list \<times> bool" where
  "sync_images now later expiry match ord current imgs =
     (let updated = map (sync_unused now match (set (keys current))) imgs;
          (kept, removed) = remove_expired later expiry (map fst updated);
          fresh = filter (\<lambda>k. k \<notin> mon_Image ` set kept) (ord (keys current))
      in (kept @ map (\<lambda>k. new_monitored (k, the (map_of current k))) fresh,
          list_ex snd updated \<or> removed \<or> fresh \<noteq> []))"

definition syncImageList ::
  "regexp_compile \<Rightarrow> ref_parser \<Rightarrow> (string \<Rightarrow> string list) \<Rightarrow> (string list \<Rightarrow> string list) \<Rightarrow> int \<Rightarrow> int \<Rightarrow>
     ClusterImageSetAvailability \<Rightarrow> Pod list \<Rightarrow> ClusterImageSetAvailability \<times> bool" where
  "syncImageList rx parse originals ord now later cisa pods =
     (case CISA_ImageFilter rx cisa of
        Inl _ \<Rightarrow> (cisa, False)
      | Inr match \<Rightarrow>
          (let (imgs, changed) = sync_images now later (cisa_UnusedImageExpiry cisa) match ord
                 (current_images parse originals match pods) (cisa_Images cisa)
           in (cisa\<lparr>cisa_Images := imgs, cisa_ImageCount := int (length imgs)\<rparr>, changed)))"

section \<open>The next image of each registry\<close>

record monitoringCandidate =
  mc_imageName :: string
  mc_cisa :: nat
  mc_registryLastMonitor :: int
  mc_lastMonitor :: mtime

definition zero_candidate :: monitoringCandidate where
  "zero_candidate = \<lparr>mc_imageName = [], mc_cisa = 0, mc_registryLastMonitor = 0, mc_lastMonitor = None\<rparr>"

text \<open>One image of the resource at index \<open>i\<close>; \<open>Inl\<close> is the panic on a reference without a slash.\<close>

definition consider_image ::
  "nat \<Rightarrow> MonitoredImage \<Rightarrow> monitoringCandidate option \<Rightarrow> monitoringCandidate" where
  "consider_image i img found =
     (let c = (case found of None \<Rightarrow> zero_candidate | Some c \<Rightarrow> c);
          lm = mon_LastMonitor img;
          c1 = (if lm = None \<or> found = None \<or> mt_Before lm (mc_lastMonitor c)
                then c\<lparr>mc_imageName := mon_Image img, mc_cisa := i, mc_lastMonitor := lm\<rparr> else c)
      in (case lm of
            None \<Rightarrow> c1
          | Some t \<Rightarrow> if t > mc_registryLastMonitor c1 then c1\<lparr>mc_registryLastMonitor := t\<rparr> else c1))"

fun add_candidates ::
  "ref_parser \<Rightarrow> nat \<Rightarrow> MonitoredImage list \<Rightarrow> (string \<times> monitoringCandidate) list \<Rightarrow>
     (string \<times> monitoringCandidate) list result" where
  "add_candidates parse i [] m = Inr m"
| "add_candidates parse i (img # imgs) m =
     (case RegistryAndPathFromReference parse (mon_Image img) of
        Inl e \<Rightarrow> if is_panic e then Inl e else add_candidates parse i imgs m
      | Inr (registry, _) \<Rightarrow>
          add_candidates parse i imgs (AList.update registry (consider_image i img (map_of m registry)) m))"

fun candidates_from ::
  "regexp_compile \<Rightarrow> selector_parse \<Rightarrow> ref_parser \<Rightarrow> nat \<Rightarrow> ClusterImageSetAvailability list \<Rightarrow>
     (string \<times> monitoringCandidate) list \<Rightarrow> (string \<times> monitoringCandidate) list result" where
  "candidates_from rx sel parse i [] m = Inr m"
| "candidates_from rx sel parse i (c # cs) m =
     (if is_ok (CISA_PodMatcher rx sel c) \<and> is_ok (CISA_ImageFilter rx c) then
        (case add_candidates parse i (cisa_Images c) m of
           Inl e \<Rightarrow> Inl e
         | Inr m' \<Rightarrow> candidates_from rx sel parse (Suc i) cs m')
      else candidates_from rx sel parse (Suc i) cs m)"

definition monitoringCandidatesByRegistry ::
  "regexp_compile \<Rightarrow> selector_parse \<Rightarrow> ref_parser \<Rightarrow> ClusterImageSetAvailability list \<Rightarrow>
     (string \<times> monitoringCandidate) list result" where
  "monitoringCandidatesByRegistry rx sel parse cisas = candidates_from rx sel parse 0 cisas []"

definition registryConfig :: "Config \<Rightarrow> string \<Rightarrow> RegistryMonitoring" where
  "registryConfig cfg registry =
     (let merged = cfg_Default cfg
      in (case cfg_Items cfg registry of
            None \<Rightarrow> merged
          | Some override \<Rightarrow>
              \<lparr>rm_Method = (if rm_Method override \<noteq> [] then rm_Method override else rm_Method merged),
               rm_Interval = (if rm_Interval override \<noteq> 0 then rm_Interval override else rm_Interval merged),
               rm_MaxPerInterval =
                 (if rm_MaxPerInterval override \<noteq> 0 then rm_MaxPerInterval override else rm_MaxPerInterval merged),
               rm_Timeout = (if rm_Timeout override \<noteq> 0 then rm_Timeout override else rm_Timeout merged),
               rm_ResolveDigest =
                 (if rm_ResolveDigest override \<noteq> None then rm_ResolveDigest override else rm_ResolveDigest merged),
               rm_FallbackCredentialSecret =
                 (if rm_FallbackCredentialSecret override \<noteq> None
                  then rm_FallbackCredentialSecret override else rm_FallbackCredentialSecret merged)\<rparr>))"

fun findMonitoredImage :: "MonitoredImage list \<Rightarrow> string \<Rightarrow> nat option" where
  "findMonitoredImage [] name = None"
| "findMonitoredImage (img # imgs) name =
     (if mon_Image img = name then Some 0 else map_option Suc (findMonitoredImage imgs name))"

section \<open>One check\<close>

datatype AvEvent =
    AvGet
  | AvListPods
  | AvInvalidFilter
  | AvListCisas
  | AvGetSecret string string
  | AvCheck string
  | AvPatch ClusterImageSetAvailability ClusterImageSetAvailability

record AvState =
  av_cisas :: "ClusterImageSetAvailability list"
  av_events :: "AvEvent list"
  av_sent :: "Request list"

record AvEnv =
  ae_Net :: RegistryEnv
  ae_Config :: Config
  ae_rx :: regexp_compile
  ae_sel :: selector_parse
  ae_GlobalFilter :: PodFilter
  ae_Order :: "string list \<Rightarrow> string list"
  ae_Originals :: "string \<Rightarrow> string list"
  ae_Now :: "AvEvent list \<Rightarrow> int"
  ae_Get :: "AvEvent list \<Rightarrow> ClusterImageSetAvailability result"
  ae_ListPods :: "AvEvent list \<Rightarrow> Pod list result"
  ae_ListCisas :: "AvEvent list \<Rightarrow> ClusterImageSetAvailability list result"
  ae_GetSecret :: "AvEvent list \<Rightarrow> string \<Rightarrow> string \<Rightarrow> Secret result"
  ae_Patch :: "AvEvent list \<Rightarrow> ClusterImageSetAvailability \<Rightarrow> ClusterImageSetAvailability \<Rightarrow>
     ClusterImageSetAvailability result"

definition av_log :: "AvEvent \<Rightarrow> AvState \<Rightarrow> AvState" where
  "av_log ev st = st\<lparr>av_events := av_events st @ [ev]\<rparr>"

definition av_get_secret :: "AvEnv \<Rightarrow> string \<Rightarrow> string \<Rightarrow> AvState \<Rightarrow> Secret result \<times> AvState" where
  "av_get_secret ae ns name st = (ae_GetSecret ae (av_events st) ns name, av_log (AvGetSecret ns name) st)"

fun av_read_secrets :: "AvEnv \<Rightarrow> string \<Rightarrow> string list \<Rightarrow> AvState \<Rightarrow> Secret list result \<times> AvState" where
  "av_read_secrets ae ns [] st = (Inr [], st)"
| "av_read_secrets ae ns (name # names) st =
     and_then (av_get_secret ae ns name st) (\<lambda>s st1.
       and_then (av_read_secrets ae ns names st1) (\<lambda>ss st2. (Inr (s # ss), st2)))"

text \<open>
  The pods that have pull secrets and run or remember the image, in order: the secrets of the
  first whose secrets can all be read, or the errors.
\<close>

fun pod_credentials ::
  "AvEnv \<Rightarrow> string \<Rightarrow> Pod list \<Rightarrow> error list \<Rightarrow> AvState \<Rightarrow> (error list + Secret list) \<times> AvState" where
  "pod_credentials ae img [] errs st = (Inl errs, st)"
| "pod_credentials ae img (pod # pods) errs st =
     (if pod_ImagePullSecrets pod = []
         \<or> img \<notin> set (keys (normalizedImageNamesMapFromAnnotatedPod (env_ParseNamed (ae_Net ae)) (ae_Originals ae) pod))
      then pod_credentials ae img pods errs st
      else
        (case av_read_secrets ae (pod_Namespace pod) (pod_ImagePullSecrets pod) st of
           (Inr secrets, st1) \<Rightarrow> (Inr secrets, st1)
         | (Inl e, st1) \<Rightarrow> pod_credentials ae img pods (errs @ [e]) st1))"

definition resolveCredentials ::
  "AvEnv \<Rightarrow> string \<Rightarrow> CredentialSecret option \<Rightarrow> Pod list \<Rightarrow> AvState \<Rightarrow> Secret list result \<times> AvState" where
  "resolveCredentials ae img fallback pods st =
     (case pod_credentials ae img pods [] st of
        (Inr secrets, st1) \<Rightarrow> (Inr secrets, st1)
      | (Inl errs, st1) \<Rightarrow>
          (case fallback of
             None \<Rightarrow>
               if length errs > 0 then (Inl (EWrap ''unavailable secret'' (EJoin errs)), st1) else (Inr [], st1)
           | Some cred \<Rightarrow>
               (case av_get_secret ae (cs_Namespace cred) (cs_Name cred) st1 of
                  (Inl e, st2) \<Rightarrow> (Inl (EWrap ''fallback credential secret not found'' e), st2)
                | (Inr secret, st2) \<Rightarrow> (Inr [secret], st2))))"

text \<open>What the check writes into the image, once credentials and result are known.\<close>

definition record_check ::
  "int \<Rightarrow> error option \<Rightarrow> ImageAvailabilityStatus \<Rightarrow> error option \<Rightarrow> MonitoredImage \<Rightarrow> MonitoredImage" where
  "record_check now secretErr result checkErr img =
     (let img1 = (case secretErr of
                    None \<Rightarrow> img
                  | Some e \<Rightarrow> img\<lparr>mon_Status := UnavailableSecret, mon_LastError := Some e\<rparr>);
          img2 = img1\<lparr>mon_LastMonitor := Some now\<rparr>
      in if mon_Status img2 = UnavailableSecret \<and> result = InvalidAuth then img2
         else img2\<lparr>mon_Status := result, mon_LastError := checkErr\<rparr>)"

definition performCheck ::
  "AvEnv \<Rightarrow> MonitoredImage \<Rightarrow> RegistryMonitoring \<Rightarrow> Pod list \<Rightarrow> AvState \<Rightarrow> MonitoredImage result \<times> AvState" where
  "performCheck ae img rc pods st =
     (let now = ae_Now ae (av_events st)
      in (case resolveCredentials ae (mon_Image img) (rm_FallbackCredentialSecret rc) pods st of
            (creds, st1) \<Rightarrow>
              (case CheckImageAvailability (ae_Net ae) (mon_Image img) (rm_Method rc) (rm_Timeout rc)
                      (case creds of Inl _ \<Rightarrow> [] | Inr s \<Rightarrow> s) (ResolveDigestEnabled rc) (av_sent st1) of
                 (Inl e, n) \<Rightarrow> (Inl e, (av_log (AvCheck (mon_Image img)) st1)\<lparr>av_sent := ns_sent n\<rparr>)
               | (Inr (result, checkErr), n) \<Rightarrow>
                   (Inr (record_check now (case creds of Inl e \<Rightarrow> Some e | Inr _ \<Rightarrow> None) result checkErr img),
                    (av_log (AvCheck (mon_Image img)) st1)\<lparr>av_sent := ns_sent n\<rparr>))))"

text \<open>Go's division truncates towards zero and panics on a zero divisor.\<close>

definition tick_duration :: "RegistryMonitoring \<Rightarrow> int result" where
  "tick_duration rc =
     (if rm_MaxPerInterval rc = 0 then Inl (EPanic ''integer divide by zero'')
      else Inr (i64 (sgn (rm_Interval rc) * sgn (rm_MaxPerInterval rc)
                      * (\<bar>rm_Interval rc\<bar> div \<bar>rm_MaxPerInterval rc\<bar>))))"

definition checkNextForRegistry ::
  "AvEnv \<Rightarrow> monitoringCandidate \<Rightarrow> string \<Rightarrow> Pod list \<Rightarrow> AvState \<Rightarrow> int result \<times> AvState" where
  "checkNextForRegistry ae cand registry pods st =
     (let rc = registryConfig (ae_Config ae) registry
      in (case tick_duration rc of
            Inl e \<Rightarrow> (Inl e, st)
          | Inr tickDuration \<Rightarrow>
              (let timeUntilDue =
                     i64 (tickDuration - time_sub (ae_Now ae (av_events st)) (mc_registryLastMonitor cand));
                   original = av_cisas st ! mc_cisa cand
               in if timeUntilDue > 0 then (Inr timeUntilDue, st)
                  else
                    (case findMonitoredImage (cisa_Images original) (mc_imageName cand) of
                       None \<Rightarrow> (Inr 0, st)
                     | Some j \<Rightarrow>
                         and_then (performCheck ae (cisa_Images original ! j) rc pods st) (\<lambda>img st1.
                           (let new = original\<lparr>cisa_Images := (cisa_Images original)[j := img]\<rparr>;
                                st2 = av_log (AvPatch original new) st1
                            in (case ae_Patch ae (av_events st1) original new of
                                  Inl e \<Rightarrow> (Inl e, st2\<lparr>av_cisas := (av_cisas st2)[mc_cisa cand := new]\<rparr>)
                                | Inr c \<Rightarrow>
                                    (Inr tickDuration, st2\<lparr>av_cisas := (av_cisas st2)[mc_cisa cand := c]\<rparr>))))))))"

section \<open>The reconcile loop\<close>

fun check_all ::
  "AvEnv \<Rightarrow> (string \<times> monitoringCandidate) list \<Rightarrow> Pod list \<Rightarrow> int \<Rightarrow> AvState \<Rightarrow> int result \<times> AvState" where
  "check_all ae [] pods minRequeueAfter st = (Inr minRequeueAfter, st)"
| "check_all ae ((registry, cand) # cands) pods minRequeueAfter st =
     and_then (checkNextForRegistry ae cand registry pods st) (\<lambda>requeueAfter st1.
       check_all ae cands pods
         (if requeueAfter > 0 then min minRequeueAfter requeueAfter else minRequeueAfter) st1)"

datatype CisaResult = Forget | Requeue | RequeueAfter int

definition cisa_result :: "int \<Rightarrow> MonitoredImage list \<Rightarrow> CisaResult" where
  "cisa_result minRequeueAfter imgs =
     (if minRequeueAfter = max_dur then if length imgs > 0 then Requeue else Forget
      else RequeueAfter minRequeueAfter)"

text \<open>The patch of the status after the synchronisation: only when something changed.\<close>

definition sync_status ::
  "AvEnv \<Rightarrow> ClusterImageSetAvailability \<Rightarrow> Pod list \<Rightarrow> AvState \<Rightarrow>
     ClusterImageSetAvailability result \<times> AvState" where
  "sync_status ae original pods st =
     (let now = ae_Now ae (av_events st);
          (cisa, changed) = syncImageList (ae_rx ae) (env_ParseNamed (ae_Net ae)) (ae_Originals ae)
            (ae_Order ae) now now original pods;
          st1 = (if is_ok (CISA_ImageFilter (ae_rx ae) original) then st else av_log AvInvalidFilter st)
      in if changed
         then (ae_Patch ae (av_events st1) original cisa, av_log (AvPatch original cisa) st1)
         else (Inr cisa, st1))"

definition monitor ::
  "AvEnv \<Rightarrow> ClusterImageSetAvailability \<Rightarrow> Pod list \<Rightarrow> AvState \<Rightarrow> CisaResult result \<times> AvState" where
  "monitor ae cisa pods st =
     (case ae_ListCisas ae (av_events st) of
        Inl e \<Rightarrow> (Inl e, av_log AvListCisas st)
      | Inr cisas \<Rightarrow>
          (let st1 = (av_log AvListCisas st)\<lparr>av_cisas := cisas\<rparr>
           in (case monitoringCandidatesByRegistry (ae_rx ae) (ae_sel ae) (env_ParseNamed (ae_Net ae)) cisas of
                 Inl e \<Rightarrow> (Inl e, st1)
               | Inr m \<Rightarrow>
                   and_then (check_all ae (map (\<lambda>k. (k, the (map_of m k))) (ae_Order ae (keys m))) pods max_dur st1)
                     (\<lambda>d st2. (Inr (cisa_result d (cisa_Images cisa)), st2)))))"

definition CISA_Reconcile :: "AvEnv \<Rightarrow> AvState \<Rightarrow> CisaResult result \<times> AvState" where
  "CISA_Reconcile ae st =
     (case ae_Get ae (av_events st) of
        Inl e \<Rightarrow> ((case IgnoreNotFound e of None \<Rightarrow> Inr Forget | Some e' \<Rightarrow> Inl e'), av_log AvGet st)
      | Inr original \<Rightarrow>
          (let st1 = av_log AvGet st
           in (case ae_ListPods ae (av_events st1) of
                 Inl e \<Rightarrow> (Inl e, av_log AvListPods st1)
               | Inr pods \<Rightarrow>
                   (let st2 = av_log AvListPods st1
                    in (case CISA_PodMatcher (ae_rx ae) (ae_sel ae) original of
                          Inl _ \<Rightarrow> (Inr Forget, av_log AvInvalidFilter st2)
                        | Inr pm \<Rightarrow>
                            (let mine = filter (\<lambda>p. \<not> (\<not> pm p \<or> \<not> PodFilter_Match (ae_GlobalFilter ae) p)) pods
                             in and_then (sync_status ae original mine st2)
                                  (\<lambda>cisa st3. monitor ae cisa mine st3)))))))"

section \<open>The pod mapper and the backfill\<close>

definition cisa_mapPodToRequests ::
  "regexp_compile \<Rightarrow> selector_parse \<Rightarrow> PodFilter \<Rightarrow> ref_parser \<Rightarrow> (string \<Rightarrow> string list) \<Rightarrow>
     (string list \<Rightarrow> string list) \<Rightarrow> Pod \<Rightarrow> ClusterImageSetAvailability list result \<Rightarrow> string list" where
  "cisa_mapPodToRequests rx sel gf parse originals ord pod listed =
     (if \<not> PodFilter_Match gf pod then []
      else (case listed of
              Inl _ \<Rightarrow> []
            | Inr cisas \<Rightarrow>
                (let names = ord (keys (normalizedImageNamesMapFromAnnotatedPod parse originals pod))
                 in List.map_filter (\<lambda>c.
                      case CISA_PodMatcher rx sel c of
                        Inl _ \<Rightarrow> None
                      | Inr pm \<Rightarrow>
                          if \<not> pm pod then None
                          else (case CISA_ImageFilter rx c of
                                  Inl _ \<Rightarrow> None
                                | Inr match \<Rightarrow>
                                    if list_ex match names then Some (om_Name (cisa_Meta c)) else None)) cisas)))"

definition backfill_names ::
  "ref_parser \<Rightarrow> (string \<Rightarrow> string list) \<Rightarrow> string set \<Rightarrow> Pod list \<Rightarrow> (string \<Rightarrow> bool) \<Rightarrow> (string \<Rightarrow> bool)" where
  "backfill_names parse originals needs pods m0 =
     foldl (\<lambda>m pod. foldl (\<lambda>m (img, original). if img \<in> needs then m(img := m img \<or> original) else m) m
              (normalizedImageNamesMapFromAnnotatedPod parse originals pod)) m0 pods"

definition backfill_image :: "(string \<Rightarrow> bool) \<Rightarrow> MonitoredImage \<Rightarrow> MonitoredImage" where
  "backfill_image current img =
     (if \<not> mon_Original img \<and> current (mon_Image img) then img\<lparr>mon_Original := True\<rparr> else img)"

definition backfill_cisa ::
  "ref_parser \<Rightarrow> (string \<Rightarrow> string list) \<Rightarrow> Pod list \<Rightarrow> ClusterImageSetAvailability \<Rightarrow>
     ClusterImageSetAvailability \<times> bool" where
  "backfill_cisa parse originals pods c =
     (let needs = mon_Image ` set (filter (\<lambda>i. \<not> mon_Original i) (cisa_Images c))
      in if needs = {} then (c, False)
         else let current = backfill_names parse originals needs pods (\<lambda>_. False);
                  imgs = map (backfill_image current) (cisa_Images c)
              in (c\<lparr>cisa_Images := imgs\<rparr>,
                  list_ex (\<lambda>i. \<not> mon_Original i \<and> current (mon_Image i)) (cisa_Images c)))"

text \<open>A failed patch is logged and the next resource is taken.\<close>

fun backfill_all :: "AvEnv \<Rightarrow> Pod list \<Rightarrow> ClusterImageSetAvailability list \<Rightarrow> AvState \<Rightarrow> AvState" where
  "backfill_all ae pods [] st = st"
| "backfill_all ae pods (c # cs) st =
     (case backfill_cisa (env_ParseNamed (ae_Net ae)) (ae_Originals ae) pods c of
        (new, changed) \<Rightarrow> backfill_all ae pods cs (if changed then av_log (AvPatch c new) st else st))"

definition BackfillOriginalField :: "AvEnv \<Rightarrow> AvState \<Rightarrow> unit result \<times> AvState" where
  "BackfillOriginalField ae st =
     (case ae_ListCisas ae (av_events st) of
        Inl e \<Rightarrow> (Inl e, av_log AvListCisas st)
      | Inr cisas \<Rightarrow>
          (let st1 = av_log AvListCisas st
           in if length cisas = 0 then (Inr (), st1)
              else (case ae_ListPods ae (av_events st1) of
                      Inl e \<Rightarrow> (Inl e, av_log AvListPods st1)
                    | Inr pods \<Rightarrow> (Inr (), backfill_all ae pods cisas (av_log AvListPods st1)))))"

end
