(* ===== verification/AvailabilitySafety.thy ===== *)
theory AvailabilitySafety
  imports Availability
begin

text \<open>
  Properties of the availability monitor: the candidate of each registry is its most overdue
  image, checks of a registry are spaced by its tick, the list of monitored images follows the
  pods, the backfill only adds, and the limits of the code found on the way.
\<close>

section \<open>Candidates\<close>

definition registry_of :: "ref_parser \<Rightarrow> string \<Rightarrow> string option" where
  "registry_of parse img =
     (case RegistryAndPathFromReference parse img of Inl _ \<Rightarrow> None | Inr (r, _) \<Rightarrow> Some r)"

text \<open>The images of one registry in the resources with valid filters, each with its resource.\<close>

fun registry_images ::
  "regexp_compile \<Rightarrow> selector_parse \<Rightarrow> ref_parser \<Rightarrow> string \<Rightarrow> nat \<Rightarrow> ClusterImageSetAvailability list \<Rightarrow>
     (nat \<times> MonitoredImage) list" where
  "registry_images rx sel parse reg i [] = []"
| "registry_images rx sel parse reg i (c # cs) =
     (if is_ok (CISA_PodMatcher rx sel c) \<and> is_ok (CISA_ImageFilter rx c)
      then map (Pair i) (filter (\<lambda>img. registry_of parse (mon_Image img) = Some reg) (cisa_Images c)) else [])
     @ registry_images rx sel parse reg (Suc i) cs"

definition consider_all ::
  "monitoringCandidate option \<Rightarrow> (nat \<times> MonitoredImage) list \<Rightarrow> monitoringCandidate option" where
  "consider_all = foldl (\<lambda>c (i, img). Some (consider_image i img c))"

lemma consider_all_simps [simp]:
  "consider_all c [] = c" "consider_all c ((i, img) # es) = consider_all (Some (consider_image i img c)) es"
  "consider_all c (es @ fs) = consider_all (consider_all c es) fs"
  by (simp_all add: consider_all_def)

lemma add_candidates_lookup:
  assumes "add_candidates parse i imgs m = Inr m'"
  shows "map_of m' reg = consider_all (map_of m reg)
    (map (Pair i) (filter (\<lambda>img. registry_of parse (mon_Image img) = Some reg) imgs))"
  using assms
proof (induction imgs arbitrary: m)
  case Nil
  then show ?case by simp
next
  case (Cons img imgs)
  show ?case
  proof (cases "RegistryAndPathFromReference parse (mon_Image img)")
    case (Inl e)
    with Cons show ?thesis by (auto simp: registry_of_def split: if_splits)
  next
    case (Inr rp)
    obtain r p where "rp = (r, p)" by fastforce
    with Inr Cons.prems have s: "add_candidates parse i imgs (AList.update r (consider_image i img (map_of m r)) m) = Inr m'"
      by simp
    have "registry_of parse (mon_Image img) = Some r" using Inr \<open>rp = (r, p)\<close> by (simp add: registry_of_def)
    then show ?thesis using Cons.IH [OF s] by auto
  qed
qed

lemma candidates_from_lookup:
  assumes "candidates_from rx sel parse i cs m = Inr m'"
  shows "map_of m' reg = consider_all (map_of m reg) (registry_images rx sel parse reg i cs)"
  using assms
proof (induction cs arbitrary: i m)
  case Nil
  then show ?case by simp
next
  case (Cons c cs)
  show ?case
  proof (cases "is_ok (CISA_PodMatcher rx sel c) \<and> is_ok (CISA_ImageFilter rx c)")
    case False
    then have "candidates_from rx sel parse i (c # cs) m = candidates_from rx sel parse (Suc i) cs m" by auto
    with False Cons show ?thesis by auto
  next
    case True
    with Cons.prems obtain m1 where m1: "add_candidates parse i (cisa_Images c) m = Inr m1"
      "candidates_from rx sel parse (Suc i) cs m1 = Inr m'" by (auto split: sum.splits)
    from Cons.IH [OF m1(2)] add_candidates_lookup [OF m1(1), of reg] True show ?thesis by simp
  qed
qed

text \<open>What it means to be the candidate for a list of images.\<close>

definition is_candidate :: "monitoringCandidate \<Rightarrow> (nat \<times> MonitoredImage) list \<Rightarrow> bool" where
  "is_candidate c es \<longleftrightarrow>
     (\<exists>(i, img)\<in>set es. mc_imageName c = mon_Image img \<and> mc_cisa c = i \<and> mc_lastMonitor c = mon_LastMonitor img)
     \<and> (mc_lastMonitor c \<noteq> None \<longrightarrow> (\<forall>(i, img)\<in>set es. \<exists>t. mon_LastMonitor img = Some t \<and> the (mc_lastMonitor c) \<le> t))
     \<and> mc_registryLastMonitor c = Max (insert 0 {t. \<exists>(i, img)\<in>set es. mon_LastMonitor img = Some t})"

lemma monitor_times_finite: "finite {t. \<exists>(i, img)\<in>set es. mon_LastMonitor img = Some t}"
proof -
  have "{t. \<exists>(i, img)\<in>set es. mon_LastMonitor img = Some t} \<subseteq> (\<lambda>(i, img). the (mon_LastMonitor img)) ` set es"
    by (force simp: image_iff)
  then show ?thesis by (rule finite_subset) simp
qed

lemma consider_fields:
  "mc_registryLastMonitor (consider_image i img (Some c)) =
     (case mon_LastMonitor img of None \<Rightarrow> mc_registryLastMonitor c | Some t \<Rightarrow> max t (mc_registryLastMonitor c))"
  "mon_LastMonitor img = None \<or> mt_Before (mon_LastMonitor img) (mc_lastMonitor c) \<Longrightarrow>
     mc_imageName (consider_image i img (Some c)) = mon_Image img \<and> mc_cisa (consider_image i img (Some c)) = i
     \<and> mc_lastMonitor (consider_image i img (Some c)) = mon_LastMonitor img"
  "\<not> (mon_LastMonitor img = None \<or> mt_Before (mon_LastMonitor img) (mc_lastMonitor c)) \<Longrightarrow>
     mc_imageName (consider_image i img (Some c)) = mc_imageName c \<and> mc_cisa (consider_image i img (Some c)) = mc_cisa c
     \<and> mc_lastMonitor (consider_image i img (Some c)) = mc_lastMonitor c"
  by (auto simp: consider_image_def Let_def max_def split: option.splits)

lemma consider_candidate:
  assumes "is_candidate c es"
  shows "is_candidate (consider_image i img (Some c)) (es @ [(i, img)])"
proof -
  let ?c' = "consider_image i img (Some c)" and ?lm = "mon_LastMonitor img"
  let ?T = "{t. \<exists>(i, img)\<in>set es. mon_LastMonitor img = Some t}"
  have last: "mc_registryLastMonitor ?c' = Max (insert 0 {t. \<exists>(j, x)\<in>set (es @ [(i, img)]). mon_LastMonitor x = Some t})"
  proof (cases ?lm)
    case None
    then have "{t. \<exists>(j, x)\<in>set (es @ [(i, img)]). mon_LastMonitor x = Some t} = ?T" by auto
    with None assms show ?thesis by (simp only: consider_fields(1) is_candidate_def option.case)
  next
    case (Some t)
    then have "{t. \<exists>(j, x)\<in>set (es @ [(i, img)]). mon_LastMonitor x = Some t} = insert t ?T" by auto
    moreover have "Max (insert 0 (insert t ?T)) = max t (Max (insert 0 ?T))"
      using monitor_times_finite [of es] by (simp add: insert_commute [of 0 t])
    ultimately show ?thesis using Some assms by (simp only: consider_fields(1) is_candidate_def option.case)
  qed
  have old: "mc_lastMonitor c \<noteq> None \<Longrightarrow> (\<forall>(i, img)\<in>set es. \<exists>t. mon_LastMonitor img = Some t \<and> the (mc_lastMonitor c) \<le> t)"
    and ex: "\<exists>(i, img)\<in>set es. mc_imageName c = mon_Image img \<and> mc_cisa c = i \<and> mc_lastMonitor c = mon_LastMonitor img"
    using assms by (auto simp: is_candidate_def)
  show ?thesis
  proof (cases "?lm = None \<or> mt_Before ?lm (mc_lastMonitor c)")
    case True
    note f = consider_fields(2) [OF True, of i]
    have "\<exists>t'. mon_LastMonitor x = Some t' \<and> the ?lm \<le> t'" if "?lm \<noteq> None" "(j, x) \<in> set es" for j x
    proof -
      from that(1) True obtain a b where "?lm = Some a" "mc_lastMonitor c = Some b" "a < b"
        by (cases ?lm; cases "mc_lastMonitor c") auto
      with old that(2) show ?thesis by fastforce
    qed
    with f last show ?thesis by (auto simp: is_candidate_def)
  next
    case False
    note f = consider_fields(3) [OF False, of i]
    have "\<exists>t'. ?lm = Some t' \<and> the (mc_lastMonitor c) \<le> t'" if "mc_lastMonitor c \<noteq> None"
      using that False by (cases ?lm; cases "mc_lastMonitor c") auto
    with f last old ex show ?thesis by (auto simp: is_candidate_def)
  qed
qed

lemma consider_first: "is_candidate (consider_image i img None) [(i, img)]"
  by (cases "mon_LastMonitor img") (auto simp: is_candidate_def consider_image_def zero_candidate_def Let_def)

lemma consider_all_candidate:
  assumes "es \<noteq> []"
  shows "\<exists>c. consider_all None es = Some c \<and> is_candidate c es"
  using assms
proof (induction es rule: rev_induct)
  case Nil
  then show ?case by simp
next
  case (snoc e es)
  obtain i img where e: "e = (i, img)" by fastforce
  show ?case
  proof (cases "es = []")
    case True
    then show ?thesis using consider_first e by simp
  next
    case False
    with snoc.IH obtain c where "consider_all None es = Some c" "is_candidate c es" by blast
    then show ?thesis using consider_candidate e by simp
  qed
qed

lemma candidate_spec:
  assumes "monitoringCandidatesByRegistry rx sel parse cisas = Inr m"
  shows "(case map_of m reg of
            None \<Rightarrow> registry_images rx sel parse reg 0 cisas = []
          | Some c \<Rightarrow> is_candidate c (registry_images rx sel parse reg 0 cisas))"
  using candidates_from_lookup [OF assms [unfolded monitoringCandidatesByRegistry_def], of reg]
    consider_all_candidate [of "registry_images rx sel parse reg 0 cisas"]
  by (cases "registry_images rx sel parse reg 0 cisas = []") auto

text \<open>Resources and an environment for the witnesses.\<close>

definition example_monitored :: "string \<Rightarrow> mtime \<Rightarrow> MonitoredImage" where
  "example_monitored img t =
     \<lparr>mon_Image = img, mon_Status = Available, mon_UnusedSince = None, mon_LastError = None,
      mon_LastMonitor = t, mon_Original = False\<rparr>"

definition example_cisa :: "string list \<Rightarrow> MonitoredImage list \<Rightarrow> ClusterImageSetAvailability" where
  "example_cisa inc imgs =
     \<lparr>cisa_Meta = example_meta ''all'' [], cisa_UnusedImageExpiry = hour,
      cisa_ImageFilter = \<lparr>ifd_Include = inc, ifd_Exclude = []\<rparr>,
      cisa_Filter = \<lparr>cflt_Include = [], cflt_Exclude = []\<rparr>,
      cisa_ImageCount = int (length imgs), cisa_Images = imgs\<rparr>"

definition example_monitor :: "ClusterImageSetAvailability list \<Rightarrow> Pod list \<Rightarrow> int \<Rightarrow> Config \<Rightarrow> AvEnv" where
  "example_monitor cisas pods now cfg =
     \<lparr>ae_Net = example_env (Inr None) 404, ae_Config = cfg, ae_rx = literal_rx, ae_sel = presence_sel,
      ae_GlobalFilter = \<lparr>pdf_includeLabels = [], pdf_excludeLabels = [], pdf_includeAnnotations = [],
        pdf_excludeAnnotations = []\<rparr>,
      ae_Order = rev, ae_Originals = (\<lambda>_. []), ae_Now = (\<lambda>_. now), ae_Get = (\<lambda>_. Inr (hd cisas)),
      ae_ListPods = (\<lambda>_. Inr pods), ae_ListCisas = (\<lambda>_. Inr cisas),
      ae_GetSecret = (\<lambda>_ ns n. Inl (ENotFound n)), ae_Patch = (\<lambda>_ _ y. Inr y)\<rparr>"

definition idle :: "ClusterImageSetAvailability list \<Rightarrow> AvState" where
  "idle cisas = \<lparr>av_cisas = cisas, av_events = [], av_sent = []\<rparr>"

text \<open>
  C19. Each registry with an image to monitor gets one candidate, the most overdue of its images
  over all the resources with valid filters: one never checked if there is any, else one
  checked longest ago; the time it carries is that of the registry's latest check.
\<close>

theorem candidate_is_most_overdue:
  assumes "monitoringCandidatesByRegistry rx sel parse cisas = Inr m"
  shows "(map_of m reg = None \<longleftrightarrow> registry_images rx sel parse reg 0 cisas = [])
    \<and> (\<forall>c. map_of m reg = Some c \<longrightarrow> is_candidate c (registry_images rx sel parse reg 0 cisas))"
proof (cases "map_of m reg")
  case None
  then show ?thesis using candidate_spec [OF assms, of reg] by simp
next
  case (Some c)
  then have c: "is_candidate c (registry_images rx sel parse reg 0 cisas)"
    using candidate_spec [OF assms, of reg] by simp
  then have "registry_images rx sel parse reg 0 cisas \<noteq> []" by (auto simp: is_candidate_def)
  with Some c show ?thesis by simp
qed

theorem candidate_is_most_overdue_witness:
  "\<exists>m c. monitoringCandidatesByRegistry literal_rx presence_sel example_parse
       [example_cisa [''r/a''] [example_monitored ''r/a'' (Some 9), example_monitored ''r/b'' (Some 5)]] = Inr m
     \<and> map_of m ''r'' = Some c \<and> mc_registryLastMonitor c = 9"
proof -
  let ?cs = "[example_cisa [''r/a''] [example_monitored ''r/a'' (Some 9), example_monitored ''r/b'' (Some 5)]]"
  let ?r = "monitoringCandidatesByRegistry literal_rx presence_sel example_parse ?cs"
  have "is_ok ?r" by code_simp
  then obtain m where m: "?r = Inr m" by (auto simp: is_ok_iff)
  have imgs: "registry_images literal_rx presence_sel example_parse ''r'' 0 ?cs
      = [(0, example_monitored ''r/a'' (Some 9)), (0, example_monitored ''r/b'' (Some 5))]" by code_simp
  note spec = candidate_is_most_overdue [OF m, of "''r''", unfolded imgs]
  then obtain c where c: "map_of m ''r'' = Some c" by auto
  with spec have "is_candidate c [(0, example_monitored ''r/a'' (Some 9)), (0, example_monitored ''r/b'' (Some 5))]" by blast
  then have "mc_registryLastMonitor c = Max (insert 0 {t. t = 9 \<or> t = 5})"
    by (simp add: is_candidate_def example_monitored_def)
  moreover have "insert (0 :: int) {t. t = 9 \<or> t = 5} = {0, 5, 9}" by auto
  ultimately show ?thesis using m c by simp
qed

section \<open>The rate of checks\<close>

fun is_check :: "AvEvent \<Rightarrow> bool" where
  "is_check (AvCheck _) = True"
| "is_check _ = False"

text \<open>
  C20. Checks of a registry are spaced: when any of its images was checked at \<open>t\<close>, the next
  check of the registry comes no sooner than its tick, the interval divided by the number of
  checks allowed in it, after \<open>t\<close>. The image checked is the candidate, and when it is too
  early the controller asks to be run again exactly when it is due.
\<close>

theorem registry_checks_are_spaced:
  assumes "monitoringCandidatesByRegistry rx sel parse cisas = Inr m" and "map_of m reg = Some cand"
    and "(i, img) \<in> set (registry_images rx sel parse reg 0 cisas)" and "mon_LastMonitor img = Some t"
    and "rc = registryConfig (ae_Config ae) reg" and "rm_MaxPerInterval rc > 0" and "rm_Interval rc \<ge> 0"
    and "is_dur (rm_Interval rc)" and "now = ae_Now ae (av_events st)"
    and "mc_registryLastMonitor cand \<le> now" and "tick = rm_Interval rc div rm_MaxPerInterval rc"
  shows "t \<le> mc_registryLastMonitor cand
    \<and> (now < mc_registryLastMonitor cand + tick \<longrightarrow>
         checkNextForRegistry ae cand reg pods st = (Inr (mc_registryLastMonitor cand + tick - now), st))"
proof -
  let ?last = "mc_registryLastMonitor cand"
  let ?es = "registry_images rx sel parse reg 0 cisas"
  have c: "is_candidate cand ?es"
    using candidate_spec [OF assms(1), of reg] assms(2) by simp
  have "t \<le> Max (insert 0 {t. \<exists>(i, img)\<in>set ?es. mon_LastMonitor img = Some t})"
    by (rule Max_ge) (use monitor_times_finite [of ?es] assms(3,4) in auto)
  with c have t: "t \<le> ?last" by (simp add: is_candidate_def)
  have tick: "0 \<le> tick" "tick \<le> rm_Interval rc"
    using assms(6,7,11) zdiv_mono2 [of "rm_Interval rc" 1 "rm_MaxPerInterval rc"]
    by (simp_all add: pos_imp_zdiv_nonneg_iff)
  have "sgn (rm_Interval rc) * sgn (rm_MaxPerInterval rc) * (\<bar>rm_Interval rc\<bar> div \<bar>rm_MaxPerInterval rc\<bar>) = tick"
    using assms(6,7,11) by (cases "rm_Interval rc = 0") simp_all
  moreover have "is_dur tick" using tick assms(8) by (simp add: dur_defs)
  ultimately have td: "tick_duration rc = Inr tick"
    using assms(6) by (simp add: tick_duration_def i64_id)
  have "checkNextForRegistry ae cand reg pods st = (Inr (?last + tick - now), st)" if early: "now < ?last + tick"
  proof -
    have "is_dur (now - ?last)" using early tick assms(8,10) by (simp add: dur_defs)
    then have "time_sub now ?last = now - ?last" by (rule time_sub_exact)
    moreover have "is_dur (tick - (now - ?last))" using early tick assms(8,10) by (simp add: dur_defs)
    ultimately have "i64 (tick - time_sub now ?last) = ?last + tick - now" by (simp add: i64_id)
    then show ?thesis
      using early by (simp add: checkNextForRegistry_def assms(5) [symmetric] td Let_def assms(9) [symmetric])
  qed
  with t show ?thesis by blast
qed

theorem registry_checks_are_spaced_witness:
  "\<exists>c. checkNextForRegistry (example_monitor [example_cisa [''r/a''] [example_monitored ''r/a'' (Some 9)]] [] 10
        defaultConfig) c ''r'' [] (idle [example_cisa [''r/a''] [example_monitored ''r/a'' (Some 9)]])
     = (Inr (3 * hour div 25 - 1), idle [example_cisa [''r/a''] [example_monitored ''r/a'' (Some 9)]])"
proof -
  let ?cs = "[example_cisa [''r/a''] [example_monitored ''r/a'' (Some 9)]]"
  let ?r = "monitoringCandidatesByRegistry literal_rx presence_sel example_parse ?cs"
  let ?ae = "example_monitor ?cs [] 10 defaultConfig" and ?st = "idle ?cs"
  obtain m c where m: "?r = Inr m" "map_of m ''r'' = Some c" "mc_registryLastMonitor c = 9"
  proof -
    have "case ?r of Inl _ \<Rightarrow> False | Inr m \<Rightarrow>
        (case map_of m ''r'' of None \<Rightarrow> False | Some c \<Rightarrow> mc_registryLastMonitor c = 9)" by code_simp
    then show ?thesis using that by (auto split: sum.splits option.splits)
  qed
  have i: "(0, example_monitored ''r/a'' (Some 9)) \<in> set (registry_images literal_rx presence_sel example_parse ''r'' 0 ?cs)"
    by code_simp
  have rc: "rm_MaxPerInterval (registryConfig (ae_Config ?ae) ''r'') = 25"
    "rm_Interval (registryConfig (ae_Config ?ae) ''r'') = 3 * hour"
    by (simp_all add: example_monitor_def registryConfig_def defaultConfig_def Let_def)
  have now: "(10 :: int) = ae_Now ?ae (av_events ?st)" by (simp add: example_monitor_def)
  have t: "mon_LastMonitor (example_monitored ''r/a'' (Some 9)) = Some 9" by (simp add: example_monitored_def)
  note spaced = registry_checks_are_spaced [OF m(1,2) i t refl _ _ _ now, where tick = "3 * hour div 25" and pods = "[]"]
  have "checkNextForRegistry ?ae c ''r'' [] ?st = (Inr (9 + 3 * hour div 25 - 10), ?st)"
    using spaced m(3) by (simp add: rc hour_def dur_defs)
  then show ?thesis by (intro exI [of _ c]) (simp add: hour_def)
qed

end
