(* ===== verification/AvailabilityStatus.thy ===== *)
theory AvailabilityStatus
  imports AvailabilitySafety "HOL-Library.Sublist"
begin

text \<open>
  Properties of the status kept by the availability monitor: the list follows the pods, what a
  check writes, where its credentials come from, what the backfill changes, and that the
  reconcile loop makes at most one check of a registry and always asks to be run again.
\<close>

section \<open>The list of monitored images\<close>

lemma keys_add_current:
  "set (keys (add_current match names m)) = set (keys m) \<union> {img \<in> set (keys names). match img}"
  by (induction names arbitrary: m) (auto simp: add_current_def split: if_splits)

lemma distinct_add_current: "distinct (keys m) \<Longrightarrow> distinct (keys (add_current match names m))"
  by (induction names arbitrary: m) (auto simp: add_current_def distinct_keys_update)

lemma keys_current_images:
  "set (keys (current_images parse originals match pods)) =
     {img \<in> set (podsInUseImages parse originals pods). match img}"
  by (induction pods rule: rev_induct)
    (auto simp: current_images_def podsInUseImages_def keys_add_current)

lemma distinct_current_images: "distinct (keys (current_images parse originals match pods))"
  by (induction pods rule: rev_induct) (simp_all add: current_images_def distinct_add_current)

lemma sync_unused_fields [simp]:
  "mon_Image (fst (sync_unused now match cur img)) = mon_Image img"
  "mon_Status (fst (sync_unused now match cur img)) = mon_Status img"
  "mon_Original (fst (sync_unused now match cur img)) = mon_Original img"
  by (simp_all add: sync_unused_def)

text \<open>Which images survive the synchronisation, when the marker counts as expired.\<close>

definition stays :: "int \<Rightarrow> int \<Rightarrow> int \<Rightarrow> (string \<Rightarrow> bool) \<Rightarrow> string set \<Rightarrow> MonitoredImage \<Rightarrow> bool" where
  "stays now later expiry match cur img \<longleftrightarrow>
     match (mon_Image img) \<and>
     (mon_Image img \<in> cur \<or>
      mon_Status img \<noteq> Scheduled \<and>
      time_sub later (case mon_UnusedSince img of None \<Rightarrow> now | Some t \<Rightarrow> t) < expiry)"

lemma sync_unused_expired:
  assumes "time_sub later instant_expiry \<ge> expiry"
  shows "image_expired later expiry (fst (sync_unused now match cur img)) \<longleftrightarrow> \<not> stays now later expiry match cur img"
  using assms by (auto simp: sync_unused_def image_expired_def stays_def not_less split: option.splits)

lemma sync_images_kept:
  assumes "expiry > 0" and "time_sub later instant_expiry \<ge> expiry"
  shows "map mon_Image (fst (remove_expired later expiry (map fst (map (sync_unused now match cur) imgs))))
     = map mon_Image (filter (stays now later expiry match cur) imgs)"
  using assms by (induction imgs) (auto simp: remove_expired_def sync_unused_expired)

lemma sync_images_names:
  assumes "expiry > 0" and "time_sub later instant_expiry \<ge> expiry"
    and "sync_images now later expiry match ord current imgs = (imgs', changed)"
  shows "map mon_Image imgs' = map mon_Image (filter (stays now later expiry match (set (keys current))) imgs)
     @ filter (\<lambda>k. k \<notin> mon_Image ` set (filter (stays now later expiry match (set (keys current))) imgs)) (ord (keys current))"
proof -
  let ?cur = "set (keys current)" and ?stay = "filter (stays now later expiry match (set (keys current))) imgs"
  obtain kept removed where k:
    "remove_expired later expiry (map fst (map (sync_unused now match ?cur) imgs)) = (kept, removed)" by fastforce
  have "map mon_Image kept = map mon_Image ?stay"
    using sync_images_kept [OF assms(1,2), of now match ?cur imgs] by (simp add: k del: map_map)
  moreover from this have "mon_Image ` set kept = mon_Image ` set ?stay" by (metis list.set_map)
  moreover have "imgs' = kept @ map (\<lambda>k. new_monitored (k, the (map_of current k)))
      (filter (\<lambda>k. k \<notin> mon_Image ` set kept) (ord (keys current)))"
    using assms(3) k by (auto simp: sync_images_def Let_def simp del: map_map)
  ultimately show ?thesis by (simp add: comp_def new_monitored_def)
qed

text \<open>
  C17. The monitored images follow the pods: after a synchronisation that reads the clock at
  \<open>now\<close> and \<open>later\<close>, the list holds exactly the images in use that match the filter, and
  those already listed that match it, were checked before and are unused for less than the
  expiry; no image is listed twice when none was, and the count is the length of the list.
\<close>

theorem monitored_images_follow_pods:
  assumes "CISA_ImageFilter rx cisa = Inr match" and "cisa_UnusedImageExpiry cisa > 0"
    and "time_sub later instant_expiry \<ge> cisa_UnusedImageExpiry cisa" and "range_order ord"
    and "syncImageList rx parse originals ord now later cisa pods = (cisa', changed)"
  shows "mon_Image ` set (cisa_Images cisa') =
       {img \<in> set (podsInUseImages parse originals pods). match img}
       \<union> mon_Image ` {i \<in> set (cisa_Images cisa). match (mon_Image i) \<and> mon_Status i \<noteq> Scheduled
            \<and> time_sub later (case mon_UnusedSince i of None \<Rightarrow> now | Some t \<Rightarrow> t) < cisa_UnusedImageExpiry cisa}
    \<and> (distinct (map mon_Image (cisa_Images cisa)) \<longrightarrow> distinct (map mon_Image (cisa_Images cisa')))
    \<and> cisa_ImageCount cisa' = int (length (cisa_Images cisa'))"
proof -
  let ?current = "current_images parse originals match pods" and ?expiry = "cisa_UnusedImageExpiry cisa"
  let ?stay = "filter (stays now later ?expiry match (set (keys ?current))) (cisa_Images cisa)"
  let ?new = "filter (\<lambda>k. k \<notin> mon_Image ` set ?stay) (ord (keys ?current))"
  obtain imgs' ch where s: "sync_images now later ?expiry match ord ?current (cisa_Images cisa) = (imgs', ch)" by fastforce
  with assms(1,5) have c: "cisa_Images cisa' = imgs'" "cisa_ImageCount cisa' = int (length imgs')"
    by (auto simp: syncImageList_def)
  note names = sync_images_names [OF assms(2,3) s]
  have "mon_Image ` set imgs' = set (map mon_Image imgs')" by simp
  also have "\<dots> = mon_Image ` set ?stay \<union> set ?new" unfolding names by simp
  also have "\<dots> = mon_Image ` set ?stay \<union> set (keys ?current)" using range_order_set [OF assms(4)] by auto
  also have "\<dots> = set (keys ?current) \<union> mon_Image ` {i \<in> set (cisa_Images cisa). match (mon_Image i) \<and> mon_Status i \<noteq> Scheduled
      \<and> time_sub later (case mon_UnusedSince i of None \<Rightarrow> now | Some t \<Rightarrow> t) < ?expiry}"
    by (auto simp: stays_def)
  finally have set_eq: "mon_Image ` set imgs' = \<dots>" .
  have "distinct (map mon_Image imgs')" if "distinct (map mon_Image (cisa_Images cisa))"
  proof -
    have "distinct (map mon_Image ?stay)" using that by (rule distinct_map_filter)
    moreover have "distinct ?new" using range_order_distinct [OF assms(4)] distinct_current_images by simp
    ultimately show ?thesis unfolding names by auto
  qed
  with set_eq c show ?thesis by (simp add: keys_current_images)
qed

definition example_running :: "string \<Rightarrow> string list \<Rightarrow> Pod" where
  "example_running img secrets =
     (example_pod ''ns'' Map.empty)\<lparr>
        pod_Containers := [\<lparr>ctr_Name = ''c'', ctr_Image = img, ctr_ImagePullPolicy = PullIfNotPresent\<rparr>],
        pod_ImagePullSecrets := secrets\<rparr>"

theorem monitored_images_follow_pods_witness:
  "mon_Image ` set (cisa_Images (fst (syncImageList literal_rx example_parse (\<lambda>_. []) rev (2 * hour + 10) (2 * hour + 10)
        (example_cisa [''.*''] [example_monitored ''r/a'' (Some 9)]) [example_running ''r/b'' []])))
     = {''r/a'', ''r/b''}"
proof -
  let ?c = "example_cisa [''.*''] [example_monitored ''r/a'' (Some 9)]" and ?pods = "[example_running ''r/b'' []]"
  obtain match where m: "CISA_ImageFilter literal_rx ?c = Inr match" "match ''r/a''" "match ''r/b''"
  proof -
    have "case CISA_ImageFilter literal_rx ?c of Inl _ \<Rightarrow> False | Inr m \<Rightarrow> m ''r/a'' \<and> m ''r/b''" by code_simp
    then show ?thesis using that by (auto split: sum.splits)
  qed
  obtain c' ch where s: "syncImageList literal_rx example_parse (\<lambda>_. []) rev (2 * hour + 10) (2 * hour + 10) ?c ?pods = (c', ch)"
    by fastforce
  have pods: "podsInUseImages example_parse (\<lambda>_. []) ?pods = [''r/b'']" by code_simp
  have e: "cisa_UnusedImageExpiry ?c > 0" "time_sub (2 * hour + 10) instant_expiry \<ge> cisa_UnusedImageExpiry ?c"
    by (simp_all add: example_cisa_def hour_def instant_expiry_def dur_defs)
  have "{i \<in> set (cisa_Images ?c). match (mon_Image i) \<and> mon_Status i \<noteq> Scheduled
      \<and> time_sub (2 * hour + 10) (case mon_UnusedSince i of None \<Rightarrow> 2 * hour + 10 | Some t \<Rightarrow> t) < cisa_UnusedImageExpiry ?c}
      = {example_monitored ''r/a'' (Some 9)}" (is "?kept = _")
    using m(2) by (auto simp: example_cisa_def example_monitored_def hour_def dur_defs)
  moreover have "mon_Image ` set (cisa_Images c') = {img \<in> {''r/b''}. match img} \<union> mon_Image ` ?kept"
    using monitored_images_follow_pods [OF m(1) e range_order_rev s] by (simp only: pods list.set)
  ultimately have "mon_Image ` set (cisa_Images c') = {''r/b'', ''r/a''}"
    using m(3) by (auto simp: example_monitored_def)
  then show ?thesis by (auto simp: s)
qed

text \<open>
  An image marked for instant removal is dropped without being reported as a change: when
  the marker was already stored (the expiry was zero before, say), the image leaves the list in
  memory but the status is not patched, so the image stays in the stored object.
\<close>

theorem instant_removal_not_reported:
  assumes "expiry > 0" and "time_sub later instant_expiry \<ge> expiry" and "\<not> match (mon_Image img)"
    and "mon_UnusedSince img = Some instant_expiry" and "keys current = []" and "ord [] = []"
  shows "sync_images now later expiry match ord current [img] = ([], False)"
  using assms by (simp add: sync_images_def sync_unused_def remove_expired_def image_expired_def)

theorem instant_removal_not_reported_witness:
  "sync_images (2 * hour) (2 * hour) 1 (\<lambda>_. False) rev []
     [(example_monitored ''r/a'' None)\<lparr>mon_UnusedSince := Some instant_expiry\<rparr>] = ([], False)"
  by (rule instant_removal_not_reported) (simp_all add: hour_def instant_expiry_def dur_defs)

section \<open>What a check writes\<close>

text \<open>
  A check that returns stamps the image with the time it began and leaves its name, its
  unused marker and its origin; its status is the registry's answer, except that an
  authentication failure is shown as a missing secret when the secrets could not be read or
  the image already had that status: the earlier status and error then stay although the
  secrets can now be read.
\<close>

theorem check_outcome:
  assumes "performCheck ae img rc pods st = (Inr img', st')"
  shows "\<exists>creds st1 result err n.
       resolveCredentials ae (mon_Image img) (rm_FallbackCredentialSecret rc) pods st = (creds, st1)
     \<and> CheckImageAvailability (ae_Net ae) (mon_Image img) (rm_Method rc) (rm_Timeout rc)
         (case creds of Inl _ \<Rightarrow> [] | Inr s \<Rightarrow> s) (ResolveDigestEnabled rc) (av_sent st1) = (Inr (result, err), n)
     \<and> mon_LastMonitor img' = Some (ae_Now ae (av_events st))
     \<and> mon_Image img' = mon_Image img \<and> mon_UnusedSince img' = mon_UnusedSince img \<and> mon_Original img' = mon_Original img
     \<and> (if result \<noteq> InvalidAuth then mon_Status img' = result \<and> mon_LastError img' = err
        else case creds of
               Inl e \<Rightarrow> mon_Status img' = UnavailableSecret \<and> mon_LastError img' = Some e
             | Inr _ \<Rightarrow> if mon_Status img = UnavailableSecret
                        then mon_Status img' = UnavailableSecret \<and> mon_LastError img' = mon_LastError img
                        else mon_Status img' = InvalidAuth \<and> mon_LastError img' = err)"
proof -
  obtain creds st1 where c: "resolveCredentials ae (mon_Image img) (rm_FallbackCredentialSecret rc) pods st = (creds, st1)"
    by fastforce
  let ?check = "CheckImageAvailability (ae_Net ae) (mon_Image img) (rm_Method rc) (rm_Timeout rc)
         (case creds of Inl _ \<Rightarrow> [] | Inr s \<Rightarrow> s) (ResolveDigestEnabled rc) (av_sent st1)"
  from assms obtain result err n where n: "?check = (Inr (result, err), n)"
    and img': "img' = record_check (ae_Now ae (av_events st)) (case creds of Inl e \<Rightarrow> Some e | Inr _ \<Rightarrow> None) result err img"
    by (auto simp: performCheck_def Let_def c split: prod.splits sum.splits)
  show ?thesis
    by (intro exI [of _ creds] exI [of _ st1] exI [of _ result] exI [of _ err] exI [of _ n])
      (auto simp: c n img' record_check_def Let_def split: sum.splits)
qed

theorem check_outcome_witness:
  "\<exists>img' st'. performCheck (example_monitor [] [] 10 defaultConfig) (example_monitored ''r/a'' None)
       (cfg_Default defaultConfig) [] (idle []) = (Inr img', st') \<and> mon_LastMonitor img' = Some 10"
proof -
  let ?ae = "example_monitor [] [] 10 defaultConfig" and ?img = "example_monitored ''r/a'' None"
    and ?rc = "cfg_Default defaultConfig"
  have "is_ok (fst (performCheck ?ae ?img ?rc [] (idle [])))" by code_simp
  then obtain img' st' where p: "performCheck ?ae ?img ?rc [] (idle []) = (Inr img', st')"
    by (cases "performCheck ?ae ?img ?rc [] (idle [])") (auto simp: is_ok_iff)
  with check_outcome [OF p] show ?thesis by (auto simp: example_monitor_def)
qed

lemma no_pod_credentials:
  assumes "\<forall>pod\<in>set pods. pod_ImagePullSecrets pod = [] \<or>
    img \<notin> set (keys (normalizedImageNamesMapFromAnnotatedPod (env_ParseNamed (ae_Net ae)) (ae_Originals ae) pod))"
  shows "pod_credentials ae img pods errs st = (Inl errs, st)"
  using assms by (induction pods) auto

text \<open>
  The credentials of a check come from the pods of the resource being reconciled: when
  none of them that has pull secrets runs the image and no fallback is set, the image is
  checked anonymously, whatever secrets the pods of the candidate's own resource have.
\<close>

theorem credentials_of_reconciled_resource_only:
  assumes "\<forall>pod\<in>set pods. pod_ImagePullSecrets pod = [] \<or>
      img \<notin> set (keys (normalizedImageNamesMapFromAnnotatedPod (env_ParseNamed (ae_Net ae)) (ae_Originals ae) pod))"
  shows "resolveCredentials ae img None pods st = (Inr [], st)"
  using no_pod_credentials [OF assms, of "[]"] by (simp add: resolveCredentials_def)

theorem credentials_of_reconciled_resource_only_witness:
  "resolveCredentials (example_monitor [] [] 10 defaultConfig) ''r/a'' None [example_running ''r/b'' [''s'']] (idle [])
     = (Inr [], idle [])"
proof (rule credentials_of_reconciled_resource_only)
  have "keys (normalizedImageNamesMapFromAnnotatedPod example_parse (\<lambda>_. []) (example_running ''r/b'' [''s''])) = [''r/b'']"
    by code_simp
  then show "\<forall>pod\<in>set [example_running ''r/b'' [''s'']]. pod_ImagePullSecrets pod = [] \<or>
      ''r/a'' \<notin> set (keys (normalizedImageNamesMapFromAnnotatedPod
        (env_ParseNamed (ae_Net (example_monitor [] [] 10 defaultConfig)))
        (ae_Originals (example_monitor [] [] 10 defaultConfig)) pod))"
    by (simp add: example_monitor_def)
qed

text \<open>
  A registry whose merged configuration allows zero checks per interval makes the
  controller panic with a division by zero; nothing in the configuration's validation
  excludes it.
\<close>

theorem zero_max_per_interval_panics:
  assumes "rm_MaxPerInterval (registryConfig (ae_Config ae) reg) = 0"
  shows "checkNextForRegistry ae cand reg pods st = (Inl (EPanic ''integer divide by zero''), st)"
  using assms by (simp add: checkNextForRegistry_def tick_duration_def Let_def)

theorem zero_max_per_interval_panics_witness:
  "checkNextForRegistry (example_monitor [] [] 10 (defaultConfig\<lparr>cfg_Default := (cfg_Default defaultConfig)\<lparr>rm_MaxPerInterval := 0\<rparr>\<rparr>))
     zero_candidate ''r'' [] (idle []) = (Inl (EPanic ''integer divide by zero''), idle [])"
  by (rule zero_max_per_interval_panics)
    (simp add: example_monitor_def registryConfig_def defaultConfig_def Let_def)

section \<open>The backfill\<close>

lemma backfill_names_step:
  "foldl (\<lambda>m (img, original). if img \<in> needs then m(img := m img \<or> original) else m) m ns img
     \<longleftrightarrow> m img \<or> img \<in> needs \<and> (img, True) \<in> set ns"
proof (induction ns arbitrary: m)
  case Nil
  then show ?case by simp
next
  case (Cons n ns)
  obtain a b where "n = (a, b)" by fastforce
  then show ?case by (simp only: foldl_Cons prod.case Cons.IH) auto
qed

lemma backfill_names_Cons:
  "backfill_names parse originals needs (pod # pods) m0 =
     backfill_names parse originals needs pods
       (foldl (\<lambda>m (img, original). if img \<in> needs then m(img := m img \<or> original) else m) m0
          (normalizedImageNamesMapFromAnnotatedPod parse originals pod))"
  by (simp add: backfill_names_def)

lemma backfill_names_spec:
  "backfill_names parse originals needs pods m0 img \<longleftrightarrow>
     m0 img \<or> img \<in> needs \<and> (\<exists>pod\<in>set pods. (img, True) \<in> set (normalizedImageNamesMapFromAnnotatedPod parse originals pod))"
proof (induction pods arbitrary: m0)
  case Nil
  then show ?case by (simp add: backfill_names_def)
next
  case (Cons pod pods)
  show ?case unfolding backfill_names_Cons Cons backfill_names_step by auto
qed

text \<open>
  The backfill marks exactly the monitored images that some pod remembers as original,
  keeps every other field, the order and the marks already set, and patches a resource exactly
  when it changed.
\<close>

theorem backfill_marks_originals:
  "backfill_cisa parse originals pods c =
     (c\<lparr>cisa_Images := map (\<lambda>i. i\<lparr>mon_Original := mon_Original i \<or>
          (\<exists>pod\<in>set pods. (mon_Image i, True) \<in> set (normalizedImageNamesMapFromAnnotatedPod parse originals pod))\<rparr>)
          (cisa_Images c)\<rparr>,
      \<exists>i\<in>set (cisa_Images c). \<not> mon_Original i \<and>
          (\<exists>pod\<in>set pods. (mon_Image i, True) \<in> set (normalizedImageNamesMapFromAnnotatedPod parse originals pod)))"
proof (cases "\<forall>i\<in>set (cisa_Images c). mon_Original i")
  case True
  then have "map (\<lambda>i. i\<lparr>mon_Original := mon_Original i \<or> Q i\<rparr>) (cisa_Images c) = cisa_Images c" for Q
    by (intro map_idI) auto
  with True show ?thesis by (auto simp: backfill_cisa_def)
next
  case False
  let ?needs = "mon_Image ` set (filter (\<lambda>i. \<not> mon_Original i) (cisa_Images c))"
  let ?Q = "\<lambda>i. \<exists>pod\<in>set pods. (mon_Image i, True) \<in> set (normalizedImageNamesMapFromAnnotatedPod parse originals pod)"
  let ?cur = "backfill_names parse originals ?needs pods (\<lambda>_. False)"
  have cur: "?cur (mon_Image i) \<longleftrightarrow> ?Q i" if "i \<in> set (cisa_Images c)" "\<not> mon_Original i" for i
    using that by (auto simp: backfill_names_spec)
  have "map (backfill_image ?cur) (cisa_Images c)
      = map (\<lambda>i. i\<lparr>mon_Original := mon_Original i \<or> ?Q i\<rparr>) (cisa_Images c)"
  proof (rule map_cong [OF refl])
    fix i assume i: "i \<in> set (cisa_Images c)"
    show "backfill_image ?cur i = i\<lparr>mon_Original := mon_Original i \<or> ?Q i\<rparr>"
    proof (cases "mon_Original i")
      case True
      then show ?thesis by (cases i) (simp add: backfill_image_def)
    next
      case False
      with cur [OF i False] show ?thesis by (cases "?Q i"; cases i) (simp_all add: backfill_image_def)
    qed
  qed
  moreover have "list_ex (\<lambda>i. \<not> mon_Original i \<and> ?cur (mon_Image i)) (cisa_Images c)
      \<longleftrightarrow> (\<exists>i\<in>set (cisa_Images c). \<not> mon_Original i \<and> ?Q i)"
    using cur by (auto simp: list_ex_iff)
  moreover have "?needs \<noteq> {}" using False by auto
  ultimately show ?thesis by (simp add: backfill_cisa_def Let_def del: set_filter)
qed

section \<open>The reconcile loop\<close>

text \<open>The images checked, in order.\<close>

fun checked :: "AvEvent list \<Rightarrow> string list" where
  "checked [] = []"
| "checked (AvCheck img # evs) = img # checked evs"
| "checked (_ # evs) = checked evs"

lemma checked_append [simp]: "checked (xs @ ys) = checked xs @ checked ys"
  by (induction xs rule: checked.induct) simp_all

lemma av_log_checked [simp]:
  "checked (av_events (av_log ev st)) = checked (av_events st) @ checked [ev]"
  by (simp add: av_log_def)

lemma av_read_secrets_checked [simp]:
  "checked (av_events (snd (av_read_secrets ae ns names st))) = checked (av_events st)"
proof (induction names arbitrary: st)
  case Nil
  then show ?case by simp
next
  case (Cons name names)
  show ?case
    using Cons [of "av_log (AvGetSecret ns name) st"]
    by (auto simp: av_get_secret_def and_then_def split: sum.splits prod.splits)
qed

lemma pod_credentials_checked [simp]:
  "checked (av_events (snd (pod_credentials ae img pods errs st))) = checked (av_events st)"
proof (induction pods arbitrary: errs st)
  case Nil
  then show ?case by simp
next
  case (Cons pod pods)
  have "checked (av_events s) = checked (av_events st)"
    if "av_read_secrets ae (pod_Namespace pod) (pod_ImagePullSecrets pod) st = (r, s)" for r s
    using av_read_secrets_checked [of ae "pod_Namespace pod" "pod_ImagePullSecrets pod" st] that by simp
  with Cons show ?case by (auto split: prod.split sum.split)
qed

lemma resolveCredentials_checked [simp]:
  "checked (av_events (snd (resolveCredentials ae img fallback pods st))) = checked (av_events st)"
proof -
  have "checked (av_events s) = checked (av_events st)" if "pod_credentials ae img pods [] st = (r, s)" for r s
    using pod_credentials_checked [of ae img pods "[]" st] that by simp
  then show ?thesis by (auto simp: resolveCredentials_def av_get_secret_def split: prod.split sum.split option.split)
qed

lemma performCheck_checked:
  "checked (av_events (snd (performCheck ae img rc pods st))) = checked (av_events st) @ [mon_Image img]"
proof -
  have "checked (av_events s) = checked (av_events st)"
    if "resolveCredentials ae (mon_Image img) (rm_FallbackCredentialSecret rc) pods st = (r, s)" for r s
    using resolveCredentials_checked [of ae "mon_Image img" _ pods st] that by (metis snd_conv)
  then show ?thesis by (auto simp: performCheck_def Let_def av_log_def split: prod.split sum.split)
qed

lemma findMonitoredImage_name:
  "findMonitoredImage imgs name = Some j \<Longrightarrow> j < length imgs \<and> mon_Image (imgs ! j) = name"
  by (induction imgs arbitrary: j) (auto split: if_splits)

lemma checkNextForRegistry_checked:
  "checked (av_events (snd (checkNextForRegistry ae cand reg pods st)))
     \<in> {checked (av_events st), checked (av_events st) @ [mc_imageName cand]}"
proof -
  let ?imgs = "cisa_Images (av_cisas st ! mc_cisa cand)" and ?rc = "registryConfig (ae_Config ae) reg"
  have "checked (av_events s) = checked (av_events st) @ [mc_imageName cand]"
    if "findMonitoredImage ?imgs (mc_imageName cand) = Some j"
      and "performCheck ae (?imgs ! j) ?rc pods st = (r, s)" for j r s
    using performCheck_checked [of ae "?imgs ! j" ?rc pods st] findMonitoredImage_name [OF that(1)] that(2) by simp
  then show ?thesis
    by (auto simp: checkNextForRegistry_def Let_def and_then_def av_log_def split: sum.split option.split prod.split)
qed

lemma check_all_checked:
  "\<exists>names. checked (av_events (snd (check_all ae cands pods d st))) = checked (av_events st) @ names
     \<and> subseq names (map (\<lambda>(reg, c). mc_imageName c) cands)"
proof (induction cands arbitrary: d st)
  case Nil
  then show ?case by simp
next
  case (Cons rc cands)
  obtain reg c where rc: "rc = (reg, c)" by fastforce
  obtain r s where n: "checkNextForRegistry ae c reg pods st = (r, s)" by fastforce
  with checkNextForRegistry_checked [of ae c reg pods st] obtain first where
    first: "checked (av_events s) = checked (av_events st) @ first" "first = [] \<or> first = [mc_imageName c]" by auto
  show ?case
  proof (cases r)
    case (Inl e)
    with first show ?thesis by (auto simp: rc n)
  next
    case (Inr d')
    obtain names where "checked (av_events (snd (check_all ae cands pods
        (if d' > 0 then min d d' else d) s))) = checked (av_events s) @ names"
      "subseq names (map (\<lambda>(reg, c). mc_imageName c) cands)" using Cons by blast
    with first Inr show ?thesis by (auto simp: rc n intro: exI [of _ "first @ names"])
  qed
qed

lemma candidates_distinct:
  "add_candidates parse i imgs m = Inr m' \<Longrightarrow> distinct (keys m) \<Longrightarrow> distinct (keys m')"
  by (induction imgs arbitrary: m) (auto simp: distinct_keys_update split: sum.splits if_splits prod.splits)

lemma candidates_from_distinct:
  "candidates_from rx sel parse i cs m = Inr m' \<Longrightarrow> distinct (keys m) \<Longrightarrow> distinct (keys m')"
  by (induction cs arbitrary: i m) (auto simp: candidates_distinct split: sum.splits if_splits)

lemma registry_images_registry:
  "(j, img) \<in> set (registry_images rx sel parse reg i cs) \<Longrightarrow> registry_of parse (mon_Image img) = Some reg"
  by (induction cs arbitrary: i) (auto split: if_splits)

lemma candidate_registry:
  assumes "monitoringCandidatesByRegistry rx sel parse cisas = Inr m" and "map_of m reg = Some c"
  shows "registry_of parse (mc_imageName c) = Some reg"
proof -
  have "is_candidate c (registry_images rx sel parse reg 0 cisas)" using candidate_spec [OF assms(1), of reg] assms(2) by simp
  then show ?thesis by (auto simp: is_candidate_def dest: registry_images_registry)
qed

lemma keys_lookup: "k \<in> set (keys m) \<Longrightarrow> \<exists>v. map_of m k = Some v"
  by (induction m) auto

lemma subseq_distinct: "subseq xs ys \<Longrightarrow> distinct ys \<Longrightarrow> distinct xs"
  by (induction rule: list_emb.induct) (auto dest: list_emb_set)

lemma monitor_checked:
  assumes "range_order (ae_Order ae)" and "checked (av_events st) = []"
  shows "distinct (map (registry_of (env_ParseNamed (ae_Net ae))) (checked (av_events (snd (monitor ae cisa pods st)))))"
proof (cases "ae_ListCisas ae (av_events st)")
  case (Inl e)
  with assms show ?thesis by (simp add: monitor_def)
next
  case (Inr cisas)
  let ?parse = "env_ParseNamed (ae_Net ae)"
  let ?st1 = "(av_log AvListCisas st)\<lparr>av_cisas := cisas\<rparr>"
  show ?thesis
  proof (cases "monitoringCandidatesByRegistry (ae_rx ae) (ae_sel ae) ?parse cisas")
    case (Inl e)
    with Inr assms show ?thesis by (simp add: monitor_def av_log_def)
  next
    case m: (Inr m)
    let ?cands = "map (\<lambda>k. (k, the (map_of m k))) (ae_Order ae (keys m))"
    obtain names where n: "checked (av_events (snd (check_all ae ?cands pods max_dur ?st1))) = checked (av_events ?st1) @ names"
      "subseq names (map (\<lambda>(reg, c). mc_imageName c) ?cands)" using check_all_checked by blast
    have "distinct (keys m)"
      using m candidates_from_distinct [of "ae_rx ae" "ae_sel ae" ?parse 0 cisas "[]" m]
      by (simp add: monitoringCandidatesByRegistry_def)
    then have d: "distinct (ae_Order ae (keys m))" using range_order_distinct [OF assms(1)] by blast
    have "registry_of ?parse (mc_imageName (the (map_of m k))) = Some k" if "k \<in> set (ae_Order ae (keys m))" for k
      using that range_order_set [OF assms(1)] keys_lookup [of k m] candidate_registry [OF m] by fastforce
    then have "map (registry_of ?parse) (map (\<lambda>(reg, c). mc_imageName c) ?cands) = map Some (ae_Order ae (keys m))" by simp
    with subseq_map [OF n(2), of "registry_of ?parse"]
    have "subseq (map (registry_of ?parse) names) (map Some (ae_Order ae (keys m)))" by (simp only:)
    moreover have "distinct (map Some (ae_Order ae (keys m)))" using d by (simp add: distinct_map)
    ultimately have "distinct (map (registry_of ?parse) names)" by (rule subseq_distinct)
    moreover have "checked (av_events (snd (monitor ae cisa pods st))) = names"
      using Inr m n(1) assms(2) by (auto simp: monitor_def Let_def and_then_def av_log_def split: sum.split prod.split)
    ultimately show ?thesis by simp
  qed
qed

lemma sync_status_checked [simp]:
  "checked (av_events (snd (sync_status ae original pods st))) = checked (av_events st)"
  by (auto simp: sync_status_def Let_def split: prod.split)

text \<open>
  C22. A reconcile checks at most one image of each registry, whatever the number of resources
  and images and whether it succeeds or fails.
\<close>

theorem one_check_per_registry:
  assumes "range_order (ae_Order ae)" and "av_events st = []"
  shows "distinct (map (registry_of (env_ParseNamed (ae_Net ae))) (checked (av_events (snd (CISA_Reconcile ae st)))))"
proof -
  have step: "distinct (map (registry_of (env_ParseNamed (ae_Net ae)))
      (checked (av_events (snd (and_then (sync_status ae original pods s) (\<lambda>cisa st3. monitor ae cisa pods st3))))))"
    if "checked (av_events s) = []" for original pods s
  proof (cases "sync_status ae original pods s")
    case (Pair r s')
    then have "checked (av_events s') = []" using sync_status_checked [of ae original pods s] that by simp
    with Pair show ?thesis by (cases r) (simp_all add: monitor_checked [OF assms(1)])
  qed
  have s: "checked (av_events (av_log AvListPods (av_log AvGet st))) = []" using assms(2) by simp
  show ?thesis
    using assms(2) by (auto simp: CISA_Reconcile_def Let_def step split: sum.split)
qed

lemma check_all_positive:
  "check_all ae cands pods d st = (Inr d', st') \<Longrightarrow> 0 < d \<Longrightarrow> 0 < d' \<and> d' \<le> d"
proof (induction cands arbitrary: d st)
  case Nil
  then show ?case by simp
next
  case (Cons rc cands)
  obtain reg c where rc: "rc = (reg, c)" by fastforce
  from Cons.prems(1) obtain w s where "checkNextForRegistry ae c reg pods st = (Inr w, s)"
    "check_all ae cands pods (if w > 0 then min d w else d) s = (Inr d', st')"
    by (auto simp: rc elim: and_then_InrE)
  with Cons.IH [OF this(2)] Cons.prems(2) show ?case by (auto split: if_splits)
qed

text \<open>
  Monitoring does not stop: once the candidates have been gone through without an error,
  the controller asks to be run again after a positive time, or at once when it found nothing
  to wait for although the resource lists images; it is not run again by itself only when the
  list is empty.
\<close>

theorem monitoring_never_stops:
  assumes "monitor ae cisa pods st = (Inr r, st')"
  shows "case r of Forget \<Rightarrow> cisa_Images cisa = [] | Requeue \<Rightarrow> cisa_Images cisa \<noteq> [] | RequeueAfter d \<Rightarrow> 0 < d \<and> d < max_dur"
proof -
  from assms obtain cands d s1 s2 where
    "check_all ae cands pods max_dur s1 = (Inr d, s2)" and r: "r = cisa_result d (cisa_Images cisa)"
    by (auto simp: monitor_def Let_def split: sum.splits elim!: and_then_InrE)
  then have "0 < d \<and> d \<le> max_dur" using check_all_positive [of ae cands pods max_dur s1 d s2] by (simp add: max_dur_def)
  with r show ?thesis by (auto simp: cisa_result_def)
qed

theorem one_check_per_registry_witness:
  "map (registry_of example_parse) (checked (av_events (snd (CISA_Reconcile
      (example_monitor [example_cisa [''.*''] [example_monitored ''r/a'' None, example_monitored ''r/b'' None,
         example_monitored ''q/c'' None]] [] (9 * hour) defaultConfig) (idle []))))) = [Some ''q'', Some ''r'']
   \<and> distinct [Some ''q'', Some ''r'']"
  (is "map _ (checked (av_events (snd (CISA_Reconcile ?ae _)))) = _ \<and> _")
proof -
  have d: "distinct (map (registry_of (env_ParseNamed (ae_Net ?ae))) (checked (av_events (snd (CISA_Reconcile ?ae (idle []))))))"
    by (rule one_check_per_registry) (simp_all add: example_monitor_def idle_def)
  have "checked (av_events (snd (CISA_Reconcile ?ae (idle [])))) = [''q/c'', ''r/b'']" by code_simp
  moreover have "registry_of example_parse ''q/c'' = Some ''q''" "registry_of example_parse ''r/b'' = Some ''r''" by code_simp+
  ultimately have m: "map (registry_of example_parse) (checked (av_events (snd (CISA_Reconcile ?ae (idle [])))))
      = [Some ''q'', Some ''r'']" by simp
  moreover have "env_ParseNamed (ae_Net ?ae) = example_parse" by (simp add: example_monitor_def)
  ultimately show ?thesis using d by (simp only:)
qed

theorem monitoring_never_stops_witness:
  "\<exists>st'. monitor (example_monitor [example_cisa [''r/a''] [example_monitored ''r/a'' (Some 9)]] [] 10 defaultConfig)
      (example_cisa [''r/a''] [example_monitored ''r/a'' (Some 9)]) [] (idle [])
     = (Inr (RequeueAfter (3 * hour div 25 - 1)), st')"
  (is "\<exists>st'. monitor ?ae ?c [] ?st = _")
proof -
  have "fst (monitor ?ae ?c [] ?st) = Inr (RequeueAfter 431999999999)" by code_simp
  then obtain st' where m: "monitor ?ae ?c [] ?st = (Inr (RequeueAfter 431999999999), st')"
    by (cases "monitor ?ae ?c [] ?st") simp
  from monitoring_never_stops [OF m] have "0 < (431999999999 :: int)" by simp
  with m show ?thesis by (auto simp: hour_def)
qed

end
