(* ===== verification/AvailabilityInvariant.thy ===== *)
theory AvailabilityInvariant
  imports AvailabilityStatus
begin

text \<open>
  The type invariant of the status of a \<open>ClusterImageSetAvailability\<close>: every status the
  monitor writes, on any path through the reconcile loop, lists each image once and counts
  its images.
\<close>

definition wf_cisa :: "ClusterImageSetAvailability \<Rightarrow> bool" where
  "wf_cisa c \<longleftrightarrow> distinct (map mon_Image (cisa_Images c)) \<and> cisa_ImageCount c = int (length (cisa_Images c))"

text \<open>What the API server serves: well-formed objects, as long as well-formed ones are written.\<close>

definition serves_wf_cisas :: "AvEnv \<Rightarrow> bool" where
  "serves_wf_cisas ae \<longleftrightarrow>
     (\<forall>evs c. ae_Get ae evs = Inr c \<longrightarrow> wf_cisa c)
     \<and> (\<forall>evs cs. ae_ListCisas ae evs = Inr cs \<longrightarrow> (\<forall>c\<in>set cs. wf_cisa c))
     \<and> (\<forall>evs old new c. ae_Patch ae evs old new = Inr c \<longrightarrow> wf_cisa new \<longrightarrow> wf_cisa c)"

section \<open>The synchronisation\<close>

lemma remove_expired_names:
  "distinct (map mon_Image imgs) \<Longrightarrow> distinct (map mon_Image (fst (remove_expired later expiry imgs)))"
  by (simp add: remove_expired_def distinct_map_filter)

lemma sync_images_distinct:
  assumes "distinct (map mon_Image imgs)" and "distinct (keys current)" and "range_order ord"
  shows "distinct (map mon_Image (fst (sync_images now later expiry match ord current imgs)))"
proof -
  let ?up = "map fst (map (sync_unused now match (set (keys current))) imgs)"
  obtain kept removed where k: "remove_expired later expiry ?up = (kept, removed)" by fastforce
  have "map mon_Image ?up = map mon_Image imgs" by (simp add: comp_def)
  with assms(1) have "distinct (map mon_Image ?up)" by (simp only:)
  from remove_expired_names [OF this, of later expiry] have kept: "distinct (map mon_Image kept)"
    unfolding k by simp
  let ?fresh = "filter (\<lambda>x. x \<notin> mon_Image ` set kept) (ord (keys current))"
  have "distinct ?fresh" using assms(2) range_order_distinct [OF assms(3)] by simp
  moreover have "fst (sync_images now later expiry match ord current imgs)
      = kept @ map (\<lambda>x. new_monitored (x, the (map_of current x))) ?fresh"
    using k by (simp add: sync_images_def del: map_map)
  ultimately show ?thesis using kept by (auto simp: new_monitored_def comp_def)
qed

lemma syncImageList_wf:
  assumes "wf_cisa c" and "range_order ord"
  shows "wf_cisa (fst (syncImageList rx parse originals ord now later c pods))"
proof (cases "CISA_ImageFilter rx c")
  case (Inl e)
  with assms show ?thesis by (simp add: syncImageList_def)
next
  case (Inr match)
  obtain imgs ch where s: "sync_images now later (cisa_UnusedImageExpiry c) match ord
      (current_images parse originals match pods) (cisa_Images c) = (imgs, ch)" by fastforce
  have "distinct (map mon_Image imgs)"
    using sync_images_distinct [OF _ distinct_current_images assms(2)] assms(1) s
    by (metis fst_conv wf_cisa_def)
  with Inr s show ?thesis by (simp add: syncImageList_def wf_cisa_def)
qed

section \<open>The checks\<close>

lemma performCheck_name:
  "performCheck ae img rc pods st = (Inr img', st') \<Longrightarrow> mon_Image img' = mon_Image img"
  by (auto simp: performCheck_def Let_def record_check_def split: prod.splits sum.splits if_splits)

lemma wf_cisa_check:
  assumes "wf_cisa c" and "mon_Image img = mon_Image (cisa_Images c ! j)" and "j < length (cisa_Images c)"
  shows "wf_cisa (c\<lparr>cisa_Images := (cisa_Images c)[j := img]\<rparr>)"
proof -
  have "map mon_Image ((cisa_Images c)[j := img]) = map mon_Image (cisa_Images c)"
    using assms(2,3) by (simp add: map_update list_update_same_conv)
  with assms(1) show ?thesis by (simp add: wf_cisa_def)
qed

fun patches_wf :: "AvEvent \<Rightarrow> bool" where
  "patches_wf (AvPatch old new) = wf_cisa new"
| "patches_wf _ = True"

definition av_inv :: "nat \<Rightarrow> AvState \<Rightarrow> bool" where
  "av_inv n st \<longleftrightarrow> length (av_cisas st) = n \<and> (\<forall>c\<in>set (av_cisas st). wf_cisa c) \<and> list_all patches_wf (av_events st)"

lemma av_inv_log: "av_inv n st \<Longrightarrow> patches_wf e \<Longrightarrow> av_inv n (av_log e st)"
  by (simp add: av_inv_def av_log_def)

lemma av_inv_sent [simp]: "av_inv n (st\<lparr>av_sent := s\<rparr>) = av_inv n st"
  by (simp add: av_inv_def)

lemma av_inv_update: "av_inv n st \<Longrightarrow> wf_cisa c \<Longrightarrow> av_inv n (st\<lparr>av_cisas := (av_cisas st)[i := c]\<rparr>)"
  by (auto simp: av_inv_def dest: set_update_subset_insert [THEN subsetD])

lemma av_read_secrets_inv: "av_inv n st \<Longrightarrow> av_inv n (snd (av_read_secrets ae ns names st))"
proof (induction names arbitrary: st)
  case Nil
  then show ?case by simp
next
  case (Cons name names)
  then have "av_inv n (av_log (AvGetSecret ns name) st)" by (simp add: av_inv_log)
  with Cons.IH [OF this] show ?case
    by (cases "ae_GetSecret ae (av_events st) ns name"; cases "av_read_secrets ae ns names (av_log (AvGetSecret ns name) st)")
      (auto simp: av_get_secret_def and_then_def split: sum.split)
qed

lemma pod_credentials_inv: "av_inv n st \<Longrightarrow> av_inv n (snd (pod_credentials ae img pods errs st))"
proof (induction pods arbitrary: errs st)
  case Nil
  then show ?case by simp
next
  case (Cons pod pods)
  have "av_inv n s" if "av_read_secrets ae (pod_Namespace pod) (pod_ImagePullSecrets pod) st = (r, s)" for r s
    using av_read_secrets_inv [OF Cons.prems, of ae "pod_Namespace pod" "pod_ImagePullSecrets pod"] that by simp
  with Cons show ?case by (auto split: prod.split sum.split)
qed

lemma resolveCredentials_inv: "av_inv n st \<Longrightarrow> av_inv n (snd (resolveCredentials ae img fallback pods st))"
  using pod_credentials_inv [of n st ae img pods "[]"]
  by (cases "pod_credentials ae img pods [] st")
    (auto simp: resolveCredentials_def av_get_secret_def av_inv_log split: sum.split option.split)

lemma performCheck_inv: "av_inv n st \<Longrightarrow> av_inv n (snd (performCheck ae img rc pods st))"
  using resolveCredentials_inv [of n st ae "mon_Image img" "rm_FallbackCredentialSecret rc" pods]
  by (cases "resolveCredentials ae (mon_Image img) (rm_FallbackCredentialSecret rc) pods st")
    (auto simp: performCheck_def Let_def av_inv_log split: prod.split sum.split)

lemma checkNextForRegistry_inv:
  assumes "av_inv n st" and "mc_cisa cand < n" and "serves_wf_cisas ae"
  shows "av_inv n (snd (checkNextForRegistry ae cand reg pods st))"
proof -
  let ?c = "av_cisas st ! mc_cisa cand" and ?rc = "registryConfig (ae_Config ae) reg"
  have c: "wf_cisa ?c" using assms(1,2) by (simp add: av_inv_def)
  have step: "av_inv n ((av_log (AvPatch ?c new) s)\<lparr>av_cisas := (av_cisas (av_log (AvPatch ?c new) s))[mc_cisa cand := new]\<rparr>)"
    "ae_Patch ae (av_events s) ?c new = Inr d \<Longrightarrow>
       av_inv n ((av_log (AvPatch ?c new) s)\<lparr>av_cisas := (av_cisas (av_log (AvPatch ?c new) s))[mc_cisa cand := d]\<rparr>)"
    if "findMonitoredImage (cisa_Images ?c) (mc_imageName cand) = Some j"
      and "performCheck ae (cisa_Images ?c ! j) ?rc pods st = (Inr img, s)"
      and "new = ?c\<lparr>cisa_Images := (cisa_Images ?c)[j := img]\<rparr>" for j img s new d
  proof -
    have new: "wf_cisa new"
      using wf_cisa_check [OF c performCheck_name [OF that(2)]] findMonitoredImage_name [OF that(1)] that(3) by simp
    have "av_inv n s" using performCheck_inv [OF assms(1), of ae "cisa_Images ?c ! j" ?rc pods] that(2) by simp
    then have log: "av_inv n (av_log (AvPatch ?c new) s)" using new by (simp add: av_inv_log)
    from av_inv_update [OF log new]
    show "av_inv n ((av_log (AvPatch ?c new) s)\<lparr>av_cisas := (av_cisas (av_log (AvPatch ?c new) s))[mc_cisa cand := new]\<rparr>)" .
    assume "ae_Patch ae (av_events s) ?c new = Inr d"
    then have "wf_cisa d" using assms(3) new by (auto simp: serves_wf_cisas_def)
    with av_inv_update [OF log]
    show "av_inv n ((av_log (AvPatch ?c new) s)\<lparr>av_cisas := (av_cisas (av_log (AvPatch ?c new) s))[mc_cisa cand := d]\<rparr>)" by blast
  qed
  have fail: "av_inv n s" if "performCheck ae img ?rc pods st = (r, s)" for img r s
    using performCheck_inv [OF assms(1), of ae img ?rc pods] that by simp
  show ?thesis
    using assms(1) step fail
    by (auto simp: checkNextForRegistry_def Let_def and_then_def split: sum.split option.split prod.split)
qed

lemma check_all_inv:
  assumes "serves_wf_cisas ae" and "\<forall>(reg, c)\<in>set cands. mc_cisa c < n" and "av_inv n st"
  shows "av_inv n (snd (check_all ae cands pods d st))"
  using assms(2,3)
proof (induction cands arbitrary: d st)
  case Nil
  then show ?case by simp
next
  case (Cons rc cands)
  obtain reg c where rc: "rc = (reg, c)" by fastforce
  obtain r s where n: "checkNextForRegistry ae c reg pods st = (r, s)" by fastforce
  with checkNextForRegistry_inv [OF Cons.prems(2) _ assms(1), of c reg pods] Cons.prems(1) rc have s: "av_inv n s" by simp
  show ?case
  proof (cases r)
    case (Inl e)
    with s show ?thesis by (simp add: rc n)
  next
    case (Inr w)
    with Cons.IH [OF _ s] Cons.prems(1) show ?thesis by (simp add: rc n)
  qed
qed

lemma registry_images_index:
  "(j, img) \<in> set (registry_images rx sel parse reg i cs) \<Longrightarrow> i \<le> j \<and> j < i + length cs"
proof (induction cs arbitrary: i)
  case (Cons c cs)
  from Cons.prems Cons.IH [of "Suc i"] show ?case by (auto split: if_splits)
qed simp

lemma candidate_index:
  assumes "monitoringCandidatesByRegistry rx sel parse cisas = Inr m" and "map_of m reg = Some c"
  shows "mc_cisa c < length cisas"
proof -
  have "is_candidate c (registry_images rx sel parse reg 0 cisas)" using candidate_spec [OF assms(1), of reg] assms(2) by simp
  then show ?thesis by (auto simp: is_candidate_def dest: registry_images_index)
qed

lemma monitor_wf:
  assumes "serves_wf_cisas ae" and "range_order (ae_Order ae)" and "list_all patches_wf (av_events st)"
  shows "list_all patches_wf (av_events (snd (monitor ae cisa pods st)))"
proof (cases "ae_ListCisas ae (av_events st)")
  case (Inl e)
  with assms(3) show ?thesis by (simp add: monitor_def av_log_def)
next
  case (Inr cisas)
  let ?st1 = "(av_log AvListCisas st)\<lparr>av_cisas := cisas\<rparr>"
  have st1: "av_inv (length cisas) ?st1"
    using assms(1,3) Inr by (auto simp: av_inv_def av_log_def serves_wf_cisas_def)
  show ?thesis
  proof (cases "monitoringCandidatesByRegistry (ae_rx ae) (ae_sel ae) (env_ParseNamed (ae_Net ae)) cisas")
    case (Inl e)
    with Inr st1 show ?thesis by (simp add: monitor_def av_inv_def)
  next
    case m: (Inr m)
    let ?cands = "map (\<lambda>k. (k, the (map_of m k))) (ae_Order ae (keys m))"
    have "\<forall>(reg, c)\<in>set ?cands. mc_cisa c < length cisas"
      using range_order_set [OF assms(2)] keys_lookup [of _ m] candidate_index [OF m] by fastforce
    from check_all_inv [OF assms(1) this st1]
    have "list_all patches_wf (av_events (snd (check_all ae ?cands pods max_dur ?st1)))" by (simp add: av_inv_def)
    with Inr m show ?thesis
      by (cases "check_all ae ?cands pods max_dur ?st1") (auto simp: monitor_def Let_def and_then_def split: sum.split)
  qed
qed

section \<open>The reconcile loop\<close>

lemma sync_status_wf:
  assumes "wf_cisa c" and "range_order (ae_Order ae)" and "list_all patches_wf (av_events st)"
  shows "list_all patches_wf (av_events (snd (sync_status ae c pods st)))"
proof -
  let ?now = "ae_Now ae (av_events st)"
  have "wf_cisa new" if "syncImageList (ae_rx ae) (env_ParseNamed (ae_Net ae)) (ae_Originals ae)
      (ae_Order ae) ?now ?now c pods = (new, ch)" for new ch
    using syncImageList_wf [OF assms(1,2)] that by (metis fst_conv)
  then show ?thesis
    using assms(3) by (auto simp: sync_status_def Let_def av_log_def split: prod.split)
qed

text \<open>
  C21. Every status the availability monitor writes is well formed: a reconcile that starts from
  well-formed objects patches only statuses that list each image once and whose count is the
  length of the list, for its own resource and for those of the candidates it checks.
\<close>

theorem written_status_well_formed:
  assumes "serves_wf_cisas ae" and "range_order (ae_Order ae)" and "av_events st = []"
    and "AvPatch old new \<in> set (av_events (snd (CISA_Reconcile ae st)))"
  shows "wf_cisa new"
proof -
  have step: "list_all patches_wf (av_events (snd (and_then (sync_status ae c pods s) (\<lambda>cisa st3. monitor ae cisa pods st3))))"
    if "wf_cisa c" and "list_all patches_wf (av_events s)" for c pods s
  proof (cases "sync_status ae c pods s")
    case (Pair r s')
    with sync_status_wf [OF that(1) assms(2) that(2), of pods] have "list_all patches_wf (av_events s')" by simp
    with Pair show ?thesis by (cases r) (simp_all add: monitor_wf [OF assms(1,2)])
  qed
  have wf: "wf_cisa c" if "ae_Get ae [] = Inr c" for c
    using assms(1) that by (auto simp: serves_wf_cisas_def)
  have logged: "list_all patches_wf (av_events (av_log AvListPods (av_log AvGet st)))" using assms(3) by (simp add: av_log_def)
  have "list_all patches_wf (av_events (snd (CISA_Reconcile ae st)))"
    using assms(3) by (auto simp: CISA_Reconcile_def Let_def step wf logged av_log_def split: sum.split)
  with assms(4) show ?thesis by (auto simp: list_all_iff)
qed

text \<open>A monitor of one well-formed resource: a pod runs an image that is not listed yet.\<close>

definition watching :: AvEnv where
  "watching = example_monitor [example_cisa [''.*''] [example_monitored ''r/a'' None]]
     [example_running ''r/b'' []] (9 * hour) defaultConfig"

definition synchronised :: ClusterImageSetAvailability where
  "synchronised = (example_cisa [''.*''] [(example_monitored ''r/a'' None)\<lparr>mon_UnusedSince := Some (9 * hour)\<rparr>,
     new_monitored (''r/b'', False)])"

theorem written_status_well_formed_witness:
  "AvPatch (example_cisa [''.*''] [example_monitored ''r/a'' None]) synchronised
      \<in> set (av_events (snd (CISA_Reconcile watching (idle []))))
   \<and> wf_cisa synchronised"
proof -
  let ?c = "example_cisa [''.*''] [example_monitored ''r/a'' None]"
  have wf: "wf_cisa ?c" by (simp add: wf_cisa_def example_cisa_def)
  have serves: "serves_wf_cisas watching"
    using wf by (auto simp: serves_wf_cisas_def watching_def example_monitor_def)
  have patch: "AvPatch ?c synchronised \<in> set (av_events (snd (CISA_Reconcile watching (idle []))))" by code_simp
  have "range_order (ae_Order watching)" "av_events (idle []) = []"
    by (simp_all add: watching_def example_monitor_def idle_def)
  from written_status_well_formed [OF serves this patch] patch show ?thesis by blast
qed

end
