(* ===== verification/AvailabilitySettles.thy ===== *)
theory AvailabilitySettles
  imports AvailabilityInvariant
begin

text \<open>
  The synchronisation of a \<open>ClusterImageSetAvailability\<close> with its pods comes to rest: run again
  on its own result, with the same pods, it changes nothing until an image expires, so that
  the reconcile loop has nothing left to write. Where the expiry is disabled it may not.
\<close>

section \<open>Images the synchronisation leaves alone\<close>

definition settled :: "(string \<Rightarrow> bool) \<Rightarrow> string set \<Rightarrow> MonitoredImage \<Rightarrow> bool" where
  "settled match current img \<longleftrightarrow>
     (if \<not> match (mon_Image img) then mon_UnusedSince img = Some instant_expiry
      else if mon_Image img \<in> current then mon_UnusedSince img = None
      else mon_Status img \<noteq> Scheduled \<and> mon_UnusedSince img \<noteq> None)"

lemma settled_unchanged: "settled match current img \<Longrightarrow> sync_unused now match current img = (img, False)"
  by (cases img) (auto simp: settled_def sync_unused_def split: if_splits)

lemma sync_unused_settles:
  assumes "\<not> image_expired later expiry (fst (sync_unused now match current img))"
    and "expiry \<le> time_sub later instant_expiry"
  shows "settled match current (fst (sync_unused now match current img))"
  using assms by (auto simp: settled_def sync_unused_def image_expired_def)

lemma new_monitored_settled: "match k \<Longrightarrow> k \<in> current \<Longrightarrow> settled match current (new_monitored (k, original))"
  by (simp add: settled_def new_monitored_def)

lemma sync_images_settled:
  assumes "range_order ord" and "\<forall>k\<in>set (keys current). match k" and "0 < expiry"
    and "expiry \<le> time_sub later instant_expiry" and "sync_images now later expiry match ord current imgs = (imgs', ch)"
  shows "(\<forall>i\<in>set imgs'. settled match (set (keys current)) i) \<and> set (keys current) \<subseteq> mon_Image ` set imgs'"
proof -
  let ?up = "map fst (map (sync_unused now match (set (keys current))) imgs)"
  let ?kept = "filter (\<lambda>i. \<not> image_expired later expiry i) ?up"
  let ?fresh = "filter (\<lambda>k. k \<notin> mon_Image ` set ?kept) (ord (keys current))"
  have imgs': "imgs' = ?kept @ map (\<lambda>k. new_monitored (k, the (map_of current k))) ?fresh"
    using assms(3,5) by (simp add: sync_images_def remove_expired_def Let_def del: map_map)
  have "settled match (set (keys current)) i" if "i \<in> set ?kept" for i
    using that sync_unused_settles [OF _ assms(4)] by auto
  moreover have "settled match (set (keys current)) (new_monitored (k, the (map_of current k)))" if "k \<in> set ?fresh" for k
    using that assms(2) range_order_set [OF assms(1)] by (intro new_monitored_settled) auto
  ultimately have "\<forall>i\<in>set imgs'. settled match (set (keys current)) i" unfolding imgs' by auto
  moreover have "k \<in> mon_Image ` set imgs'" if "k \<in> set (keys current)" for k
  proof (cases "k \<in> mon_Image ` set ?kept")
    case True
    then show ?thesis unfolding imgs' by (simp only: set_append image_Un) blast
  next
    case False
    then have "k \<in> set ?fresh" using that range_order_set [OF assms(1), of "keys current"] by simp
    then have "new_monitored (k, the (map_of current k)) \<in> set imgs'" unfolding imgs' by simp
    then show ?thesis by (force simp: new_monitored_def)
  qed
  ultimately show ?thesis by blast
qed

lemma settled_sync_images:
  assumes "range_order ord" and "\<forall>i\<in>set imgs. settled match (set (keys current)) i"
    and "set (keys current) \<subseteq> mon_Image ` set imgs" and "\<forall>i\<in>set imgs. \<not> image_expired later expiry i"
  shows "sync_images now later expiry match ord current imgs = (imgs, False)"
proof -
  have up: "map (sync_unused now match (set (keys current))) imgs = map (\<lambda>i. (i, False)) imgs"
    using assms(2) by (intro map_cong refl settled_unchanged) blast
  have "filter (\<lambda>i. \<not> image_expired later expiry i) imgs = imgs" using assms(4) by (simp add: filter_id_conv)
  moreover have "\<not> list_ex (\<lambda>i. image_expired later expiry i \<and> mon_UnusedSince i \<noteq> Some instant_expiry) imgs"
    using assms(4) by (auto simp: list_ex_iff)
  ultimately have "remove_expired later expiry imgs = (imgs, False)" by (simp add: remove_expired_def)
  moreover have "filter (\<lambda>k. k \<notin> mon_Image ` set imgs) (ord (keys current)) = []"
    using assms(3) range_order_set [OF assms(1), of "keys current"] by (auto simp: filter_empty_conv)
  ultimately show ?thesis
    by (simp add: sync_images_def up list_ex_iff comp_def)
qed

section \<open>The synchronisation comes to rest\<close>

lemma syncImageList_settles:
  assumes "syncImageList rx parse originals ord now later c pods = (c1, b)" and "range_order ord" and "range_order ord2"
    and "0 < cisa_UnusedImageExpiry c" and "cisa_UnusedImageExpiry c \<le> time_sub later instant_expiry"
    and "\<forall>i\<in>set (cisa_Images c1). \<not> image_expired later2 (cisa_UnusedImageExpiry c) i"
  shows "syncImageList rx parse originals ord2 now2 later2 c1 pods = (c1, False)"
proof (cases "CISA_ImageFilter rx c")
  case (Inl e)
  with assms(1) show ?thesis by (auto simp: syncImageList_def)
next
  case (Inr match)
  let ?current = "current_images parse originals match pods"
  obtain imgs' where s: "sync_images now later (cisa_UnusedImageExpiry c) match ord ?current (cisa_Images c) = (imgs', b)"
    and c1: "c1 = c\<lparr>cisa_Images := imgs', cisa_ImageCount := int (length imgs')\<rparr>"
    using assms(1) Inr by (auto simp: syncImageList_def split: prod.splits)
  have "\<forall>k\<in>set (keys ?current). match k" by (simp add: keys_current_images)
  from sync_images_settled [OF assms(2) this assms(4,5) s] have
    rest: "\<forall>i\<in>set imgs'. settled match (set (keys ?current)) i" "set (keys ?current) \<subseteq> mon_Image ` set imgs'" by blast+
  have filt: "CISA_ImageFilter rx c1 = Inr match" using Inr c1 by (simp add: CISA_ImageFilter_def)
  have "sync_images now2 later2 (cisa_UnusedImageExpiry c) match ord2 ?current imgs' = (imgs', False)"
    by (rule settled_sync_images [OF assms(3) rest]) (use assms(6) c1 in simp)
  then show ?thesis using filt unfolding syncImageList_def filt by (simp add: c1)
qed



text \<open>
  Without an expiry it need not settle: an image in scope that no pod uses and that was never
  checked gets the marker anew each time, so every reconcile reports a change and patches a
  status that stays the same.
\<close>

theorem unused_scheduled_always_changed:
  assumes "CISA_ImageFilter rx c = Inr match" and "cisa_UnusedImageExpiry c \<le> 0"
    and "i \<in> set (cisa_Images c)" and "match (mon_Image i)" and "mon_Image i \<notin> set (podsInUseImages parse originals pods)"
    and "mon_Status i = Scheduled"
  shows "\<exists>c1. syncImageList rx parse originals ord now later c pods = (c1, True)
    \<and> i\<lparr>mon_UnusedSince := Some instant_expiry\<rparr> \<in> set (cisa_Images c1)"
proof -
  let ?current = "current_images parse originals match pods"
  have u: "sync_unused now match (set (keys ?current)) i = (i\<lparr>mon_UnusedSince := Some instant_expiry\<rparr>, True)"
    using assms(4-6) by (simp add: sync_unused_def keys_current_images)
  let ?up = "map (sync_unused now match (set (keys ?current))) (cisa_Images c)"
  have "(i\<lparr>mon_UnusedSince := Some instant_expiry\<rparr>, True) \<in> set ?up" using assms(3) u by (metis image_eqI list.set_map)
  then have "list_ex snd ?up \<and> i\<lparr>mon_UnusedSince := Some instant_expiry\<rparr> \<in> set (map fst ?up)"
    unfolding list_ex_iff list.set_map by (intro conjI) (erule bexI [rotated], simp, metis fst_conv image_eqI)
  then show ?thesis
    using assms(1,2) by (simp add: syncImageList_def sync_images_def remove_expired_def Let_def del: map_map)
qed

theorem unused_scheduled_always_changed_witness:
  "\<exists>c1. syncImageList literal_rx example_parse (\<lambda>_. []) rev 9 9
       ((example_cisa [''.*''] [new_monitored (''r/a'', False)])\<lparr>cisa_UnusedImageExpiry := 0\<rparr>) [] = (c1, True)"
proof -
  let ?i = "new_monitored (''r/a'', False)"
  let ?c = "(example_cisa [''.*''] [?i])\<lparr>cisa_UnusedImageExpiry := 0\<rparr>"
  have "map_sum (\<lambda>e. e) (\<lambda>m. m ''r/a'') (CISA_ImageFilter literal_rx ?c) = Inr True" by code_simp
  then obtain match where f: "CISA_ImageFilter literal_rx ?c = Inr match" "match ''r/a''"
    by (cases "CISA_ImageFilter literal_rx ?c") auto
  have "cisa_UnusedImageExpiry ?c \<le> 0" "?i \<in> set (cisa_Images ?c)" "match (mon_Image ?i)"
    "mon_Image ?i \<notin> set (podsInUseImages example_parse (\<lambda>_. []) [])" "mon_Status ?i = Scheduled"
    using f(2) by (simp_all add: example_cisa_def new_monitored_def podsInUseImages_def)
  from unused_scheduled_always_changed [OF f(1) this] show ?thesis by blast
qed

end
