(* ===== verification/StaleStatus.thy ===== *)
theory StaleStatus
  imports Webhook
begin

text \<open>
  The clean-up of stale mirror statuses in \<open>pod_webhook.go\<close>: the semaphore that bounds the
  clean-ups in flight, as a step relation over tries and ends with its invariants by rule
  induction, and \<open>clearStaleMirrorStatus\<close> with the patches it sends. The last section
  relates the flattened cluster resources to the originals.
\<close>

section \<open>The semaphore\<close>

text \<open>
  The state is the list of clean-ups that hold a slot. A try either takes a slot and starts a
  goroutine or, with the channel full, is dropped; a goroutine ends at any time and frees its
  slot.
\<close>

datatype sem_event = Started AlternativeImage | Dropped AlternativeImage | Ended nat

inductive sem_step :: "nat \<Rightarrow> AlternativeImage list \<Rightarrow> sem_event \<Rightarrow> AlternativeImage list \<Rightarrow> bool"
  for cap :: nat where
  start: "length running < cap \<Longrightarrow> sem_step cap running (Started img) (running @ [img])"
| drop: "length running \<ge> cap \<Longrightarrow> sem_step cap running (Dropped img) running"
| finish: "i < length running \<Longrightarrow> sem_step cap running (Ended i) (take i running @ drop (Suc i) running)"

inductive sem_run :: "nat \<Rightarrow> AlternativeImage list \<Rightarrow> sem_event list \<Rightarrow> AlternativeImage list \<Rightarrow> bool"
  for cap :: nat where
  empty: "sem_run cap s [] s"
| step: "sem_run cap s tr s' \<Longrightarrow> sem_step cap s' e s'' \<Longrightarrow> sem_run cap s (tr @ [e]) s''"

inductive_cases sem_startE: "sem_step cap running (Started img) running'"
inductive_cases sem_dropE: "sem_step cap running (Dropped img) running'"
inductive_simps sem_drop_iff: "sem_step cap running (Dropped img) running'"
inductive_simps sem_start_iff: "sem_step cap running (Started img) running'"

fun is_start :: "sem_event \<Rightarrow> bool" where
  "is_start (Started _) = True"
| "is_start _ = False"

fun is_end :: "sem_event \<Rightarrow> bool" where
  "is_end (Ended _) = True"
| "is_end _ = False"

text \<open>A try is a function of the state: exactly one of the two outcomes is possible.\<close>

lemma try_deterministic:
  "(\<exists>s'. sem_step cap s (Started img) s') \<noteq> (\<exists>s'. sem_step cap s (Dropped img) s')"
  by (auto simp: sem_drop_iff sem_start_iff)

lemma sem_step_bound: "sem_step cap s e s' \<Longrightarrow> length s \<le> cap \<Longrightarrow> length s' \<le> cap"
  by (induction rule: sem_step.induct) auto

lemma sem_step_count:
  "sem_step cap s e s' \<Longrightarrow>
     length s' + (if is_end e then 1 else 0) = length s + (if is_start e then 1 else 0)"
  by (induction rule: sem_step.induct) auto

lemma sem_run_inv:
  assumes "sem_run cap s tr s'" and "length s \<le> cap"
  shows "length s' \<le> cap \<and> length s' + length (filter is_end tr) = length s + length (filter is_start tr)"
  using assms
proof (induction rule: sem_run.induct)
  case (empty s)
  then show ?case by simp
next
  case (step s tr s' e s'')
  then show ?case using sem_step_bound [OF step.hyps(2)] sem_step_count [OF step.hyps(2)]
    by (auto split: if_splits)
qed



text \<open>
  The admission's own \<open>tryCleanupStaleMirrorStatus\<close> refines the semaphore: from any
  state, what it does to the clean-ups in flight is a start or a drop of the relation.
\<close>

theorem try_cleanup_refines_semaphore:
  assumes "int cap = smc_MaxConcurrent (act_StaleMirrorCleanup (rt_ActiveCheck (cfg_Routing cfg)))"
  shows "\<exists>e. \<not> is_end e \<and> sem_step cap (ws_cleanups st) e (ws_cleanups (tryCleanupStaleMirrorStatus cfg img st))"
proof (cases "length (ws_cleanups st) < cap")
  case True
  with assms show ?thesis
    by (intro exI [of _ "Started img"]) (auto simp: tryCleanupStaleMirrorStatus_def sem_start_iff)
next
  case False
  with assms show ?thesis
    by (intro exI [of _ "Dropped img"]) (auto simp: tryCleanupStaleMirrorStatus_def sem_drop_iff)
qed

theorem try_cleanup_refines_semaphore_witness:
  "\<exists>e. \<not> is_end e \<and> sem_step 10 (ws_cleanups fresh_webhook) e
     (ws_cleanups (tryCleanupStaleMirrorStatus defaultConfig (example_image ''a'') fresh_webhook))"
  by (rule try_cleanup_refines_semaphore) (simp add: defaultConfig_def)

section \<open>Clearing a stale status\<close>

text \<open>The server-side apply patch of \<open>patchMirror\<close>; \<open>None\<close> leaves \<open>mirroredAt\<close> out.\<close>

record StatusPatch =
  sp_Kind :: string
  sp_Name :: string
  sp_Namespace :: string
  sp_MatchingImage :: string
  sp_MirrorImage :: string
  sp_MirroredAt :: "int option"

definition patchMirror :: "ImageSetMirror \<Rightarrow> string \<Rightarrow> string \<Rightarrow> int option \<Rightarrow> StatusPatch" where
  "patchMirror ism matchingImage img mirroredAt =
     \<lparr>sp_Kind = (if om_Namespace (ism_Meta ism) = [] then ''ClusterImageSetMirror'' else ''ImageSetMirror''),
      sp_Name = om_Name (ism_Meta ism), sp_Namespace = om_Namespace (ism_Meta ism),
      sp_MatchingImage = matchingImage, sp_MirrorImage = img, sp_MirroredAt = mirroredAt\<rparr>"

text \<open>
  The two nested loops, over the pairs of a matching image and one of its mirrors. The API
  server's answer to a patch may depend on the patches sent before.
\<close>

fun clear_loop ::
  "(StatusPatch list \<Rightarrow> StatusPatch \<Rightarrow> error option) \<Rightarrow> int \<Rightarrow> ImageSetMirror \<Rightarrow> string \<Rightarrow>
     (string \<times> MirrorStatus) list \<Rightarrow> StatusPatch list \<Rightarrow> StatusPatch list" where
  "clear_loop patch now ism img [] sent = sent"
| "clear_loop patch now ism img ((matchingImage, mirror) # rest) sent =
     (if ms_Image mirror \<noteq> img \<or> ms_MirroredAt mirror = None
      then clear_loop patch now ism img rest sent
      else
        (let take_over = patchMirror ism matchingImage img (Some now);
             remove = patchMirror ism matchingImage img None
         in if patch sent take_over \<noteq> None
            then clear_loop patch now ism img rest (sent @ [take_over])
            else clear_loop patch now ism img rest (sent @ [take_over, remove])))"

definition status_entries :: "ImageSetMirror \<Rightarrow> (string \<times> MirrorStatus) list" where
  "status_entries ism =
     concat (map (\<lambda>m. map (\<lambda>s. (mat_Image m, s)) (mat_Mirrors m)) (ism_MatchingImages ism))"

definition clearStaleMirrorStatus ::
  "(StatusPatch list \<Rightarrow> StatusPatch \<Rightarrow> error option) \<Rightarrow> int \<Rightarrow> AlternativeImage \<Rightarrow> StatusPatch list" where
  "clearStaleMirrorStatus patch now img =
     (case alt_SecretOwner img of
        Some (OwnerISM ism) \<Rightarrow> clear_loop patch now ism (alt_Reference img) (status_entries ism) []
      | _ \<Rightarrow> [])"

definition stale_entry :: "string \<Rightarrow> string \<times> MirrorStatus \<Rightarrow> bool" where
  "stale_entry img e \<longleftrightarrow> ms_Image (snd e) = img \<and> ms_MirroredAt (snd e) \<noteq> None"

lemma clear_loop_ok:
  assumes "\<And>h p. patch h p = None"
  shows "clear_loop patch now ism img entries sent =
     sent @ concat (map (\<lambda>e. [patchMirror ism (fst e) img (Some now), patchMirror ism (fst e) img None])
       (filter (stale_entry img) entries))"
  using assms
  by (induction entries arbitrary: sent) (auto simp: stale_entry_def Let_def)

lemma clear_loop_only:
  "\<exists>new. clear_loop patch now ism img entries sent = sent @ new
     \<and> list_all (\<lambda>p. \<exists>e t. e \<in> set entries \<and> stale_entry img e \<and> p = patchMirror ism (fst e) img t) new"
proof (induction entries arbitrary: sent)
  case Nil
  then show ?case by simp
next
  case (Cons e entries)
  obtain mi m where e: "e = (mi, m)" by (cases e)
  let ?P = "\<lambda>es p. \<exists>e t. e \<in> set es \<and> stale_entry img e \<and> p = patchMirror ism (fst e) img t"
  have mono: "list_all (?P entries) new \<Longrightarrow> list_all (?P (e # entries)) new" for new
    by (simp only: list_all_iff list.set insert_iff) blast
  show ?case
  proof (cases "stale_entry img e")
    case False
    with Cons.IH [of sent] mono show ?thesis by (auto simp: e stale_entry_def)
  next
    case True
    let ?now = "patchMirror ism mi img (Some now)" and ?rm = "patchMirror ism mi img None"
    have own: "?P (e # entries) ?now" "?P (e # entries) ?rm" using True e by auto
    obtain y where y: "ms_MirroredAt m = Some y" "ms_Image m = img"
      using True by (auto simp: e stale_entry_def)
    show ?thesis
    proof (cases "patch sent ?now = None")
      case None: True
      obtain new where "clear_loop patch now ism img entries (sent @ [?now, ?rm]) = (sent @ [?now, ?rm]) @ new"
        "list_all (?P entries) new" using Cons.IH by blast
      then have "clear_loop patch now ism img (e # entries) sent = sent @ (?now # ?rm # new)"
        "list_all (?P (e # entries)) (?now # ?rm # new)"
        using None y mono [of new] own by (simp_all only: e) (simp_all add: Let_def)
      then show ?thesis by blast
    next
      case err: False
      obtain new where "clear_loop patch now ism img entries (sent @ [?now]) = (sent @ [?now]) @ new"
        "list_all (?P entries) new" using Cons.IH by blast
      then have "clear_loop patch now ism img (e # entries) sent = sent @ (?now # new)"
        "list_all (?P (e # entries)) (?now # new)"
        using err y mono [of new] own by (simp_all only: e) (simp_all add: Let_def)
      then show ?thesis by blast
    qed
  qed
qed

text \<open>
  A stale status is cleared and nothing else is touched: with an API server that accepts
  them, the patches are, for each status entry of the image that claims to be mirrored and in
  order, one that takes the field's ownership and one that drops it; whatever the server
  answers, no other entry and no other resource is ever patched.
\<close>

theorem stale_status_cleared_exactly:
  assumes "alt_SecretOwner img = Some (OwnerISM ism)"
  shows "list_all (\<lambda>p. \<exists>e t. e \<in> set (status_entries ism) \<and> stale_entry (alt_Reference img) e
             \<and> p = patchMirror ism (fst e) (alt_Reference img) t)
           (clearStaleMirrorStatus patch now img)
     \<and> clearStaleMirrorStatus (\<lambda>_ _. None) now img =
         concat (map (\<lambda>e. [patchMirror ism (fst e) (alt_Reference img) (Some now),
                            patchMirror ism (fst e) (alt_Reference img) None])
           (filter (stale_entry (alt_Reference img)) (status_entries ism)))"
  using assms clear_loop_only [of patch now ism "alt_Reference img" "status_entries ism" "[]"]
  by (auto simp: clearStaleMirrorStatus_def clear_loop_ok)

definition example_stale :: ImageSetMirror where
  "example_stale = (example_mirrors [] 0 ''m'')\<lparr>ism_MatchingImages :=
     [\<lparr>mat_Image = ''r/a'', mat_Mirrors =
         [\<lparr>ms_Image = ''m/a'', ms_MirroredAt = Some 3, ms_LastError = None\<rparr>,
          \<lparr>ms_Image = ''n/a'', ms_MirroredAt = Some 3, ms_LastError = None\<rparr>],
       mat_UnusedSince = None\<rparr>]\<rparr>"

definition example_stale_image :: AlternativeImage where
  "example_stale_image =
     \<lparr>alt_Reference = ''m/a'', alt_CredentialSecret = None, alt_ImagePullSecret = None,
      alt_SecretOwner = Some (OwnerISM example_stale)\<rparr>"

theorem stale_status_cleared_exactly_witness:
  "clearStaleMirrorStatus (\<lambda>_ _. None) 7 example_stale_image
   = [patchMirror example_stale ''r/a'' ''m/a'' (Some 7), patchMirror example_stale ''r/a'' ''m/a'' None]"
proof -
  have "filter (stale_entry ''m/a'') (status_entries example_stale)
      = [(''r/a'', \<lparr>ms_Image = ''m/a'', ms_MirroredAt = Some 3, ms_LastError = None\<rparr>)]"
    by (simp add: status_entries_def stale_entry_def example_stale_def)
  then show ?thesis
    using stale_status_cleared_exactly [of example_stale_image example_stale "\<lambda>_ _. None" 7]
    by (simp add: example_stale_image_def)
qed

section \<open>Flattening cluster resources\<close>

text \<open>
  Flattening a cluster-wide mirror set for routing loses nothing that routing uses: its
  image filter is that of the original (the pod side was matched before), and it is still
  told apart from a namespaced one, having no namespace.
\<close>

theorem flattening_keeps_image_filter:
  "ISM_ImageFilter rx (flatten_cism c) = CISM_ImageFilter rx c
   \<and> ism_Base (flatten_cism c) = cism_Base c \<and> ism_MatchingImages (flatten_cism c) = cism_MatchingImages c
   \<and> om_Namespace (ism_Meta (flatten_cism c)) = om_Namespace (cism_Meta c)"
  by (simp add: flatten_cism_def ISM_ImageFilter_def CISM_ImageFilter_def imageFilter_def
      ClusterFilter_BuildImageFilter_def)

end
