(* ===== verification/Copies.thy ===== *)
theory Copies
  imports StaleStatus MirrorProgress
begin

text \<open>
  The mirror reconcilers and the webhook together: the references under which a reconciler
  leaves the copies of an image (\<open>mergePreviousAndCurrentMatchingImages\<close>) and the ones the
  webhook tries for it (\<open>buildAlternativesList\<close>) are computed in two places; here they are
  shown to be the same, so that what was mirrored is found, and an image that disappeared is
  replaced by a copy that did not.
\<close>

section \<open>The references agree\<close>

definition mirror_reference :: "Mirror \<Rightarrow> string \<Rightarrow> string" where
  "mirror_reference m imgPath = path_Join [mir_Registry m, mir_Path m, imgPath]"

lemma expected_mirrors_references:
  assumes "CHR ''/'' \<notin> set r" and "expected_mirrors mirrors (r @ CHR ''/'' # p) = Inr ms"
  shows "map ms_Image ms = map (\<lambda>m. mirror_reference m p) mirrors"
proof -
  have "list_all2 (\<lambda>m x. Inr \<lparr>ms_Image = mirror_reference m p, ms_MirroredAt = None, ms_LastError = None\<rparr> = Inr x) mirrors ms"
    using traverse_InrD [OF assms(2) [unfolded expected_mirrors_def]] assms(1)
    by (simp add: SplitN2_append mirror_reference_def)
  then show ?thesis by (induction rule: list_all2_induct) auto
qed

lemma expected_for_references:
  assumes "CHR ''/'' \<notin> set r" and "k = r @ CHR ''/'' # p"
  shows "map ms_Image (expected_for mirrors {k} k) = map (\<lambda>m. mirror_reference m p) mirrors"
proof -
  have "is_ok (expected_mirrors mirrors k)" by (rule expected_mirrors_total) (simp add: assms(2))
  then obtain ms where "expected_mirrors mirrors k = Inr ms" by (auto simp: is_ok_iff)
  then show ?thesis using expected_mirrors_references [OF assms(1)] assms(2) by (simp add: expected_for_def)
qed

lemma alternative_references:
  assumes "RegistryAndPathFromReference parse (pa_reference a) = Inr (r, p)" and "match (path_Join [r, p])"
  shows "\<exists>new. mirrors_of_alternative parse match ism a = Inr new
    \<and> map pa_reference new = map (\<lambda>m. mirror_reference m p) (isb_Mirrors (ism_Base ism))"
  using assms
  by (auto simp: mirrors_of_alternative_def ism_alternative_def mirror_reference_def comp_def case_prod_unfold
      enumerate_eq_zip intro!: nth_equalityI)

lemma ism_collect_monotone: "ism_collect rx parse isms alts = Inr alts' \<Longrightarrow> set alts \<subseteq> set alts'"
  using ism_collect_set by fastforce

lemma ism_collect_includes:
  assumes "ism_collect rx parse isms alts = Inr alts'" and "ism \<in> set isms"
    and "ISM_ImageFilter rx ism = Inr match" and "a \<in> set alts" and "mirrors_of_alternative parse match ism a = Inr new"
  shows "set new \<subseteq> set alts'"
  using assms
proof (induction isms arbitrary: alts)
  case Nil
  then show ?case by simp
next
  case (Cons x xs)
  show ?case
  proof (cases "ISM_ImageFilter rx x")
    case (Inl e)
    with Cons show ?thesis by auto
  next
    case (Inr match')
    with Cons.prems(1) obtain news where t: "traverse (mirrors_of_alternative parse match' x) alts = Inr news"
      and rest: "ism_collect rx parse xs (alts @ concat news) = Inr alts'" by (auto split: sum.splits)
    show ?thesis
    proof (cases "x = ism")
      case True
      with Inr Cons.prems(3) have m: "match' = match" by simp
      from Cons.prems(4) obtain i where i: "i < length alts" "alts ! i = a" by (auto simp: in_set_conv_nth)
      have "list_all2 (\<lambda>b n. mirrors_of_alternative parse match' x b = Inr n) alts news" by (rule traverse_InrD [OF t])
      then have "mirrors_of_alternative parse match' x (alts ! i) = Inr (news ! i)" "i < length news"
        using i(1) by (auto simp: list_all2_conv_all_nth)
      with i True m Cons.prems(5) have "new \<in> set news" by auto
      with ism_collect_monotone [OF rest] show ?thesis by auto
    next
      case False
      with Cons.prems(2) have "ism \<in> set xs" by simp
      from Cons.IH [OF rest this Cons.prems(3) _ Cons.prems(5)] Cons.prems(4) show ?thesis by simp
    qed
  qed
qed

text \<open>
  The alternatives of a container contain the reference of every mirror of every resource
  listed for it whose filter takes the image.
\<close>

lemma mirror_references_listed:
  assumes "buildAlternativesList rx parse get honor isms riss c = Inr c'" and "fresh c"
    and "ism \<in> set isms" and "ISM_ImageFilter rx ism = Inr match" and "match (con_NormalizedImage c)"
    and "parse (con_NormalizedImage c) = Inr n" and "nmd_String n = con_NormalizedImage c"
    and k: "con_NormalizedImage c = r @ CHR ''/'' # p" "CHR ''/'' \<notin> set r" "clean_ref (con_NormalizedImage c)"
    and "\<not> discards_original rx (con_NormalizedImage c) riss" and "m \<in> set (isb_Mirrors (ism_Base ism))"
  shows "mirror_reference m p \<in> set (map alt_Reference (con_Images c'))
    \<and> con_NormalizedImage c \<in> set (map alt_Reference (con_Images c'))"
proof -
  from buildAlternativesList_spec [OF assms(1,2)] obtain alts where
    alts: "collect_alternatives rx parse honor isms riss
       (ctr_ImagePullPolicy (con_Container c)) (con_NormalizedImage c) = Inr alts"
    and refs: "map alt_Reference (con_Images c') = map pa_reference (firsts [] (SortStableFunc compareAlternatives alts))"
    by blast
  have listed: "set (map alt_Reference (con_Images c')) = pa_reference ` set alts"
    unfolding refs firsts_references by simp
  let ?o = "original_alternative honor (ctr_ImagePullPolicy (con_Container c)) (con_NormalizedImage c)"
  let ?start = "concat (map (\<lambda>ris. snd (ris_collect rx (con_NormalizedImage c) ris)) riss) @ [?o]"
  have start: "ism_collect rx parse isms ?start = Inr alts"
    using alts assms(11) by (simp add: collect_alternatives_def)
  have o: "?o \<in> set alts" using ism_collect_monotone [OF start] by auto
  have "RegistryAndPathFromReference parse (pa_reference ?o) = Inr (r, p)"
    using assms(6,7) k(1,2) by (simp add: RegistryAndPathFromReference_def original_reference SplitN2_append)
  moreover have "match (path_Join [r, p])" using assms(5) k by (simp add: path_Join_clean clean_ref_join)
  ultimately obtain new where new: "mirrors_of_alternative parse match ism ?o = Inr new"
    "map pa_reference new = map (\<lambda>m. mirror_reference m p) (isb_Mirrors (ism_Base ism))"
    using alternative_references by blast
  have "set new \<subseteq> set alts" by (rule ism_collect_includes [OF start assms(3,4) _ new(1)]) simp
  moreover have "mirror_reference m p \<in> set (map pa_reference new)" unfolding new(2) using assms(12) by simp
  ultimately have "mirror_reference m p \<in> set (map alt_Reference (con_Images c'))" unfolding listed by auto
  moreover have "con_NormalizedImage c \<in> pa_reference ` set alts" using o by (metis image_eqI original_reference)
  ultimately show ?thesis unfolding listed by blast
qed

section \<open>What was mirrored is tried\<close>

text \<open>
  C5. The reconciler and the webhook agree on where copies are: after a reconcile of a cluster-wide mirror
  resource that returned without error, the image of a selected pod is recorded in the status,
  every copy recorded for it is mirrored, and the alternatives the webhook builds for a
  container with that image, when it lists the resource, contain the reference of each of its
  mirrors, under exactly the name recorded in the status.
\<close>

theorem mirrored_copies_are_tried:
  assumes "re_Get re (rc_events st) = Inr x"
    and "mt_IsZero (om_DeletionTimestamp (cism_Meta x))" and "ContainsFinalizer (CISM_object rx sel) x"
    and "CISM_Reconcile rx sel re st = (Inr d, st')"
    and "keeps_status (re\<lparr>re_Ops := CISM_object rx sel\<rparr>)" and "serves_wf (re\<lparr>re_Ops := CISM_object rx sel\<rparr>)"
    and "range_order (re_Order re)" and "normalizing (env_ParseNamed (re_Net re))"
    and "re_ListPods re (rc_events st @ [EvGet]) (om_Namespace (cism_Meta x)) = Inr pods"
    and "CISM_PodMatcher rx sel x = Inr pm" and filt: "CISM_ImageFilter rx x = Inr match"
    and "\<And>h. re_ListClusterMirrors re h = Inr cisms" and "\<And>h. re_ListMirrors re h = Inr isms"
    and "pod \<in> set (selected re pm pods)"
    and k: "k \<in> set (normalizedImageNamesFromPod (env_ParseNamed (re_Net re)) pod)" "match k"
    and "\<not> is_mirrored_name (getAllMirrorPrefixes cisms isms (om_Namespace (cism_Meta x) = [])) (pod_Namespace pod) k"
    and web: "buildAlternativesList rx (env_ParseNamed (re_Net re)) get honor sources riss c = Inr c'" "fresh c"
      "con_NormalizedImage c = k" "flatten_cism x \<in> set sources" "\<not> discards_original rx k riss"
    and clean: "clean_ref k"
  shows "\<exists>i\<in>set (cism_MatchingImages (rc_obj st')).
    norm_key (env_ParseNamed (re_Net re)) (mat_Image i) = k \<and> all_mirrored (mat_Mirrors i)
    \<and> (\<exists>r p. k = r @ CHR ''/'' # p \<and> (\<forall>m\<in>set (isb_Mirrors (cism_Base x)).
          mirror_reference m p \<in> ms_Image ` set (mat_Mirrors i) \<inter> alt_Reference ` set (con_Images c')))"
proof -
  let ?parse = "env_ParseNamed (re_Net re)"
  from CISM_Reconcile_mirrors_everything [OF assms(1-17)] obtain i where
    i: "i \<in> set (cism_MatchingImages (rc_obj st'))" "norm_key ?parse (mat_Image i) = k" "all_mirrored (mat_Mirrors i)"
      "ms_Image ` set (expected_for (isb_Mirrors (cism_Base x)) {k} k) \<subseteq> ms_Image ` set (mat_Mirrors i)" by blast
  from normalized_names_parse [OF assms(8) k(1)] obtain n where n: "?parse k = Inr n" "nmd_String n = k" by blast
  then have "CHR ''/'' \<in> set k" using assms(8) by (auto simp: normalizing_def)
  then obtain r p where rp: "k = r @ CHR ''/'' # p" "CHR ''/'' \<notin> set r" using split_at_first by meson
  have recorded: "mirror_reference m p \<in> ms_Image ` set (mat_Mirrors i)" if "m \<in> set (isb_Mirrors (cism_Base x))" for m
  proof -
    have "mirror_reference m p \<in> set (map ms_Image (expected_for (isb_Mirrors (cism_Base x)) {k} k))"
      unfolding expected_for_references [OF rp(2,1)] using that by simp
    with i(4) show ?thesis by auto
  qed
  have filt': "ISM_ImageFilter rx (flatten_cism x) = Inr match" and base: "ism_Base (flatten_cism x) = cism_Base x"
    using filt by (simp_all add: flattening_keeps_image_filter)
  have tried: "mirror_reference m p \<in> alt_Reference ` set (con_Images c')" if "m \<in> set (isb_Mirrors (cism_Base x))" for m
    using mirror_references_listed [OF web(1,2,4) filt', unfolded web(3) base, OF k(2) n rp clean web(5) that] by simp
  from i recorded tried rp(1) show ?thesis by blast
qed

theorem mirrored_copies_are_tried_witness:
  "\<exists>st' c'. CISM_Reconcile literal_rx presence_sel example_mirroring_env (started example_empty_cluster) = (Inr 0, st')
     \<and> buildAlternativesList literal_rx example_parse (\<lambda>_ _. Inr zero_secret) False [flatten_cism example_empty_cluster] []
         (example_container PullIfNotPresent ''r.io/a'') = Inr c'
     \<and> (\<exists>i\<in>set (cism_MatchingImages (rc_obj st')). all_mirrored (mat_Mirrors i)
         \<and> ''m.io/copy/a'' \<in> ms_Image ` set (mat_Mirrors i) \<inter> alt_Reference ` set (con_Images c'))"
proof -
  let ?x = example_empty_cluster
  let ?b = "buildAlternativesList literal_rx example_parse (\<lambda>_ _. Inr zero_secret) False [flatten_cism ?x] []
         (example_container PullIfNotPresent ''r.io/a'')"
  obtain st' where run: "CISM_Reconcile literal_rx presence_sel example_mirroring_env (started ?x) = (Inr 0, st')"
    using example_mirroring_ok by (cases "CISM_Reconcile literal_rx presence_sel example_mirroring_env (started ?x)") simp
  obtain pm match where f: "CISM_PodMatcher literal_rx presence_sel ?x = Inr pm" "CISM_ImageFilter literal_rx ?x = Inr match"
    "match ''r.io/a''" "example_new_pod \<in> set (selected example_mirroring_env pm [example_new_pod])"
    by (rule example_mirroring_filters)
  have "is_ok ?b" by code_simp
  then obtain c' where b: "?b = Inr c'" by (auto simp: is_ok_iff)
  have env: "env_ParseNamed (re_Net example_mirroring_env) = example_parse" by (simp add: example_fields)
  have norm: "normalizing (env_ParseNamed (re_Net example_mirroring_env))" by (simp add: env example_parse_normalizing)
  have ord: "range_order (re_Order example_mirroring_env)" by (simp add: example_fields)
  have c: "con_NormalizedImage (example_container PullIfNotPresent ''r.io/a'') = ''r.io/a''"
    by (simp add: example_container_def)
  have keep: "\<not> discards_original literal_rx ''r.io/a'' []" by (simp add: discards_original_def)
  have clean: "clean_ref ''r.io/a''" by code_simp
  have mirrors: "isb_Mirrors (cism_Base ?x) = [example_mirror ''m.io'' ''copy'']" by code_simp
  from mirrored_copies_are_tried [OF example_fields(1) example_mirroring_facts(1,2) run
        example_mirroring_facts(3,4) ord norm example_fields(2) f(1,2) example_reconciler_lists f(4) example_mirroring_facts(5) f(3)
        example_mirroring_facts(6), unfolded env, OF b example_fresh c _ keep clean]
  obtain i r p where i: "i \<in> set (cism_MatchingImages (rc_obj st'))" "all_mirrored (mat_Mirrors i)"
    and rp: "''r.io/a'' = r @ CHR ''/'' # p"
    and m: "mirror_reference (example_mirror ''m.io'' ''copy'') p \<in> ms_Image ` set (mat_Mirrors i) \<inter> alt_Reference ` set (con_Images c')"
    unfolding mirrors by auto
  have "p = ''a''" using rp by (auto simp: Cons_eq_append_conv)
  moreover have "mirror_reference (example_mirror ''m.io'' ''copy'') ''a'' = ''m.io/copy/a''" by code_simp
  ultimately have "''m.io/copy/a'' \<in> ms_Image ` set (mat_Mirrors i) \<inter> alt_Reference ` set (con_Images c')" using m by simp
  with run b i show ?thesis by (intro exI conjI bexI)
qed

section \<open>An unavailable image is replaced\<close>

lemma find_best_exists:
  assumes "mset arrival = mset [0..<length imgs]" and "1 < length imgs"
    and "i \<in> set imgs" and "check i (secrets_for secrets i) = None"
  shows "\<exists>alt. fst (findBestAlternative arrival check imgs secrets) = Some alt
    \<and> alt \<in> set imgs \<and> check alt (secrets_for secrets alt) = None"
proof -
  let ?f = "\<lambda>i. \<lparr>Value = Some i, Error = check i (secrets @
      (case alt_ImagePullSecret i of None \<Rightarrow> [] | Some s \<Rightarrow> [s]))\<rparr>"
  have v: "Value (?f i) = Some i" for i by simp
  have "fst (FirstSuccessful arrival imgs ?f) = find (\<lambda>i. Error (?f i) = None) imgs"
    unfolding FirstSuccessful_spec [OF assms(1)] first_success_find v by (simp split: option.split)
  moreover have "find (\<lambda>i. Error (?f i) = None) imgs \<noteq> None"
    using assms(3,4) by (auto simp: find_None_iff secrets_for_def)
  ultimately have "fst (FirstSuccessful arrival imgs ?f) \<noteq> None" by simp
  then have "fst (findBestAlternative arrival check imgs secrets) \<noteq> None"
    using assms(2) by (auto simp: findBestAlternative_def split: prod.splits)
  then obtain alt where alt: "fst (findBestAlternative arrival check imgs secrets) = Some alt" by blast
  with find_best_ok [OF assms(1) alt] show ?thesis by blast
qed

text \<open>
  C6. An image that disappeared is replaced as long as one copy of it is left: when the check
  of the image fails and that of one of its mirrors succeeds, the webhook chooses an
  alternative that is available, and it is another image.
\<close>

theorem unavailable_image_replaced:
  assumes "\<not> we_live env t" and "\<And>img k. mset (we_arrival env img k) = mset [0..<k]"
    and build: "buildAlternativesList (we_rx env) (we_parse env) (we_get env)
      (rt_HonorPrioritiesOnAlwaysImagePullPolicy (cfg_Routing (we_config env))) isms riss c = Inr c'" "fresh c"
    and "ism \<in> set isms" and "ISM_ImageFilter (we_rx env) ism = Inr match" and "match (con_NormalizedImage c)"
    and "we_parse env (con_NormalizedImage c) = Inr n" and "nmd_String n = con_NormalizedImage c"
    and k: "con_NormalizedImage c = r @ CHR ''/'' # p" "CHR ''/'' \<notin> set r" "clean_ref (con_NormalizedImage c)"
    and "\<not> discards_original (we_rx env) (con_NormalizedImage c) riss"
    and m: "m \<in> set (isb_Mirrors (ism_Base ism))" "mirror_reference m p \<noteq> con_NormalizedImage c"
    and up: "\<And>i. i \<in> set (con_Images c') \<Longrightarrow> alt_Reference i = mirror_reference m p \<Longrightarrow>
       fst (checkImageAvailabilityCached env i (secrets_for secrets i) st) = None"
    and down: "\<And>i. i \<in> set (con_Images c') \<Longrightarrow> alt_Reference i = con_NormalizedImage c \<Longrightarrow>
       fst (checkImageAvailabilityCached env i (secrets_for secrets i) st) \<noteq> None"
  shows "\<exists>alt cnt st'. findBestAlternativeCached env t isms riss c secrets st = (Inr (Some alt, cnt), st')
    \<and> alt \<in> set (con_Images c') \<and> alt_Reference alt \<noteq> con_NormalizedImage c
    \<and> fst (checkImageAvailabilityCached env alt (secrets_for secrets alt) st) = None"
proof -
  let ?check = "\<lambda>i s. fst (checkImageAvailabilityCached env i s st)"
  from mirror_references_listed [OF build assms(5-9) k assms(13) m(1)] obtain i o' where
    i: "i \<in> set (con_Images c')" "alt_Reference i = mirror_reference m p"
    and o: "o' \<in> set (con_Images c')" "alt_Reference o' = con_NormalizedImage c" by auto
  with m(2) have "i \<noteq> o'" by metis
  with i(1) o(1) have two: "1 < length (con_Images c')"
    by (cases "con_Images c'"; cases "tl (con_Images c')") auto
  from find_best_exists [OF assms(2) two i(1), of ?check secrets] up [OF i] obtain alt where
    alt: "fst (findBestAlternative (we_arrival env (con_NormalizedImage c) (length (con_Images c'))) ?check (con_Images c') secrets) = Some alt"
      "alt \<in> set (con_Images c')" "?check alt (secrets_for secrets alt) = None" by blast
  from alt(2,3) down have "alt_Reference alt \<noteq> con_NormalizedImage c" by metis
  moreover have "\<exists>cnt st'. findBestAlternativeCached env t isms riss c secrets st = (Inr (Some alt, cnt), st')"
    using alt(1) assms(1) build(1) by (auto simp: findBestAlternativeCached_def Let_def split: prod.splits)
  ultimately show ?thesis using alt(2,3) by blast
qed

theorem unavailable_image_replaced_witness:
  "\<exists>alt cnt st'. findBestAlternativeCached (example_webhook []) 0 [example_mirrors ''ns'' 0 ''m''] []
      (example_container PullIfNotPresent ''r/a'') [] fresh_webhook = (Inr (Some alt, cnt), st')
    \<and> alt_Reference alt \<noteq> ''r/a''"
proof -
  let ?env = "example_webhook []" and ?ism = "example_mirrors ''ns'' 0 ''m''"
  let ?c = "example_container PullIfNotPresent ''r/a''"
  let ?b = "buildAlternativesList all_rx example_parse no_secret False [?ism] [] ?c"
  let ?check = "\<lambda>i. fst (checkImageAvailabilityCached ?env i (secrets_for [] i) fresh_webhook)"
  have "map_sum (\<lambda>e. e) (\<lambda>c. list_all (\<lambda>i. (alt_Reference i = ''m/a'' \<longrightarrow> ?check i = None)
      \<and> (alt_Reference i = ''r/a'' \<longrightarrow> ?check i \<noteq> None)) (con_Images c)) ?b = Inr True" by code_simp
  then obtain c' where b: "?b = Inr c'" and
    checks: "\<And>i. i \<in> set (con_Images c') \<Longrightarrow> alt_Reference i = ''m/a'' \<Longrightarrow> ?check i = None"
      "\<And>i. i \<in> set (con_Images c') \<Longrightarrow> alt_Reference i = ''r/a'' \<Longrightarrow> ?check i \<noteq> None"
    by (cases ?b) (auto simp: list_all_iff)
  have "map_sum (\<lambda>e. e) (\<lambda>m. m ''r/a'') (ISM_ImageFilter all_rx ?ism) = Inr True" by code_simp
  then obtain match where f: "ISM_ImageFilter all_rx ?ism = Inr match" "match ''r/a''"
    by (cases "ISM_ImageFilter all_rx ?ism") auto
  have env: "we_rx ?env = all_rx" "we_parse ?env = example_parse" "we_get ?env = no_secret"
    "rt_HonorPrioritiesOnAlwaysImagePullPolicy (cfg_Routing (we_config ?env)) = False" "\<not> we_live ?env 0"
    "mset (we_arrival ?env img k) = mset [0..<k]" for img k
    by (simp_all add: example_webhook_def) code_simp
  have c: "con_NormalizedImage ?c = ''r/a''" by (simp add: example_container_def)
  let ?n = "\<lparr>nmd_Name = ''r/a'', nmd_String = ''r/a''\<rparr>"
  have n: "example_parse ''r/a'' = Inr ?n" "nmd_String ?n = ''r/a''" by (simp_all add: example_parse_def Let_def)
  have keep: "\<not> discards_original all_rx ''r/a'' []" by (simp add: discards_original_def)
  have clean: "''r/a'' = ''r'' @ CHR ''/'' # ''a''" "CHR ''/'' \<notin> set ''r''" "clean_ref ''r/a''"
    by (simp, simp, code_simp)
  obtain m where m: "m \<in> set (isb_Mirrors (ism_Base ?ism))" "mirror_reference m ''a'' = ''m/a''"
  proof
    show "hd (isb_Mirrors (ism_Base ?ism)) \<in> set (isb_Mirrors (ism_Base ?ism))" by code_simp
    show "mirror_reference (hd (isb_Mirrors (ism_Base ?ism))) ''a'' = ''m/a''" by code_simp
  qed
  from unavailable_image_replaced [of ?env 0 "[?ism]" "[]" ?c c' ?ism match ?n "''r''" "''a''" m "[]" fresh_webhook,
      unfolded env c m(2), OF _ refl b example_fresh _ f n clean keep m(1)] env(5) checks
  show ?thesis by auto
qed

end
