(* ===== verification/Flights.thy ===== *)
theory Flights
  imports Webhook
begin

text \<open>
  Concurrent admissions in \<open>internal/webhook/core/v1/pod_webhook.go\<close>: \<open>findBestAlternativeCached\<close>
  and \<open>checkImageAvailabilityCached\<close> share two caches, whose entries may expire at any time, and one
  \<open>singleflight.Group\<close>. A goroutine is in one of the states below; an action is what one goroutine
  does between two accesses to the shared state. As the library documents, one function runs
  per key at a time and the callers that come meanwhile wait for its result. What a check
  answers is open; the clean-ups it may start run on their own (\<open>StaleStatus\<close>).
\<close>

section \<open>Goroutines and their shared state\<close>

text \<open>
  Before the cache is read, after it missed, inside the function of \<open>Do\<close>, waiting for another
  one's, and done.
\<close>

datatype ('d, 'r) stage = Lookup | Missed | Leading 'd | Joined | Returned 'r

record CheckRun =
  ck_image :: AlternativeImage
  ck_secrets :: "Secret list"
  ck_stage :: "(unit, error option) stage"

text \<open>
  An admission of a container: what \<open>buildAlternativesList\<close> gives for it, and, while it leads,
  the checks it started (None before).
\<close>

record AdmissionRun =
  an_image :: string
  an_build :: "AlternativeImage list result"
  an_secrets :: "Secret list"
  an_stage :: "(nat list option, (AlternativeImage option \<times> nat) result) stage"

record WebhookShared =
  wc_checkCache :: "string \<rightharpoonup> bool"
  wc_alternativeCache :: "string \<rightharpoonup> (AlternativeImage option \<times> nat)"
  wc_requestGroup :: "string \<rightharpoonup> nat"
  wc_checks :: "CheckRun list"
  wc_admissions :: "AdmissionRun list"
  wc_answers :: "(string \<times> Secret list \<times> error option) list"

definition availability_key :: "string \<Rightarrow> string" where
  "availability_key reference = ''availability:'' @ reference"

definition alternative_key :: "string \<Rightarrow> string" where
  "alternative_key img = ''alternative:'' @ img"

definition no_admissions :: WebhookShared where
  "no_admissions = \<lparr>wc_checkCache = Map.empty, wc_alternativeCache = Map.empty, wc_requestGroup = Map.empty,
     wc_checks = [], wc_admissions = [], wc_answers = []\<rparr>"

section \<open>The check of an image\<close>

definition ck_reference :: "CheckRun \<Rightarrow> string" where
  "ck_reference c = alt_Reference (ck_image c)"

definition set_check :: "nat \<Rightarrow> (unit, error option) stage \<Rightarrow> WebhookShared \<Rightarrow> WebhookShared" where
  "set_check i p s = s\<lparr>wc_checks := (wc_checks s)[i := (wc_checks s ! i)\<lparr>ck_stage := p\<rparr>]\<rparr>"

definition check_lookup :: "nat \<Rightarrow> WebhookShared \<Rightarrow> WebhookShared" where
  "check_lookup i s =
     (case wc_checkCache s (ck_reference (wc_checks s ! i)) of
        Some result \<Rightarrow> set_check i (Returned (if result then None else Some (EMsg ''cached''))) s
      | None \<Rightarrow> set_check i Missed s)"

definition check_do :: "nat \<Rightarrow> WebhookShared \<Rightarrow> WebhookShared" where
  "check_do i s =
     (let key = availability_key (ck_reference (wc_checks s ! i))
      in (case wc_requestGroup s key of
            Some _ \<Rightarrow> set_check i Joined s
          | None \<Rightarrow> set_check i (Leading ()) (s\<lparr>wc_requestGroup := (wc_requestGroup s)(key \<mapsto> i)\<rparr>)))"

text \<open>The result of the flight of a reference, for its leader and the ones waiting.\<close>

definition deliver_check :: "string \<Rightarrow> error option \<Rightarrow> CheckRun \<Rightarrow> CheckRun" where
  "deliver_check reference err c =
     (if ck_reference c = reference \<and> ck_stage c \<in> {Leading (), Joined} then c\<lparr>ck_stage := Returned err\<rparr> else c)"

definition check_answer :: "nat \<Rightarrow> error option \<Rightarrow> WebhookShared \<Rightarrow> WebhookShared" where
  "check_answer i err s =
     (let c = wc_checks s ! i; reference = ck_reference c
      in s\<lparr>wc_checkCache := (wc_checkCache s)(reference \<mapsto> (err = None)),
           wc_requestGroup := (wc_requestGroup s)(availability_key reference := None),
           wc_checks := map (deliver_check reference err) (wc_checks s),
           wc_answers := (reference, ck_secrets c, err) # wc_answers s\<rparr>)"

section \<open>The admission of a container\<close>

definition set_admission ::
  "nat \<Rightarrow> (nat list option, (AlternativeImage option \<times> nat) result) stage \<Rightarrow> WebhookShared \<Rightarrow> WebhookShared" where
  "set_admission i p s = s\<lparr>wc_admissions := (wc_admissions s)[i := (wc_admissions s ! i)\<lparr>an_stage := p\<rparr>]\<rparr>"

definition admit_lookup :: "nat \<Rightarrow> WebhookShared \<Rightarrow> WebhookShared" where
  "admit_lookup i s =
     (case wc_alternativeCache s (an_image (wc_admissions s ! i)) of
        Some cached \<Rightarrow> set_admission i (Returned (Inr cached)) s
      | None \<Rightarrow> set_admission i Missed s)"

definition admit_do :: "nat \<Rightarrow> WebhookShared \<Rightarrow> WebhookShared" where
  "admit_do i s =
     (let key = alternative_key (an_image (wc_admissions s ! i))
      in (case wc_requestGroup s key of
            Some _ \<Rightarrow> set_admission i Joined s
          | None \<Rightarrow> set_admission i (Leading None) (s\<lparr>wc_requestGroup := (wc_requestGroup s)(key \<mapsto> i)\<rparr>)))"

definition deliver_admission ::
  "string \<Rightarrow> (AlternativeImage option \<times> nat) result \<Rightarrow> AdmissionRun \<Rightarrow> AdmissionRun" where
  "deliver_admission img r a =
     (if an_image a = img \<and> (case an_stage a of Leading _ \<Rightarrow> True | Joined \<Rightarrow> True | _ \<Rightarrow> False)
      then a\<lparr>an_stage := Returned r\<rparr> else a)"

definition end_admission :: "string \<Rightarrow> (AlternativeImage option \<times> nat) result \<Rightarrow> WebhookShared \<Rightarrow> WebhookShared" where
  "end_admission img r s =
     s\<lparr>wc_requestGroup := (wc_requestGroup s)(alternative_key img := None),
       wc_admissions := map (deliver_admission img r) (wc_admissions s)\<rparr>"

text \<open>
  With the alternatives built, \<open>FirstSuccessful\<close> starts a goroutine for each of them if there
  are several.
\<close>

definition start_checks :: "AdmissionRun \<Rightarrow> AlternativeImage list \<Rightarrow> CheckRun list" where
  "start_checks a imgs =
     (if length imgs > 1
      then map (\<lambda>img. \<lparr>ck_image = img, ck_secrets = secrets_for (an_secrets a) img, ck_stage = Lookup\<rparr>) imgs else [])"

definition admit_build :: "nat \<Rightarrow> WebhookShared \<Rightarrow> WebhookShared" where
  "admit_build i s =
     (let a = wc_admissions s ! i
      in (case an_build a of
            Inl e \<Rightarrow> end_admission (an_image a) (Inl e) s
          | Inr imgs \<Rightarrow>
              (let new = start_checks a imgs; n = length (wc_checks s)
               in set_admission i (Leading (Some [n..<n + length new])) (s\<lparr>wc_checks := wc_checks s @ new\<rparr>))))"

text \<open>
  \<open>FirstSuccessful\<close> returns at the first success after failures, or when all have failed;
  \<open>None\<close> while it must wait.
\<close>

fun decide :: "CheckRun list \<Rightarrow> nat list \<Rightarrow> AlternativeImage option option" where
  "decide checks [] = Some None"
| "decide checks (i # is) =
     (case ck_stage (checks ! i) of
        Returned None \<Rightarrow> Some (Some (ck_image (checks ! i)))
      | Returned (Some _) \<Rightarrow> decide checks is
      | _ \<Rightarrow> None)"

definition admit_decide :: "nat \<Rightarrow> AlternativeImage option \<Rightarrow> WebhookShared \<Rightarrow> WebhookShared" where
  "admit_decide i best s =
     (let a = wc_admissions s ! i; cached = (best, (case an_build a of Inl _ \<Rightarrow> 0 | Inr imgs \<Rightarrow> length imgs))
      in end_admission (an_image a) (Inr cached)
           (s\<lparr>wc_alternativeCache := (wc_alternativeCache s)(an_image a \<mapsto> cached)\<rparr>))"

section \<open>Interleavings\<close>

datatype action =
    CheckLookup nat
  | CheckDo nat
  | CheckAnswer nat "error option"
  | AdmitLookup nat
  | AdmitDo nat
  | AdmitBuild nat
  | AdmitDecide nat
  | Admit string "AlternativeImage list result" "Secret list"
  | ExpireCheck string
  | ExpireAlternative string

definition at_check :: "WebhookShared \<Rightarrow> nat \<Rightarrow> (unit, error option) stage \<Rightarrow> bool" where
  "at_check s i p \<longleftrightarrow> i < length (wc_checks s) \<and> ck_stage (wc_checks s ! i) = p"

definition at_admission ::
  "WebhookShared \<Rightarrow> nat \<Rightarrow> (nat list option, (AlternativeImage option \<times> nat) result) stage \<Rightarrow> bool" where
  "at_admission s i p \<longleftrightarrow> i < length (wc_admissions s) \<and> an_stage (wc_admissions s ! i) = p"

text \<open>The same as tests of the stage, which evaluate without comparing results.\<close>

fun looking :: "('d, 'r) stage \<Rightarrow> bool" where
  "looking Lookup = True"
| "looking _ = False"

fun missing :: "('d, 'r) stage \<Rightarrow> bool" where
  "missing Missed = True"
| "missing _ = False"

fun building :: "('d option, 'r) stage \<Rightarrow> bool" where
  "building (Leading None) = True"
| "building _ = False"

definition admission_at ::
  "WebhookShared \<Rightarrow> nat \<Rightarrow> ((nat list option, (AlternativeImage option \<times> nat) result) stage \<Rightarrow> bool) \<Rightarrow> bool" where
  "admission_at s i P \<longleftrightarrow> i < length (wc_admissions s) \<and> P (an_stage (wc_admissions s ! i))"

lemma stage_tests: "looking p \<longleftrightarrow> p = Lookup" "missing p \<longleftrightarrow> p = Missed"
  by (cases p; simp)+

lemma building_test: "building q \<longleftrightarrow> q = Leading None"
  by (cases q rule: building.cases) simp_all

lemma admission_at_stage [simp]:
  "admission_at s i looking = at_admission s i Lookup" "admission_at s i missing = at_admission s i Missed"
  "admission_at s i building = at_admission s i (Leading None)"
  by (simp_all add: admission_at_def at_admission_def stage_tests building_test)

text \<open>One action, when the goroutine it names is there.\<close>

fun wstep :: "action \<Rightarrow> WebhookShared \<Rightarrow> WebhookShared option" where
  "wstep (CheckLookup i) s = (if at_check s i Lookup then Some (check_lookup i s) else None)"
| "wstep (CheckDo i) s = (if at_check s i Missed then Some (check_do i s) else None)"
| "wstep (CheckAnswer i err) s = (if at_check s i (Leading ()) then Some (check_answer i err s) else None)"
| "wstep (AdmitLookup i) s = (if admission_at s i looking then Some (admit_lookup i s) else None)"
| "wstep (AdmitDo i) s = (if admission_at s i missing then Some (admit_do i s) else None)"
| "wstep (AdmitBuild i) s = (if admission_at s i building then Some (admit_build i s) else None)"
| "wstep (AdmitDecide i) s =
     (if i < length (wc_admissions s) then
        (case an_stage (wc_admissions s ! i) of
           Leading (Some is) \<Rightarrow> map_option (\<lambda>best. admit_decide i best s) (decide (wc_checks s) is)
         | _ \<Rightarrow> None)
      else None)"
| "wstep (Admit img build secrets) s =
     Some (s\<lparr>wc_admissions := wc_admissions s @
       [\<lparr>an_image = img, an_build = build, an_secrets = secrets, an_stage = Lookup\<rparr>]\<rparr>)"
| "wstep (ExpireCheck reference) s = Some (s\<lparr>wc_checkCache := (wc_checkCache s)(reference := None)\<rparr>)"
| "wstep (ExpireAlternative img) s = Some (s\<lparr>wc_alternativeCache := (wc_alternativeCache s)(img := None)\<rparr>)"

fun wrun :: "action list \<Rightarrow> WebhookShared \<Rightarrow> WebhookShared option" where
  "wrun [] s = Some s"
| "wrun (a # as) s = (case wstep a s of None \<Rightarrow> None | Some s' \<Rightarrow> wrun as s')"

text \<open>The actions of goroutines, as opposed to what happens to them.\<close>

fun proceeds :: "action \<Rightarrow> bool" where
  "proceeds (Admit _ _ _) = False"
| "proceeds (ExpireCheck _) = False"
| "proceeds (ExpireAlternative _) = False"
| "proceeds _ = True"

lemma wrun_append: "wrun (as @ bs) s = (case wrun as s of None \<Rightarrow> None | Some s' \<Rightarrow> wrun bs s')"
  by (induction as arbitrary: s) (simp_all split: option.split)

lemma keys_differ [simp]:
  "availability_key a \<noteq> alternative_key b" "alternative_key b \<noteq> availability_key a"
  "availability_key a = availability_key a' \<longleftrightarrow> a = a'" "alternative_key b = alternative_key b' \<longleftrightarrow> b = b'"
  by (simp_all add: availability_key_def alternative_key_def)

end
