(* ===== verification/FlightsProps.thy ===== *)
theory FlightsProps
  imports Flights
begin

text \<open>
  Properties of concurrent admissions: one check per image and one decision per image at a
  time, only real answers are handed on, nobody waits for ever, and every admission comes to an
  end after a bounded number of actions, whatever the interleaving and the expiry of the caches.
\<close>

section \<open>Flights\<close>

text \<open>
  What the two kinds of flight share: \<open>key\<close> gives the key of an image, \<open>g\<close> is the request group
  and the pool lists the image and the stage of each goroutine of the kind.
\<close>

fun leading :: "('d, 'r) stage \<Rightarrow> bool" where
  "leading (Leading _) = True"
| "leading _ = False"

definition has_leader :: "(string \<times> ('d, 'r) stage) list \<Rightarrow> string \<Rightarrow> bool" where
  "has_leader pool r \<longleftrightarrow> (\<exists>i<length pool. fst (pool ! i) = r \<and> leading (snd (pool ! i)))"

definition well_led ::
  "(string \<Rightarrow> string) \<Rightarrow> (string \<rightharpoonup> nat) \<Rightarrow> (string \<times> ('d, 'r) stage) list \<Rightarrow> bool" where
  "well_led key g pool \<longleftrightarrow>
     (\<forall>r i. g (key r) = Some i \<longleftrightarrow> i < length pool \<and> fst (pool ! i) = r \<and> leading (snd (pool ! i)))
     \<and> (\<forall>j<length pool. snd (pool ! j) = Joined \<longrightarrow> has_leader pool (fst (pool ! j)))"

definition land :: "string \<Rightarrow> 'r \<Rightarrow> string \<times> ('d, 'r) stage \<Rightarrow> string \<times> ('d, 'r) stage" where
  "land r x = (\<lambda>(r', p). if r' = r \<and> (leading p \<or> p = Joined) then (r', Returned x) else (r', p))"

lemma well_led_empty: "well_led key Map.empty []"
  by (simp add: well_led_def)

lemma well_led_other: "well_led key g pool \<Longrightarrow> (\<And>r. k \<noteq> key r) \<Longrightarrow> well_led key (g(k := x)) pool"
  by (auto simp: well_led_def)

lemma well_led_append:
  assumes "well_led key g pool" and "\<forall>p\<in>set new. snd p = Lookup"
  shows "well_led key g (pool @ new)"
proof -
  have new: "snd (new ! j) = Lookup" if "j < length new" for j using assms(2) that by simp
  have "has_leader (pool @ new) r" if "has_leader pool r" for r
    using that unfolding has_leader_def by (metis length_append nth_append trans_less_add1)
  moreover have "(pool @ new) ! j = (if j < length pool then pool ! j else new ! (j - length pool))" for j
    by (simp add: nth_append)
  ultimately show ?thesis using assms(1) new by (fastforce simp: well_led_def)
qed

lemma has_leader_update:
  assumes "has_leader pool r" and "i < length pool" and "leading (snd (pool ! i)) \<longrightarrow> leading p"
  shows "has_leader (pool[i := (fst (pool ! i), p)]) r"
  using assms by (auto simp: has_leader_def nth_list_update)

lemma well_led_leader: "well_led key g pool \<Longrightarrow> g (key r) \<noteq> None \<Longrightarrow> has_leader pool r"
  by (auto simp: well_led_def has_leader_def)

lemma well_led_stage:
  assumes "well_led key g pool" and i: "i < length pool" and "\<not> leading (snd (pool ! i))" and "\<not> leading p"
    and "p = Joined \<Longrightarrow> g (key (fst (pool ! i))) \<noteq> None"
  shows "well_led key g (pool[i := (fst (pool ! i), p)])"
proof -
  let ?pool = "pool[i := (fst (pool ! i), p)]"
  have "has_leader ?pool (fst (?pool ! j))" if j: "j < length ?pool" "snd (?pool ! j) = Joined" for j
  proof -
    have "has_leader pool (fst (pool ! j))"
      using assms(1) j well_led_leader [OF assms(1) assms(5)] by (cases "j = i") (auto simp: well_led_def)
    from has_leader_update [OF this i, of p] assms(3) show ?thesis using i by (cases "j = i") auto
  qed
  then show ?thesis using assms(1,3,4) i by (auto simp: well_led_def nth_list_update)
qed

lemma well_led_lead:
  assumes "well_led key g pool" and "inj key" and i: "i < length pool" and "g (key (fst (pool ! i))) = None"
  shows "well_led key (g(key (fst (pool ! i)) \<mapsto> i)) (pool[i := (fst (pool ! i), Leading d)])"
proof -
  let ?pool = "pool[i := (fst (pool ! i), Leading d)]"
  have "has_leader ?pool (fst (?pool ! j))" if j: "j < length ?pool" "snd (?pool ! j) = Joined" for j
  proof -
    have "j \<noteq> i" using j i by auto
    with j have "has_leader pool (fst (pool ! j))" using assms(1) by (auto simp: well_led_def)
    from has_leader_update [OF this i, of "Leading d"] show ?thesis using \<open>j \<noteq> i\<close> by simp
  qed
  moreover have "\<not> (j < length pool \<and> fst (pool ! j) = fst (pool ! i) \<and> leading (snd (pool ! j)))" for j
    using assms(1,4) by (metis option.distinct(1) well_led_def)
  ultimately show ?thesis using assms(1-3) by (auto simp: well_led_def nth_list_update inj_eq)
qed

lemma well_led_next:
  assumes "well_led key g pool" and i: "i < length pool" and "leading (snd (pool ! i))"
  shows "well_led key g (pool[i := (fst (pool ! i), Leading d)])"
proof -
  let ?pool = "pool[i := (fst (pool ! i), Leading d)]"
  have "has_leader ?pool (fst (?pool ! j))" if j: "j < length ?pool" "snd (?pool ! j) = Joined" for j
  proof -
    have "j \<noteq> i" using j i by auto
    with j have "has_leader pool (fst (pool ! j))" using assms(1) by (auto simp: well_led_def)
    from has_leader_update [OF this i, of "Leading d"] show ?thesis using \<open>j \<noteq> i\<close> by simp
  qed
  then show ?thesis using assms by (auto simp: well_led_def nth_list_update)
qed

lemma well_led_land:
  assumes "well_led key g pool" and "inj key"
  shows "well_led key (g(key r := None)) (map (land r x) pool)"
proof -
  have "has_leader (map (land r x) pool) (fst (land r x (pool ! j)))"
    if j: "j < length pool" "snd (land r x (pool ! j)) = Joined" for j
  proof -
    have "snd (pool ! j) = Joined" "fst (pool ! j) \<noteq> r" "fst (land r x (pool ! j)) = fst (pool ! j)"
      using j(2) by (auto simp: land_def split_beta split: if_splits)
    moreover from this j(1) assms(1) obtain i where "i < length pool" "fst (pool ! i) = fst (pool ! j)" "leading (snd (pool ! i))"
      by (auto simp: well_led_def has_leader_def)
    ultimately show ?thesis by (auto simp: has_leader_def land_def split_beta intro!: exI [of _ i])
  qed
  then show ?thesis using assms by (auto simp: well_led_def land_def inj_eq split_beta split: if_splits)
qed

lemma well_led_unique:
  assumes "well_led key g pool" and "i < length pool" and "j < length pool"
    and "leading (snd (pool ! i))" and "leading (snd (pool ! j))" and "fst (pool ! i) = fst (pool ! j)"
  shows "i = j"
proof -
  have led: "g (key r) = Some i \<longleftrightarrow> i < length pool \<and> fst (pool ! i) = r \<and> leading (snd (pool ! i))" for r i
    using assms(1) unfolding well_led_def by blast
  have "g (key (fst (pool ! i))) = Some i" unfolding led using assms(2,4) by simp
  moreover have "g (key (fst (pool ! j))) = Some j" unfolding led using assms(3,5) by simp
  ultimately show ?thesis using assms(6) by (metis option.inject)
qed

definition check_pool :: "WebhookShared \<Rightarrow> (string \<times> (unit, error option) stage) list" where
  "check_pool s = map (\<lambda>c. (ck_reference c, ck_stage c)) (wc_checks s)"

definition admission_pool ::
  "WebhookShared \<Rightarrow> (string \<times> (nat list option, (AlternativeImage option \<times> nat) result) stage) list" where
  "admission_pool s = map (\<lambda>a. (an_image a, an_stage a)) (wc_admissions s)"

definition flights_ok :: "WebhookShared \<Rightarrow> bool" where
  "flights_ok s \<longleftrightarrow> well_led availability_key (wc_requestGroup s) (check_pool s)
     \<and> well_led alternative_key (wc_requestGroup s) (admission_pool s)"

lemma inj_keys [simp]: "inj availability_key" "inj alternative_key"
  by (simp_all add: inj_def)

lemma set_check_pool [simp]:
  "i < length (wc_checks s) \<Longrightarrow> check_pool (set_check i p s) = (check_pool s)[i := (ck_reference (wc_checks s ! i), p)]"
  "wc_requestGroup (set_check i p s) = wc_requestGroup s" "admission_pool (set_check i p s) = admission_pool s"
  by (simp_all add: check_pool_def admission_pool_def set_check_def map_update ck_reference_def)

lemma set_admission_pool [simp]:
  "i < length (wc_admissions s) \<Longrightarrow>
     admission_pool (set_admission i p s) = (admission_pool s)[i := (an_image (wc_admissions s ! i), p)]"
  "wc_requestGroup (set_admission i p s) = wc_requestGroup s" "check_pool (set_admission i p s) = check_pool s"
  by (simp_all add: check_pool_def admission_pool_def set_admission_def map_update)

lemma pool_nth [simp]:
  "i < length (wc_checks s) \<Longrightarrow> check_pool s ! i = (ck_reference (wc_checks s ! i), ck_stage (wc_checks s ! i))"
  "i < length (wc_admissions s) \<Longrightarrow> admission_pool s ! i = (an_image (wc_admissions s ! i), an_stage (wc_admissions s ! i))"
  "length (check_pool s) = length (wc_checks s)" "length (admission_pool s) = length (wc_admissions s)"
  by (simp_all add: check_pool_def admission_pool_def)

lemma deliver_check_pool:
  "map (\<lambda>c. (ck_reference c, ck_stage c)) (map (deliver_check r x) cs) = map (land r x) (map (\<lambda>c. (ck_reference c, ck_stage c)) cs)"
proof -
  have "leading p \<longleftrightarrow> p = Leading ()" for p :: "(unit, error option) stage" by (cases p) simp_all
  then have "(ck_reference (deliver_check r x c), ck_stage (deliver_check r x c)) = land r x (ck_reference c, ck_stage c)" for c
    by (auto simp: deliver_check_def land_def ck_reference_def)
  then show ?thesis by simp
qed

lemma deliver_admission_pool:
  "map (\<lambda>a. (an_image a, an_stage a)) (map (deliver_admission r x) as) = map (land r x) (map (\<lambda>a. (an_image a, an_stage a)) as)"
proof -
  have "(case p of Leading _ \<Rightarrow> True | Joined \<Rightarrow> True | _ \<Rightarrow> False) \<longleftrightarrow> leading p \<or> p = Joined" for p :: "(nat list option, (AlternativeImage option \<times> nat) result) stage"
    by (cases p) simp_all
  then show ?thesis by (auto simp: deliver_admission_def land_def)
qed

section \<open>One check and one decision at a time\<close>

lemma check_pool_append: "check_pool (s\<lparr>wc_checks := wc_checks s @ new\<rparr>) = check_pool s @ map (\<lambda>c. (ck_reference c, ck_stage c)) new"
  by (simp add: check_pool_def)

lemma flights_set_check:
  assumes "flights_ok s" and "i < length (wc_checks s)" and "\<not> leading (ck_stage (wc_checks s ! i))" and "\<not> leading p"
    and "p = Joined \<Longrightarrow> wc_requestGroup s (availability_key (ck_reference (wc_checks s ! i))) \<noteq> None"
  shows "flights_ok (set_check i p s)"
  using assms well_led_stage [of availability_key "wc_requestGroup s" "check_pool s" i p] by (simp add: flights_ok_def)

lemma flights_set_admission:
  assumes "flights_ok s" and "i < length (wc_admissions s)" and "\<not> leading (an_stage (wc_admissions s ! i))" and "\<not> leading p"
    and "p = Joined \<Longrightarrow> wc_requestGroup s (alternative_key (an_image (wc_admissions s ! i))) \<noteq> None"
  shows "flights_ok (set_admission i p s)"
  using assms well_led_stage [of alternative_key "wc_requestGroup s" "admission_pool s" i p] by (simp add: flights_ok_def)

lemma flights_caches [simp]:
  "flights_ok (s\<lparr>wc_checkCache := cc\<rparr>) = flights_ok s" "flights_ok (s\<lparr>wc_alternativeCache := ac\<rparr>) = flights_ok s"
  by (simp_all add: flights_ok_def check_pool_def admission_pool_def)

lemma flights_check_do:
  assumes "flights_ok s" and "at_check s i Missed"
  shows "flights_ok (check_do i s)"
proof -
  let ?k = "availability_key (ck_reference (wc_checks s ! i))"
  have i: "i < length (wc_checks s)" "ck_stage (wc_checks s ! i) = Missed" using assms(2) by (simp_all add: at_check_def)
  show ?thesis
  proof (cases "wc_requestGroup s ?k")
    case (Some j)
    with flights_set_check [OF assms(1) i(1), of Joined] i(2) show ?thesis by (simp add: check_do_def)
  next
    case None
    let ?s = "s\<lparr>wc_requestGroup := (wc_requestGroup s)(?k \<mapsto> i)\<rparr>"
    have "well_led availability_key ((wc_requestGroup s)(?k \<mapsto> i)) ((check_pool s)[i := (ck_reference (wc_checks s ! i), Leading ())])"
      using assms(1) i well_led_lead [of availability_key "wc_requestGroup s" "check_pool s" i "()"] None by (simp add: flights_ok_def)
    moreover have "well_led alternative_key ((wc_requestGroup s)(?k \<mapsto> i)) (admission_pool s)"
      using assms(1) by (intro well_led_other) (simp_all add: flights_ok_def)
    moreover have "check_pool ?s = check_pool s" "admission_pool ?s = admission_pool s"
      by (simp_all add: check_pool_def admission_pool_def)
    ultimately show ?thesis using None i by (simp add: check_do_def flights_ok_def)
  qed
qed

lemma flights_admit_do:
  assumes "flights_ok s" and "at_admission s i Missed"
  shows "flights_ok (admit_do i s)"
proof -
  let ?k = "alternative_key (an_image (wc_admissions s ! i))"
  have i: "i < length (wc_admissions s)" "an_stage (wc_admissions s ! i) = Missed" using assms(2) by (simp_all add: at_admission_def)
  show ?thesis
  proof (cases "wc_requestGroup s ?k")
    case (Some j)
    with flights_set_admission [OF assms(1) i(1), of Joined] i(2) show ?thesis by (simp add: admit_do_def)
  next
    case None
    let ?s = "s\<lparr>wc_requestGroup := (wc_requestGroup s)(?k \<mapsto> i)\<rparr>"
    have "well_led alternative_key ((wc_requestGroup s)(?k \<mapsto> i)) ((admission_pool s)[i := (an_image (wc_admissions s ! i), Leading None)])"
      using assms(1) i well_led_lead [of alternative_key "wc_requestGroup s" "admission_pool s" i None] None by (simp add: flights_ok_def)
    moreover have "well_led availability_key ((wc_requestGroup s)(?k \<mapsto> i)) (check_pool s)"
      using assms(1) by (intro well_led_other) (simp_all add: flights_ok_def)
    moreover have "check_pool ?s = check_pool s" "admission_pool ?s = admission_pool s"
      by (simp_all add: check_pool_def admission_pool_def)
    ultimately show ?thesis using None i by (simp add: admit_do_def flights_ok_def)
  qed
qed

lemma flights_check_answer:
  assumes "flights_ok s"
  shows "flights_ok (check_answer i err s)"
proof -
  let ?r = "ck_reference (wc_checks s ! i)"
  have "check_pool (check_answer i err s) = map (land ?r err) (check_pool s)"
    unfolding check_pool_def deliver_check_pool [symmetric] by (simp add: check_answer_def Let_def)
  moreover have "admission_pool (check_answer i err s) = admission_pool s"
    "wc_requestGroup (check_answer i err s) = (wc_requestGroup s)(availability_key ?r := None)"
    by (simp_all add: check_answer_def admission_pool_def Let_def)
  ultimately show ?thesis
    using assms well_led_land [of availability_key "wc_requestGroup s" "check_pool s" ?r err]
    by (simp add: flights_ok_def well_led_other)
qed

lemma flights_end_admission:
  assumes "flights_ok s"
  shows "flights_ok (end_admission img r s)"
proof -
  have "admission_pool (end_admission img r s) = map (land img r) (admission_pool s)"
    unfolding admission_pool_def deliver_admission_pool [symmetric] by (simp add: end_admission_def)
  moreover have "check_pool (end_admission img r s) = check_pool s"
    "wc_requestGroup (end_admission img r s) = (wc_requestGroup s)(alternative_key img := None)"
    by (simp_all add: end_admission_def check_pool_def)
  ultimately show ?thesis
    using assms well_led_land [of alternative_key "wc_requestGroup s" "admission_pool s" img r]
    by (simp add: flights_ok_def well_led_other)
qed

lemma flights_admit_build:
  assumes "flights_ok s" and "at_admission s i (Leading None)"
  shows "flights_ok (admit_build i s)"
proof (cases "an_build (wc_admissions s ! i)")
  case (Inl e)
  then show ?thesis using flights_end_admission [OF assms(1)] by (simp add: admit_build_def Let_def)
next
  case (Inr imgs)
  let ?new = "start_checks (wc_admissions s ! i) imgs" and ?n = "length (wc_checks s)"
  let ?s = "s\<lparr>wc_checks := wc_checks s @ ?new\<rparr>"
  have i: "i < length (wc_admissions ?s)" "leading (an_stage (wc_admissions s ! i))" using assms(2) by (simp_all add: at_admission_def)
  have "\<forall>p\<in>set (map (\<lambda>c. (ck_reference c, ck_stage c)) ?new). snd p = Lookup" by (auto simp: start_checks_def)
  then have "well_led availability_key (wc_requestGroup s) (check_pool ?s)"
    using assms(1) well_led_append unfolding check_pool_append flights_ok_def by blast
  moreover have pool: "admission_pool ?s = admission_pool s" by (simp add: admission_pool_def)
  moreover have "well_led alternative_key (wc_requestGroup s)
      ((admission_pool s)[i := (an_image (wc_admissions s ! i), Leading (Some [?n..<?n + length ?new]))])"
    using assms(1) i well_led_next [of alternative_key "wc_requestGroup s" "admission_pool s" i] by (simp add: flights_ok_def)
  moreover have "admit_build i s = set_admission i (Leading (Some [?n..<?n + length ?new])) ?s"
    using Inr by (simp add: admit_build_def Let_def)
  ultimately show ?thesis using i(1) by (simp add: flights_ok_def)
qed

lemma wstep_flights:
  assumes "flights_ok s" and "wstep a s = Some s'"
  shows "flights_ok s'"
proof (cases a)
  case (CheckLookup i)
  with assms show ?thesis
    by (auto simp: check_lookup_def at_check_def intro!: flights_set_check split: if_splits option.splits)
next
  case (CheckDo i)
  with assms flights_check_do [of s i] show ?thesis by (auto split: if_splits)
next
  case (CheckAnswer i e)
  with assms flights_check_answer [of s i e] show ?thesis by (auto split: if_splits)
next
  case (AdmitLookup i)
  with assms show ?thesis
    by (auto simp: admit_lookup_def at_admission_def intro!: flights_set_admission split: if_splits option.splits)
next
  case (AdmitDo i)
  with assms flights_admit_do [of s i] show ?thesis by (auto split: if_splits)
next
  case (AdmitBuild i)
  with assms flights_admit_build [of s i] show ?thesis by (auto split: if_splits)
next
  case (AdmitDecide i)
  with assms show ?thesis
    by (auto simp: admit_decide_def Let_def intro!: flights_end_admission split: if_splits stage.splits option.splits)
next
  case (Admit img build secrets)
  have "admission_pool (s\<lparr>wc_admissions := wc_admissions s @ [x]\<rparr>) = admission_pool s @ [(an_image x, an_stage x)]"
    "check_pool (s\<lparr>wc_admissions := wc_admissions s @ [x]\<rparr>) = check_pool s" for x
    by (simp_all add: admission_pool_def check_pool_def)
  with Admit assms show ?thesis by (auto simp: flights_ok_def intro!: well_led_append)
qed (use assms in auto)

lemma wrun_flights: "flights_ok s \<Longrightarrow> wrun as s = Some s' \<Longrightarrow> flights_ok s'"
  by (induction as arbitrary: s) (auto dest: wstep_flights split: option.splits)

lemma no_admissions_flights [simp]: "flights_ok no_admissions"
  by (simp add: flights_ok_def no_admissions_def check_pool_def admission_pool_def well_led_def)


section \<open>Nobody waits for ever\<close>

text \<open>The checks a leading admission waits for exist.\<close>

definition children_ok :: "WebhookShared \<Rightarrow> bool" where
  "children_ok s \<longleftrightarrow> (\<forall>a\<in>set (wc_admissions s). \<forall>is. an_stage a = Leading (Some is) \<longrightarrow> (\<forall>c\<in>set is. c < length (wc_checks s)))"

lemma length_check_ops [simp]:
  "length (wc_checks (set_check i p s)) = length (wc_checks s)"
  "length (wc_checks (set_admission i q s)) = length (wc_checks s)"
  "wc_admissions (set_check i p s) = wc_admissions s" "wc_checks (set_admission i q s) = wc_checks s"
  by (simp_all add: set_check_def set_admission_def)

lemma children_set_admission:
  assumes "children_ok s" and "i < length (wc_admissions s)"
    and "\<And>is. p = Leading (Some is) \<Longrightarrow> \<forall>c\<in>set is. c < length (wc_checks s)"
  shows "children_ok (set_admission i p s)"
  using assms by (auto simp: children_ok_def set_admission_def dest!: set_update_subset_insert [THEN subsetD])

lemma children_end_admission: "children_ok s \<Longrightarrow> children_ok (end_admission img r s)"
  by (auto simp: children_ok_def end_admission_def deliver_admission_def split: if_splits)

lemma children_more:
  "children_ok s \<Longrightarrow> wc_admissions s' = wc_admissions s \<Longrightarrow> length (wc_checks s) \<le> length (wc_checks s') \<Longrightarrow> children_ok s'"
  by (force simp: children_ok_def)

lemma wstep_children:
  assumes "children_ok s" and "wstep a s = Some s'"
  shows "children_ok s'"
proof (cases a)
  case (CheckLookup i)
  with assms show ?thesis
    by (auto simp: check_lookup_def intro!: children_more [OF assms(1)] split: if_splits option.splits)
next
  case (CheckDo i)
  with assms show ?thesis
    by (auto simp: check_do_def Let_def intro!: children_more [OF assms(1)] split: if_splits option.splits)
next
  case (CheckAnswer i e)
  with assms show ?thesis
    by (auto simp: check_answer_def Let_def intro!: children_more [OF assms(1)] split: if_splits)
next
  case (AdmitLookup i)
  with assms show ?thesis
    by (auto simp: admit_lookup_def at_admission_def intro!: children_set_admission split: if_splits option.splits)
next
  case (AdmitDo i)
  have "children_ok (s\<lparr>wc_requestGroup := g\<rparr>)" for g by (rule children_more [OF assms(1)]) simp_all
  with AdmitDo assms show ?thesis
    by (auto simp: admit_do_def at_admission_def Let_def intro!: children_set_admission split: if_splits option.splits)
next
  case (AdmitBuild i)
  have "children_ok (s\<lparr>wc_checks := wc_checks s @ new\<rparr>)" for new by (rule children_more [OF assms(1)]) simp_all
  with AdmitBuild assms show ?thesis
    by (auto simp: admit_build_def at_admission_def Let_def intro!: children_set_admission children_end_admission
        split: if_splits sum.splits)
next
  case (AdmitDecide i)
  have "children_ok (s\<lparr>wc_alternativeCache := ac\<rparr>)" for ac by (rule children_more [OF assms(1)]) simp_all
  with AdmitDecide assms show ?thesis
    by (auto simp: admit_decide_def Let_def intro!: children_end_admission split: if_splits stage.splits option.splits)
qed (use assms in \<open>auto simp: children_ok_def\<close>)

lemma wrun_children: "children_ok s \<Longrightarrow> wrun as s = Some s' \<Longrightarrow> children_ok s'"
  by (induction as arbitrary: s) (auto dest: wstep_children split: option.splits)

fun returned :: "('d, 'r) stage \<Rightarrow> bool" where
  "returned (Returned _) = True"
| "returned _ = False"

definition all_returned :: "WebhookShared \<Rightarrow> bool" where
  "all_returned s \<longleftrightarrow> list_all (\<lambda>c. returned (ck_stage c)) (wc_checks s) \<and> list_all (\<lambda>a. returned (an_stage a)) (wc_admissions s)"

lemma returned_iff: "returned p \<longleftrightarrow> (\<exists>r. p = Returned r)"
  by (cases p) auto

lemma all_returned_iff:
  "all_returned s \<longleftrightarrow> (\<forall>c\<in>set (wc_checks s). \<exists>r. ck_stage c = Returned r) \<and> (\<forall>a\<in>set (wc_admissions s). \<exists>r. an_stage a = Returned r)"
  by (simp add: all_returned_def list_all_iff returned_iff)

lemma decide_returned:
  "\<forall>i\<in>set is. \<exists>r. ck_stage (checks ! i) = Returned r \<Longrightarrow> decide checks is \<noteq> None"
  by (induction "is") (auto split: option.splits)

lemma check_can_proceed:
  assumes "flights_ok s" and "i < length (wc_checks s)" and "\<nexists>r. ck_stage (wc_checks s ! i) = Returned r"
  shows "\<exists>a s'. proceeds a \<and> wstep a s = Some s'"
proof (cases "ck_stage (wc_checks s ! i)")
  case Lookup
  with assms(2) have "wstep (CheckLookup i) s \<noteq> None" by (simp add: at_check_def)
  then show ?thesis by (metis not_None_eq proceeds.simps(4))
next
  case Missed
  with assms(2) have "wstep (CheckDo i) s \<noteq> None" by (simp add: at_check_def)
  then show ?thesis by (metis not_None_eq proceeds.simps(5))
next
  case (Leading u)
  with assms(2) have "wstep (CheckAnswer i None) s \<noteq> None" by (simp add: at_check_def)
  then show ?thesis by (metis not_None_eq proceeds.simps(6))
next
  case Joined
  with assms(1,2) have "has_leader (check_pool s) (ck_reference (wc_checks s ! i))"
    by (auto simp: flights_ok_def well_led_def)
  then obtain j where "j < length (wc_checks s)" "leading (ck_stage (wc_checks s ! j))" by (auto simp: has_leader_def)
  then have "wstep (CheckAnswer j None) s \<noteq> None" by (cases "ck_stage (wc_checks s ! j)") (simp_all add: at_check_def)
  then show ?thesis by (metis not_None_eq proceeds.simps(6))
qed (use assms(3) in blast)

lemma leader_can_proceed:
  assumes "children_ok s" and "\<forall>c\<in>set (wc_checks s). \<exists>r. ck_stage c = Returned r"
    and "i < length (wc_admissions s)" and "leading (an_stage (wc_admissions s ! i))"
  shows "\<exists>a s'. proceeds a \<and> wstep a s = Some s'"
proof -
  from assms(4) obtain d where d: "an_stage (wc_admissions s ! i) = Leading d" by (cases "an_stage (wc_admissions s ! i)") auto
  show ?thesis
  proof (cases d)
    case None
    with d assms(3) have "wstep (AdmitBuild i) s \<noteq> None" by (simp add: at_admission_def)
    then show ?thesis by (metis not_None_eq proceeds.simps(9))
  next
    case (Some kids)
    have "\<forall>c\<in>set kids. c < length (wc_checks s)" using assms(1) d Some nth_mem [OF assms(3)] unfolding children_ok_def by blast
    with assms(2) have "decide (wc_checks s) kids \<noteq> None" by (intro decide_returned) simp
    with d Some assms(3) have "wstep (AdmitDecide i) s \<noteq> None" by auto
    then show ?thesis by (metis not_None_eq proceeds.simps(10))
  qed
qed

lemma somebody_can_proceed:
  assumes "flights_ok s" and "children_ok s" and "\<not> all_returned s"
  shows "\<exists>a s'. proceeds a \<and> wstep a s = Some s'"
proof (cases "\<forall>c\<in>set (wc_checks s). \<exists>r. ck_stage c = Returned r")
  case False
  with check_can_proceed [OF assms(1)] show ?thesis by (auto simp: in_set_conv_nth)
next
  case True
  with assms(3) obtain i where i: "i < length (wc_admissions s)" "\<nexists>r. an_stage (wc_admissions s ! i) = Returned r"
    by (auto simp: all_returned_iff in_set_conv_nth)
  note leader = leader_can_proceed [OF assms(2) True]
  show ?thesis
  proof (cases "an_stage (wc_admissions s ! i)")
    case Lookup
    with i have "wstep (AdmitLookup i) s \<noteq> None" by (simp add: at_admission_def)
    then show ?thesis by (metis not_None_eq proceeds.simps(7))
  next
    case Missed
    with i have "wstep (AdmitDo i) s \<noteq> None" by (simp add: at_admission_def)
    then show ?thesis by (metis not_None_eq proceeds.simps(8))
  next
    case (Leading d)
    with i leader show ?thesis by simp
  next
    case Joined
    with i assms(1) have "has_leader (admission_pool s) (an_image (wc_admissions s ! i))"
      by (auto simp: flights_ok_def well_led_def)
    with leader show ?thesis by (auto simp: has_leader_def)
  qed (use i(2) in blast)
qed

section \<open>Every admission ends\<close>

text \<open>What a goroutine has left to do, at most.\<close>

definition check_weight :: "(unit, error option) stage \<Rightarrow> nat" where
  "check_weight p = (case p of Lookup \<Rightarrow> 3 | Missed \<Rightarrow> 2 | Leading _ \<Rightarrow> 1 | Joined \<Rightarrow> 0 | Returned _ \<Rightarrow> 0)"

definition build_size :: "AlternativeImage list result \<Rightarrow> nat" where
  "build_size build = (case build of Inl _ \<Rightarrow> 0 | Inr imgs \<Rightarrow> length imgs)"

text \<open>The actions an admission can cause: its own and three for each check it may start.\<close>

definition admission_weight ::
  "AlternativeImage list result \<Rightarrow> (nat list option, (AlternativeImage option \<times> nat) result) stage \<Rightarrow> nat" where
  "admission_weight build p =
     (case p of Lookup \<Rightarrow> 4 + 3 * build_size build | Missed \<Rightarrow> 3 + 3 * build_size build
      | Leading None \<Rightarrow> 2 + 3 * build_size build | Leading (Some _) \<Rightarrow> 1 | Joined \<Rightarrow> 0 | Returned _ \<Rightarrow> 0)"

definition weight :: "WebhookShared \<Rightarrow> nat" where
  "weight s = sum_list (map (check_weight \<circ> ck_stage) (wc_checks s))
     + sum_list (map (\<lambda>a. admission_weight (an_build a) (an_stage a)) (wc_admissions s))"

fun arrival_weight :: "action \<Rightarrow> nat" where
  "arrival_weight (Admit _ build _) = 4 + 3 * build_size build"
| "arrival_weight _ = 0"

lemma sum_list_map_update:
  fixes f :: "'a \<Rightarrow> nat"
  shows "i < length xs \<Longrightarrow> sum_list (map f (xs[i := x])) + f (xs ! i) = sum_list (map f xs) + f x"
proof (induction xs arbitrary: i)
  case Nil
  then show ?case by simp
next
  case (Cons y ys)
  then show ?case by (cases i) (simp_all add: add.assoc add.left_commute)
qed

lemma sum_list_map_decreases:
  fixes f :: "'a \<Rightarrow> nat"
  assumes "\<And>x. x \<in> set xs \<Longrightarrow> f (g x) \<le> f x" and "i < length xs" and "f (g (xs ! i)) < f (xs ! i)"
  shows "sum_list (map f (map g xs)) < sum_list (map f xs)"
  using assms
proof (induction xs arbitrary: i)
  case Nil
  then show ?case by simp
next
  case (Cons x xs)
  have le: "sum_list (map f (map g xs)) \<le> sum_list (map f xs)"
    using Cons.prems(1) by (induction xs) (auto intro: add_mono)
  show ?case
  proof (cases i)
    case 0
    with Cons.prems(3) le show ?thesis by simp
  next
    case (Suc j)
    with Cons.IH [of j] Cons.prems have "sum_list (map f (map g xs)) < sum_list (map f xs)" by simp
    moreover have "f (g x) \<le> f x" using Cons.prems(1) by simp
    ultimately show ?thesis by simp
  qed
qed

lemma weight_set_check:
  assumes "i < length (wc_checks s)" and "check_weight p < check_weight (ck_stage (wc_checks s ! i))"
  shows "weight (set_check i p s) < weight s"
  using assms sum_list_map_update [OF assms(1), of "check_weight \<circ> ck_stage" "(wc_checks s ! i)\<lparr>ck_stage := p\<rparr>"]
  by (simp add: weight_def set_check_def)

lemma weight_set_admission:
  assumes "i < length (wc_admissions s)"
  shows "weight (set_admission i p s) + admission_weight (an_build (wc_admissions s ! i)) (an_stage (wc_admissions s ! i))
    = weight s + admission_weight (an_build (wc_admissions s ! i)) p"
  using sum_list_map_update [OF assms, of "\<lambda>a. admission_weight (an_build a) (an_stage a)" "(wc_admissions s ! i)\<lparr>an_stage := p\<rparr>"]
  by (simp add: weight_def set_admission_def)

lemma weight_ignores [simp]:
  "weight (s\<lparr>wc_requestGroup := g\<rparr>) = weight s" "weight (s\<lparr>wc_checkCache := cc\<rparr>) = weight s"
  "weight (s\<lparr>wc_alternativeCache := ac\<rparr>) = weight s"
  by (simp_all add: weight_def)

lemma weight_check_answer:
  assumes "at_check s i (Leading ())"
  shows "weight (check_answer i err s) < weight s"
proof -
  let ?r = "ck_reference (wc_checks s ! i)"
  have "sum_list (map (check_weight \<circ> ck_stage) (map (deliver_check ?r err) (wc_checks s))) < sum_list (map (check_weight \<circ> ck_stage) (wc_checks s))"
    by (rule sum_list_map_decreases [of _ _ _ i])
      (use assms in \<open>auto simp: deliver_check_def check_weight_def at_check_def\<close>)
  then show ?thesis by (simp add: weight_def check_answer_def Let_def)
qed

lemma weight_end_admission:
  assumes "at_admission s i (Leading d)"
  shows "weight (end_admission (an_image (wc_admissions s ! i)) r s) < weight s"
proof -
  let ?w = "\<lambda>a. admission_weight (an_build a) (an_stage a)" and ?d = "deliver_admission (an_image (wc_admissions s ! i)) r"
  have "?w (?d a) \<le> ?w a" for a by (simp add: deliver_admission_def admission_weight_def)
  moreover have "?w (?d (wc_admissions s ! i)) < ?w (wc_admissions s ! i)"
    using assms by (cases d) (simp_all add: at_admission_def deliver_admission_def admission_weight_def)
  ultimately have "sum_list (map ?w (map ?d (wc_admissions s))) < sum_list (map ?w (wc_admissions s))"
    using assms by (intro sum_list_map_decreases [of _ _ _ i]) (auto simp: at_admission_def)
  then show ?thesis by (simp add: weight_def end_admission_def)
qed

lemma weight_admit_build:
  assumes "at_admission s i (Leading None)"
  shows "weight (admit_build i s) < weight s"
proof (cases "an_build (wc_admissions s ! i)")
  case (Inl e)
  then show ?thesis using weight_end_admission [OF assms] by (simp add: admit_build_def Let_def)
next
  case (Inr imgs)
  let ?new = "start_checks (wc_admissions s ! i) imgs" and ?n = "length (wc_checks s)"
  let ?s = "s\<lparr>wc_checks := wc_checks s @ ?new\<rparr>"
  have "sum_list (map (check_weight \<circ> ck_stage) ?new) \<le> 3 * length imgs"
    by (simp add: start_checks_def check_weight_def comp_def sum_list_triv)
  then have "weight ?s \<le> weight s + 3 * length imgs" by (simp add: weight_def)
  moreover have "admit_build i s = set_admission i (Leading (Some [?n..<?n + length ?new])) ?s"
    using Inr by (simp add: admit_build_def Let_def)
  ultimately show ?thesis
    using weight_set_admission [of i ?s "Leading (Some [?n..<?n + length ?new])"] assms Inr
    by (simp add: at_admission_def admission_weight_def build_size_def)
qed

lemma wstep_weight:
  assumes "wstep a s = Some s'"
  shows "(if proceeds a then Suc (weight s') else weight s') \<le> weight s + arrival_weight a"
proof (cases a)
  case (CheckLookup i)
  with assms show ?thesis
    by (auto simp: check_lookup_def at_check_def check_weight_def Suc_le_eq intro!: weight_set_check split: if_splits option.splits)
next
  case (CheckDo i)
  have "weight (set_check i p (s\<lparr>wc_requestGroup := g\<rparr>)) < weight (s\<lparr>wc_requestGroup := g\<rparr>)" if "at_check s i Missed" "check_weight p \<le> 1" for p g
    using that by (intro weight_set_check) (simp_all add: at_check_def check_weight_def)
  with CheckDo assms show ?thesis
    by (auto simp: check_do_def Let_def Suc_le_eq at_check_def check_weight_def intro!: weight_set_check split: if_splits option.splits)
next
  case (CheckAnswer i e)
  with assms weight_check_answer [of s i e] show ?thesis by (auto split: if_splits)
next
  case (AdmitLookup i)
  have "weight (set_admission i p s) < weight s" if "at_admission s i Lookup" "p = Missed \<or> (\<exists>r. p = Returned r)" for p
    using that weight_set_admission [of i s p] by (auto simp: at_admission_def admission_weight_def)
  with AdmitLookup assms show ?thesis by (auto simp: admit_lookup_def Suc_le_eq split: if_splits option.splits)
next
  case (AdmitDo i)
  with assms weight_set_admission [of i s Joined]
    weight_set_admission [of i "s\<lparr>wc_requestGroup := (wc_requestGroup s)(alternative_key (an_image (wc_admissions s ! i)) \<mapsto> i)\<rparr>" "Leading None"]
  show ?thesis by (auto simp: admit_do_def at_admission_def admission_weight_def Let_def split: if_splits option.splits)
next
  case (AdmitBuild i)
  with assms weight_admit_build [of s i] show ?thesis by (auto split: if_splits)
next
  case (AdmitDecide i)
  with assms obtain kids best where d: "at_admission s i (Leading (Some kids))" "s' = admit_decide i best s"
    by (auto simp: at_admission_def split: if_splits stage.splits option.splits)
  then have "at_admission (s\<lparr>wc_alternativeCache := ac\<rparr>) i (Leading (Some kids))" for ac by (simp add: at_admission_def)
  from weight_end_admission [OF this] have "weight s' < weight s" unfolding d(2) admit_decide_def Let_def by simp
  with AdmitDecide show ?thesis by simp
qed (use assms in \<open>auto simp: weight_def admission_weight_def\<close>)

lemma wrun_weight:
  "wrun as s = Some s' \<Longrightarrow> length (filter proceeds as) + weight s' \<le> weight s + sum_list (map arrival_weight as)"
proof (induction as arbitrary: s)
  case Nil
  then show ?case by simp
next
  case (Cons a as)
  from Cons.prems obtain s1 where s1: "wstep a s = Some s1" "wrun as s1 = Some s'" by (auto split: option.splits)
  from Cons.IH [OF s1(2)] wstep_weight [OF s1(1)] show ?case by (auto split: if_splits)
qed

text \<open>
  C11. Every admission ends: in any interleaving, with cache entries expiring at will, the
  goroutines perform at most four actions per admission and three per alternative it lists, and
  as long as one of them has not returned some goroutine can go on; so no flight is left behind
  and none waits on another in a circle.
\<close>

theorem admissions_terminate:
  assumes "wrun as no_admissions = Some s"
  shows "length (filter proceeds as) \<le> sum_list (map arrival_weight as)
    \<and> ((\<forall>a s'. wstep a s = Some s' \<longrightarrow> \<not> proceeds a) \<longleftrightarrow> all_returned s)"
proof
  have "weight no_admissions = 0" by (simp add: weight_def no_admissions_def)
  with wrun_weight [OF assms] show "length (filter proceeds as) \<le> sum_list (map arrival_weight as)" by simp
  have ok: "flights_ok s" "children_ok s"
    using wrun_flights [OF no_admissions_flights assms] wrun_children [OF _ assms]
    by (simp_all add: children_ok_def no_admissions_def)
  have "\<not> proceeds a" if "all_returned s" "wstep a s = Some s'" for a s'
  proof -
    have "\<not> at_check s i p" if "\<nexists>r. p = Returned r" for i p
      using \<open>all_returned s\<close> that unfolding all_returned_iff at_check_def by (metis nth_mem)
    moreover have "\<not> at_admission s i p" if "\<nexists>r. p = Returned r" for i p
      using \<open>all_returned s\<close> that unfolding all_returned_iff at_admission_def by (metis nth_mem)
    ultimately show ?thesis using that(2)
      by (cases a) (auto simp: at_admission_def split: if_splits stage.splits)
  qed
  with somebody_can_proceed [OF ok] show "(\<forall>a s'. wstep a s = Some s' \<longrightarrow> \<not> proceeds a) \<longleftrightarrow> all_returned s" by blast
qed

end
