(* ===== verification/FlightAnswers.thy ===== *)
theory FlightAnswers
  imports FlightsProps
begin

text \<open>
  What concurrent admissions are told: every result is the answer of a check that was made, the
  sequential reading of a check is one of its runs, and the pod whose credentials were used may
  be another one. The witnesses of the properties of concurrent admissions stand at the end.
\<close>

section \<open>Answers are real\<close>

text \<open>A check of the image was made, and it succeeded or not as \<open>ok\<close> says.\<close>

type_synonym answers = "(string \<times> Secret list \<times> error option) list"

definition answered :: "answers \<Rightarrow> string \<Rightarrow> bool \<Rightarrow> bool" where
  "answered ans r ok \<longleftrightarrow> (\<exists>secrets e. (r, secrets, e) \<in> set ans \<and> (ok \<longleftrightarrow> e = None))"

definition check_real :: "answers \<Rightarrow> CheckRun \<Rightarrow> bool" where
  "check_real ans c \<longleftrightarrow> (\<forall>e. ck_stage c = Returned e \<longrightarrow> answered ans (ck_reference c) (e = None))"

definition choice_real :: "answers \<Rightarrow> AlternativeImage option \<times> nat \<Rightarrow> bool" where
  "choice_real ans choice \<longleftrightarrow> (\<forall>alt. fst choice = Some alt \<longrightarrow> answered ans (alt_Reference alt) True)"

definition admission_real :: "answers \<Rightarrow> AdmissionRun \<Rightarrow> bool" where
  "admission_real ans a \<longleftrightarrow> (\<forall>choice. an_stage a = Returned (Inr choice) \<longrightarrow> choice_real ans choice)"

definition answers_ok :: "WebhookShared \<Rightarrow> bool" where
  "answers_ok s \<longleftrightarrow>
     (\<forall>r b. wc_checkCache s r = Some b \<longrightarrow> answered (wc_answers s) r b)
     \<and> (\<forall>c\<in>set (wc_checks s). check_real (wc_answers s) c)
     \<and> (\<forall>img choice. wc_alternativeCache s img = Some choice \<longrightarrow> choice_real (wc_answers s) choice)
     \<and> (\<forall>a\<in>set (wc_admissions s). admission_real (wc_answers s) a)"

lemma real_Cons:
  "answered ans r ok \<Longrightarrow> answered (x # ans) r ok" "check_real ans c \<Longrightarrow> check_real (x # ans) c"
  "choice_real ans choice \<Longrightarrow> choice_real (x # ans) choice" "admission_real ans a \<Longrightarrow> admission_real (x # ans) a"
proof -
  show a: "answered ans r ok \<Longrightarrow> answered (x # ans) r ok" for r ok unfolding answered_def by (metis list.set_intros(2))
  then show c: "choice_real ans choice \<Longrightarrow> choice_real (x # ans) choice" for choice by (simp add: choice_real_def)
  from a show "check_real ans c \<Longrightarrow> check_real (x # ans) c" by (simp add: check_real_def)
  from c show "admission_real ans a \<Longrightarrow> admission_real (x # ans) a" by (simp add: admission_real_def)
qed

lemma set_same_answers [simp]:
  "wc_answers (set_check i p s) = wc_answers s" "wc_answers (set_admission i q s) = wc_answers s"
  "wc_answers (end_admission img r s) = wc_answers s"
  by (simp_all add: set_check_def set_admission_def end_admission_def)

lemma answers_set_check:
  assumes "answers_ok s" and "\<And>e. p = Returned e \<Longrightarrow> answered (wc_answers s) (ck_reference (wc_checks s ! i)) (e = None)"
  shows "answers_ok (set_check i p s)"
proof -
  have "check_real (wc_answers s) ((wc_checks s ! i)\<lparr>ck_stage := p\<rparr>)"
    using assms(2) by (simp add: check_real_def ck_reference_def)
  then have "\<forall>c\<in>set (wc_checks (set_check i p s)). check_real (wc_answers s) c"
    using assms(1) by (auto simp: answers_ok_def set_check_def dest!: set_update_subset_insert [THEN subsetD])
  then show ?thesis using assms(1) by (simp add: answers_ok_def) (simp add: set_check_def)
qed

lemma answers_set_admission:
  assumes "answers_ok s" and "\<And>choice. p = Returned (Inr choice) \<Longrightarrow> choice_real (wc_answers s) choice"
  shows "answers_ok (set_admission i p s)"
proof -
  have "admission_real (wc_answers s) ((wc_admissions s ! i)\<lparr>an_stage := p\<rparr>)"
    using assms(2) by (simp add: admission_real_def)
  then have "\<forall>a\<in>set (wc_admissions (set_admission i p s)). admission_real (wc_answers s) a"
    using assms(1) by (auto simp: answers_ok_def set_admission_def dest!: set_update_subset_insert [THEN subsetD])
  then show ?thesis using assms(1) by (simp add: answers_ok_def) (simp add: set_admission_def)
qed

lemma answers_check_answer:
  assumes "answers_ok s"
  shows "answers_ok (check_answer i err s)"
proof -
  let ?r = "ck_reference (wc_checks s ! i)"
  let ?ans = "(?r, ck_secrets (wc_checks s ! i), err) # wc_answers s"
  have new: "answered ?ans ?r (err = None)" by (auto simp: answered_def)
  have "check_real ?ans (deliver_check ?r err c)" if "check_real (wc_answers s) c" for c
    using real_Cons(2) [OF that] new by (simp add: deliver_check_def check_real_def ck_reference_def)
  then have "\<forall>c\<in>set (wc_checks (check_answer i err s)). check_real ?ans c"
    using assms by (simp add: answers_ok_def check_answer_def Let_def)
  moreover have "\<forall>r b. wc_checkCache (check_answer i err s) r = Some b \<longrightarrow> answered ?ans r b"
    using assms new real_Cons(1) by (auto simp: answers_ok_def check_answer_def Let_def)
  moreover have "\<forall>a\<in>set (wc_admissions s). admission_real ?ans a"
    "\<forall>img choice. wc_alternativeCache s img = Some choice \<longrightarrow> choice_real ?ans choice"
    using assms real_Cons(3,4) unfolding answers_ok_def by blast+
  moreover have "wc_answers (check_answer i err s) = ?ans" "wc_admissions (check_answer i err s) = wc_admissions s"
    "wc_alternativeCache (check_answer i err s) = wc_alternativeCache s" by (simp_all add: check_answer_def Let_def)
  ultimately show ?thesis unfolding answers_ok_def by simp
qed

lemma answers_end_admission:
  assumes "answers_ok s" and "\<And>choice. r = Inr choice \<Longrightarrow> choice_real (wc_answers s) choice"
  shows "answers_ok (end_admission img r s)"
proof -
  have "admission_real (wc_answers s) (deliver_admission img r a)" if "admission_real (wc_answers s) a" for a
    using that assms(2) by (simp add: deliver_admission_def admission_real_def)
  then have "\<forall>a\<in>set (wc_admissions (end_admission img r s)). admission_real (wc_answers s) a"
    using assms(1) by (simp add: answers_ok_def end_admission_def)
  then show ?thesis using assms(1) by (simp add: answers_ok_def) (simp add: end_admission_def)
qed

lemma decide_real:
  assumes "answers_ok s" and "decide (wc_checks s) kids = Some (Some alt)" and "\<forall>i\<in>set kids. i < length (wc_checks s)"
  shows "answered (wc_answers s) (alt_Reference alt) True"
  using assms(2,3)
proof (induction kids)
  case Nil
  then show ?case by simp
next
  case (Cons i kids)
  have "check_real (wc_answers s) (wc_checks s ! i)" using assms(1) Cons.prems(2) by (simp add: answers_ok_def)
  with Cons show ?case by (auto simp: check_real_def ck_reference_def split: stage.splits option.splits)
qed

lemma wstep_answers:
  assumes "answers_ok s" and "children_ok s" and "wstep a s = Some s'"
  shows "answers_ok s'"
proof (cases a)
  case (CheckLookup i)
  have "answered (wc_answers s) r (b \<longleftrightarrow> True)" if "wc_checkCache s r = Some b" for r b
    using that assms(1) by (simp add: answers_ok_def)
  with CheckLookup assms(1,3) show ?thesis
    by (auto simp: check_lookup_def intro!: answers_set_check split: if_splits option.splits)
next
  case (CheckDo i)
  have "answers_ok (s\<lparr>wc_requestGroup := g\<rparr>)" for g using assms(1) by (simp add: answers_ok_def)
  with CheckDo assms(1,3) show ?thesis
    by (auto simp: check_do_def Let_def intro!: answers_set_check split: if_splits option.splits)
next
  case (CheckAnswer i e)
  with assms answers_check_answer [of s i e] show ?thesis by (auto split: if_splits)
next
  case (AdmitLookup i)
  have "choice_real (wc_answers s) choice" if "wc_alternativeCache s img = Some choice" for img choice
    using that assms(1) unfolding answers_ok_def by blast
  with AdmitLookup assms(1,3) show ?thesis
    by (auto simp: admit_lookup_def intro!: answers_set_admission split: if_splits option.splits)
next
  case (AdmitDo i)
  have "answers_ok (s\<lparr>wc_requestGroup := g\<rparr>)" for g using assms(1) by (simp add: answers_ok_def)
  with AdmitDo assms(1,3) show ?thesis
    by (auto simp: admit_do_def Let_def intro!: answers_set_admission split: if_splits option.splits)
next
  case (AdmitBuild i)
  have "answers_ok (s\<lparr>wc_checks := wc_checks s @ start_checks b imgs\<rparr>)" for b imgs
    using assms(1) by (auto simp: answers_ok_def start_checks_def check_real_def)
  with AdmitBuild assms(1,3) show ?thesis
    by (auto simp: admit_build_def Let_def intro!: answers_set_admission answers_end_admission split: if_splits sum.splits)
next
  case (AdmitDecide i)
  with assms(3) obtain kids best where i: "i < length (wc_admissions s)" "an_stage (wc_admissions s ! i) = Leading (Some kids)"
    "decide (wc_checks s) kids = Some best" "s' = admit_decide i best s"
    by (auto split: if_splits stage.splits option.splits)
  then have "\<forall>c\<in>set kids. c < length (wc_checks s)" using assms(2) nth_mem [OF i(1)] unfolding children_ok_def by blast
  from decide_real [OF assms(1) _ this] i(3) have real: "choice_real (wc_answers s) (best, n)" for n by (auto simp: choice_real_def)
  then have "answers_ok (s\<lparr>wc_alternativeCache := (wc_alternativeCache s)(img \<mapsto> (best, n))\<rparr>)" for img n
    using assms(1) by (simp add: answers_ok_def)
  with real show ?thesis unfolding i(4) admit_decide_def Let_def by (intro answers_end_admission) auto
qed (use assms in \<open>auto simp: answers_ok_def admission_real_def split: if_splits\<close>)

lemma wrun_answers: "answers_ok s \<Longrightarrow> children_ok s \<Longrightarrow> wrun as s = Some s' \<Longrightarrow> answers_ok s'"
  by (induction as arbitrary: s) (auto dest: wstep_answers wstep_children split: option.splits)

text \<open>
  C12. What an admission is told is real: an alternative chosen for a container, from a cache,
  from another admission's flight or from its own, was answered by its registry as available in
  a check made before; and a check that fails does so because a check of that image failed.
\<close>

theorem answers_are_real:
  assumes "wrun as no_admissions = Some s"
  shows "list_all (\<lambda>a. case an_stage a of
        Returned (Inr (Some alt, _)) \<Rightarrow> (\<exists>secrets. (alt_Reference alt, secrets, None) \<in> set (wc_answers s))
      | _ \<Rightarrow> True) (wc_admissions s)
    \<and> list_all (\<lambda>c. case ck_stage c of
        Returned e \<Rightarrow> (\<exists>secrets e'. (ck_reference c, secrets, e') \<in> set (wc_answers s) \<and> (e = None \<longleftrightarrow> e' = None))
      | _ \<Rightarrow> True) (wc_checks s)"
proof -
  have "answers_ok s"
    by (rule wrun_answers [OF _ _ assms]) (simp_all add: answers_ok_def children_ok_def no_admissions_def)
  then show ?thesis
    by (auto simp: answers_ok_def list_all_iff admission_real_def choice_real_def check_real_def answered_def
        split: stage.splits sum.splits option.splits)
qed

section \<open>The sequential check is a run\<close>

lemma undisturbed_check:
  assumes "wc_checkCache s = ws_checkCache st" and "at_check s i Lookup"
    and "wc_requestGroup s (availability_key (ck_reference (wc_checks s ! i))) = None"
    and "checkImageAvailabilityCached env (ck_image (wc_checks s ! i)) secrets st = (err, st')"
    and "ws_checkCache st' (ck_reference (wc_checks s ! i)) \<noteq> None"
  shows "\<exists>as s'. wrun as s = Some s' \<and> at_check s' i (Returned err) \<and> wc_checkCache s' = ws_checkCache st'"
proof (cases "wc_checkCache s (ck_reference (wc_checks s ! i))")
  case (Some b)
  with assms(1,2,4) have "wrun [CheckLookup i] s = Some (set_check i (Returned err) s)" "ws_checkCache st' = ws_checkCache st"
    by (auto simp: check_lookup_def checkImageAvailabilityCached_def ck_reference_def)
  moreover from assms(2) have "at_check (set_check i (Returned err) s) i (Returned err)"
    "wc_checkCache (set_check i (Returned err) s) = wc_checkCache s" by (simp_all add: at_check_def set_check_def)
  ultimately show ?thesis using assms(1) by metis
next
  case None
  let ?c = "wc_checks s ! i"
  have cache: "ws_checkCache st' = (ws_checkCache st)(ck_reference ?c \<mapsto> (err = None))"
    using assms(1,4,5) None
    by (auto simp: checkImageAvailabilityCached_def ck_reference_def Let_def tryCleanupStaleMirrorStatus_def
        split: sum.splits prod.splits if_splits)
  have i: "i < length (wc_checks s)" "ck_stage ?c = Lookup" using assms(2) by (simp_all add: at_check_def)
  let ?s1 = "set_check i Missed s"
  have c1: "wc_checks ?s1 ! i = ?c\<lparr>ck_stage := Missed\<rparr>" "wc_requestGroup ?s1 = wc_requestGroup s"
    "wc_checkCache ?s1 = wc_checkCache s" using i(1) by (simp_all add: set_check_def)
  have r1: "ck_reference (wc_checks ?s1 ! i) = ck_reference ?c" unfolding c1 by (simp add: ck_reference_def)
  let ?s2 = "check_do i ?s1"
  have c2: "wc_checks ?s2 ! i = ?c\<lparr>ck_stage := Leading ()\<rparr>" "wc_checkCache ?s2 = wc_checkCache s"
    "length (wc_checks ?s2) = length (wc_checks s)"
    using i(1) r1 assms(3) by (simp_all add: check_do_def set_check_def ck_reference_def)
  have r2: "ck_reference (wc_checks ?s2 ! i) = ck_reference ?c" unfolding c2 by (simp add: ck_reference_def)
  let ?s3 = "check_answer i err ?s2"
  have "wrun [CheckLookup i, CheckDo i, CheckAnswer i err] s = Some ?s3"
    using i None c1 c2 by (simp add: at_check_def check_lookup_def)
  moreover have "at_check ?s3 i (Returned err)"
    using i(1) c2 r2 by (simp add: at_check_def check_answer_def deliver_check_def Let_def)
  moreover have "wc_checkCache ?s3 = ws_checkCache st'"
    using r2 c2(2) assms(1) cache by (simp add: check_answer_def Let_def)
  ultimately show ?thesis by blast
qed



section \<open>Concrete runs\<close>

text \<open>
  Two pods with the same image are admitted at the same time, the image is gone and its mirror
  is there: the second waits for the first, whose checks end in the order of the mirror first.
\<close>

definition example_alternatives :: "AlternativeImage list" where
  "example_alternatives = [example_image ''r/a'', example_image ''m/a'']"

definition example_interleaving :: "action list" where
  "example_interleaving =
     [Admit ''r/a'' (Inr example_alternatives) [], AdmitLookup 0, Admit ''r/a'' (Inr example_alternatives) [],
      AdmitDo 0, AdmitLookup 1, AdmitDo 1, AdmitBuild 0, CheckLookup 1, CheckLookup 0, CheckDo 0, CheckDo 1,
      CheckAnswer 1 None, ExpireCheck ''m/a'', CheckAnswer 0 (Some (ENotFound ''r/a'')), AdmitDecide 0,
      ExpireAlternative ''r/a'']"

definition after_interleaving :: WebhookShared where
  "after_interleaving = the (wrun example_interleaving no_admissions)"

lemma example_runs: "wrun example_interleaving no_admissions = Some after_interleaving"
proof -
  have "\<not> Option.is_none (wrun example_interleaving no_admissions)" by code_simp
  then show ?thesis by (auto simp: after_interleaving_def Option.is_none_def)
qed


theorem admissions_terminate_witness:
  "length (filter proceeds example_interleaving) = 12 \<and> sum_list (map arrival_weight example_interleaving) = 20
   \<and> all_returned after_interleaving \<and> wstep (AdmitDo 1) after_interleaving = None"
proof -
  have "length (filter proceeds example_interleaving) = 12" "sum_list (map arrival_weight example_interleaving) = 20"
    by code_simp+
  moreover have fin: "all_returned after_interleaving" unfolding after_interleaving_def by code_simp
  moreover from admissions_terminate [OF example_runs] fin have "wstep (AdmitDo 1) after_interleaving = None"
    by (metis not_None_eq proceeds.simps(8))
  ultimately show ?thesis by blast
qed

text \<open>The reference an admission chose.\<close>

definition chosen :: "AdmissionRun \<Rightarrow> string option" where
  "chosen a = (case an_stage a of Returned (Inr (Some alt, _)) \<Rightarrow> Some (alt_Reference alt) | _ \<Rightarrow> None)"

theorem answers_are_real_witness:
  "map chosen (wc_admissions after_interleaving) = [Some ''m/a'', Some ''m/a'']
   \<and> (\<exists>secrets. (''m/a'', secrets, None) \<in> set (wc_answers after_interleaving))"
proof -
  have c: "map chosen (wc_admissions after_interleaving) = [Some ''m/a'', Some ''m/a'']"
    unfolding after_interleaving_def by code_simp
  then obtain x xs alt n where "wc_admissions after_interleaving = x # xs" "an_stage x = Returned (Inr (Some alt, n))"
    "alt_Reference alt = ''m/a''"
    by (auto simp: chosen_def split: stage.splits sum.splits prod.splits option.splits)
  with answers_are_real [OF example_runs] have "\<exists>secrets. (''m/a'', secrets, None) \<in> set (wc_answers after_interleaving)"
    by auto
  with c show ?thesis by blast
qed

text \<open>
  The credentials of the check may be those of another pod: the cache and the flights are
  keyed by the image alone, so that a pod without a pull secret is told that a private image is
  available because a pod with one was.
\<close>

theorem answer_crosses_pods:
  "\<exists>as s. wrun as no_admissions = Some s
    \<and> list_ex (\<lambda>c. ck_stage c = Returned None \<and> ck_secrets c = []
        \<and> filter (\<lambda>(r, secrets, _). r = ck_reference c \<and> secrets = []) (wc_answers s) = []) (wc_checks s)"
proof -
  let ?private = "\<lparr>sec_Name = ''pull'', sec_Namespace = ''team'', sec_UID = [], sec_Type = [], sec_Data = Map.empty, sec_Labels = Map.empty\<rparr>"
  let ?as = "[Admit ''r/a'' (Inr example_alternatives) [?private], AdmitLookup 0, AdmitDo 0, AdmitBuild 0,
    CheckLookup 1, CheckDo 1, Admit ''r/b'' (Inr [example_image ''r/b'', example_image ''m/a'']) [], AdmitLookup 1, AdmitDo 1,
    AdmitBuild 1, CheckLookup 3, CheckDo 3, CheckAnswer 1 None]"
  have "case wrun ?as no_admissions of None \<Rightarrow> False | Some s \<Rightarrow>
      list_ex (\<lambda>c. ck_stage c = Returned None \<and> length (ck_secrets c) = 0
        \<and> length (filter (\<lambda>(r, secrets, _). r = ck_reference c \<and> length secrets = 0) (wc_answers s)) = 0) (wc_checks s)"
    by code_simp
  then show ?thesis by (auto split: option.splits intro!: exI [of _ ?as])
qed

end
