(* ===== verification/StatusPage.thy ===== *)
theory StatusPage
  imports Availability
begin

text \<open>
  \<open>internal/controller/status.go\<close>, the page that lists the monitored images, flat or grouped,
  and the monitoring metrics of \<open>internal/controller/collector.go\<close>. A response is its status
  code with the value handed to the JSON encoder; encoding these values cannot fail.
\<close>

section \<open>RFC 3339\<close>

text \<open>
  \<open>Time.UTC().Format(time.RFC3339)\<close>: the proleptic Gregorian date of the day, counted here from
  1 March of the year 400 before year 0, and the time of day in whole seconds. The times a
  stored object can carry have the years 0 to 9999.
\<close>

definition digit :: "nat \<Rightarrow> char" where
  "digit n = char_of (48 + n mod 10)"

fun decimal :: "nat \<Rightarrow> nat \<Rightarrow> string" where
  "decimal 0 n = []"
| "decimal (Suc w) n = decimal w (n div 10) @ [digit n]"

definition year_width :: "nat \<Rightarrow> nat" where
  "year_width y = (if y < 10000 then 4 else if y < 100000 then 5 else 6)"

definition civil_date :: "int \<Rightarrow> nat \<times> nat \<times> nat" where
  "civil_date days =
     (let z = nat (days + 306 + 146097); era = z div 146097; doe = z mod 146097;
          yoe = (doe - doe div 1460 + doe div 36524 - doe div 146096) div 365;
          doy = doe - (365 * yoe + yoe div 4 - yoe div 100);
          mp = (5 * doy + 2) div 153;
          d = doy - (153 * mp + 2) div 5 + 1;
          m = (if mp < 10 then mp + 3 else mp - 9)
      in (yoe + era * 400 + (if m \<le> 2 then 1 else 0) - 400, m, d))"

definition RFC3339 :: "int \<Rightarrow> string" where
  "RFC3339 t =
     (let secs = t div second; (y, m, d) = civil_date (secs div 86400); s = nat (secs mod 86400)
      in decimal (year_width y) y @ ''-'' @ decimal 2 m @ ''-'' @ decimal 2 d @ ''T''
         @ decimal 2 (s div 3600) @ '':'' @ decimal 2 (s div 60 mod 60) @ '':'' @ decimal 2 (s mod 60) @ ''Z'')"

section \<open>The page\<close>

record statusImage =
  si_CISA :: string
  si_Image :: string
  si_Registry :: string
  si_Status :: string
  si_UnusedSince :: "string option"
  si_LastError :: "error option"
  si_LastMonitor :: "string option"

datatype StatusBody =
    ErrorResponse string
  | GroupsResponse string "(string \<times> statusImage list) list" nat
  | ItemsResponse "statusImage list" nat

record StatusResponse =
  sr_Code :: nat
  sr_Body :: StatusBody

definition page_time :: "mtime \<Rightarrow> string option" where
  "page_time t = (if t \<noteq> None \<and> \<not> mt_IsZero t then Some (RFC3339 (the t)) else None)"

definition status_image :: "string \<Rightarrow> string \<Rightarrow> MonitoredImage \<Rightarrow> statusImage" where
  "status_image cisa registry img =
     \<lparr>si_CISA = cisa, si_Image = mon_Image img, si_Registry = registry,
      si_Status = status_string (mon_Status img), si_UnusedSince = page_time (mon_UnusedSince img),
      si_LastError = mon_LastError img, si_LastMonitor = page_time (mon_LastMonitor img)\<rparr>"

text \<open>The \<open>switch\<close> on \<open>groupBy\<close>: the entry and its key.\<close>

definition grouped :: "string \<Rightarrow> statusImage \<Rightarrow> string \<times> statusImage" where
  "grouped groupBy si =
     (if groupBy = ''cisa'' then (si_CISA si, si\<lparr>si_CISA := []\<rparr>)
      else if groupBy = ''registry'' then (si_Registry si, si\<lparr>si_Registry := []\<rparr>)
      else ([], si))"

text \<open>A missing key of a Go map reads as the nil slice.\<close>

definition append_group ::
  "string \<Rightarrow> statusImage \<Rightarrow> (string \<times> statusImage list) list \<Rightarrow> (string \<times> statusImage list) list" where
  "append_group k si groups =
     AList.update k ((case map_of groups k of None \<Rightarrow> [] | Some xs \<Rightarrow> xs) @ [si]) groups"

text \<open>The state of the loop: groups, items and total. \<open>Inl\<close> is a panic on a reference without a slash.\<close>

type_synonym page = "(string \<times> statusImage list) list \<times> statusImage list \<times> nat"

fun list_images :: "ref_parser \<Rightarrow> string \<Rightarrow> string \<Rightarrow> MonitoredImage list \<Rightarrow> page \<Rightarrow> page result" where
  "list_images parse groupBy cisa [] page = Inr page"
| "list_images parse groupBy cisa (img # imgs) (groups, items, cnt) =
     (case RegistryAndPathFromReference parse (mon_Image img) of
        Inl e \<Rightarrow> if is_panic e then Inl e else list_images parse groupBy cisa imgs (groups, items, cnt)
      | Inr (registry, _) \<Rightarrow>
          (let si = status_image cisa registry img
           in if groupBy \<noteq> []
              then (case grouped groupBy si of
                      (k, si') \<Rightarrow> list_images parse groupBy cisa imgs (append_group k si' groups, items, cnt + 1))
              else list_images parse groupBy cisa imgs (groups, items @ [si], cnt + 1)))"

fun list_cisas ::
  "ref_parser \<Rightarrow> string \<Rightarrow> ClusterImageSetAvailability list \<Rightarrow> page \<Rightarrow> page result" where
  "list_cisas parse groupBy [] page = Inr page"
| "list_cisas parse groupBy (c # cs) page =
     (case list_images parse groupBy (om_Name (cisa_Meta c)) (cisa_Images c) page of
        Inl e \<Rightarrow> Inl e
      | Inr page' \<Rightarrow> list_cisas parse groupBy cs page')"

text \<open>
  \<open>err\<close> renders an error; \<open>list\<close> is the answer to the list call, made only when the parameter
  is valid.
\<close>

definition ServeHTTP ::
  "ref_parser \<Rightarrow> (error \<Rightarrow> string) \<Rightarrow> string \<Rightarrow> ClusterImageSetAvailability list result \<Rightarrow> StatusResponse result" where
  "ServeHTTP parse err groupBy listed =
     (if groupBy \<noteq> [] \<and> groupBy \<noteq> ''cisa'' \<and> groupBy \<noteq> ''registry''
      then Inr \<lparr>sr_Code = 400, sr_Body = ErrorResponse ''groupBy must be \"cisa\" or \"registry\"''\<rparr>
      else
        (case listed of
           Inl e \<Rightarrow> Inr \<lparr>sr_Code = 500, sr_Body =
               ErrorResponse (''failed to list ClusterImageSetAvailability resources: '' @ err e)\<rparr>
         | Inr cisas \<Rightarrow>
             (case list_cisas parse groupBy cisas ([], [], 0) of
                Inl e \<Rightarrow> Inl e
              | Inr (groups, items, cnt) \<Rightarrow>
                  Inr \<lparr>sr_Code = 200,
                    sr_Body = (if groupBy \<noteq> [] then GroupsResponse groupBy groups cnt
                               else ItemsResponse items cnt)\<rparr>)))"

section \<open>The metrics\<close>

text \<open>\<open>counterKey\<close>; the counts are floats in the source, exact up to \<open>2 ^ 53\<close>.\<close>

record counterKey =
  ck_name :: string
  ck_registry :: string
  ck_status :: ImageAvailabilityStatus
  ck_used :: bool
  ck_original :: bool

definition image_key :: "string \<Rightarrow> string \<Rightarrow> MonitoredImage \<Rightarrow> counterKey" where
  "image_key cisa registry img =
     \<lparr>ck_name = cisa, ck_registry = registry, ck_status = mon_Status img,
      ck_used = (mon_UnusedSince img = None \<or> mt_IsZero (mon_UnusedSince img)), ck_original = mon_Original img\<rparr>"

definition increment :: "'k \<Rightarrow> ('k \<times> nat) list \<Rightarrow> ('k \<times> nat) list" where
  "increment k counts = AList.update k (Suc (case map_of counts k of None \<Rightarrow> 0 | Some n \<Rightarrow> n)) counts"

fun count_images ::
  "ref_parser \<Rightarrow> string \<Rightarrow> MonitoredImage list \<Rightarrow> (counterKey \<times> nat) list \<Rightarrow> (counterKey \<times> nat) list result" where
  "count_images parse cisa [] counts = Inr counts"
| "count_images parse cisa (img # imgs) counts =
     (case RegistryAndPathFromReference parse (mon_Image img) of
        Inl e \<Rightarrow> if is_panic e then Inl e else count_images parse cisa imgs counts
      | Inr (registry, _) \<Rightarrow> count_images parse cisa imgs (increment (image_key cisa registry img) counts))"

fun count_cisas ::
  "ref_parser \<Rightarrow> ClusterImageSetAvailability list \<Rightarrow> (counterKey \<times> nat) list \<Rightarrow> (counterKey \<times> nat) list result" where
  "count_cisas parse [] counts = Inr counts"
| "count_cisas parse (c # cs) counts =
     (case count_images parse (om_Name (cisa_Meta c)) (cisa_Images c) counts of
        Inl e \<Rightarrow> Inl e
      | Inr counts' \<Rightarrow> count_cisas parse cs counts')"

text \<open>\<open>strconv.FormatBool\<close> and the samples collected, in the order the map is visited.\<close>

definition FormatBool :: "bool \<Rightarrow> string" where
  "FormatBool b = (if b then ''true'' else ''false'')"

definition collect_images ::
  "ref_parser \<Rightarrow> ClusterImageSetAvailability list result \<Rightarrow> (nat \<times> string list) list result" where
  "collect_images parse listed =
     (case listed of
        Inl _ \<Rightarrow> Inr []
      | Inr cisas \<Rightarrow>
          (case count_cisas parse cisas [] of
             Inl e \<Rightarrow> Inl e
           | Inr counts \<Rightarrow>
               Inr (map (\<lambda>(k, n). (n, [ck_name k, ck_registry k, status_string (ck_status k),
                      FormatBool (ck_used k), FormatBool (ck_original k)])) counts)))"

text \<open>The observations of the age histogram, as labels and ages.\<close>

fun image_ages ::
  "ref_parser \<Rightarrow> int \<Rightarrow> string \<Rightarrow> MonitoredImage list \<Rightarrow> (string \<times> string \<times> int) list result" where
  "image_ages parse now cisa [] = Inr []"
| "image_ages parse now cisa (img # imgs) =
     (if mon_LastMonitor img = None \<or> mt_IsZero (mon_LastMonitor img) then image_ages parse now cisa imgs
      else
        (case RegistryAndPathFromReference parse (mon_Image img) of
           Inl e \<Rightarrow> if is_panic e then Inl e else image_ages parse now cisa imgs
         | Inr (registry, _) \<Rightarrow>
             (case image_ages parse now cisa imgs of
                Inl e \<Rightarrow> Inl e
              | Inr ages \<Rightarrow> Inr ((cisa, registry, time_sub now (the (mon_LastMonitor img))) # ages))))"

fun cisa_ages ::
  "ref_parser \<Rightarrow> int \<Rightarrow> ClusterImageSetAvailability list \<Rightarrow> (string \<times> string \<times> int) list result" where
  "cisa_ages parse now [] = Inr []"
| "cisa_ages parse now (c # cs) =
     (case image_ages parse now (om_Name (cisa_Meta c)) (cisa_Images c) of
        Inl e \<Rightarrow> Inl e
      | Inr ages \<Rightarrow> (case cisa_ages parse now cs of Inl e \<Rightarrow> Inl e | Inr rest \<Rightarrow> Inr (ages @ rest)))"

end
