(* ===== verification/StatusPageProps.thy ===== *)
theory StatusPageProps
  imports StatusPage AvailabilitySafety
begin

text \<open>
  Properties of the status page and the metrics: the page lists every monitored image once,
  grouping only distributes the entries, and the metrics count the images the page shows.
\<close>

section \<open>What there is to list\<close>

text \<open>The images with a valid reference, each with its resource and its registry.\<close>

definition listed_images ::
  "ref_parser \<Rightarrow> ClusterImageSetAvailability list \<Rightarrow> (string \<times> string \<times> MonitoredImage) list" where
  "listed_images parse cisas =
     concat (map (\<lambda>c. List.map_filter (\<lambda>img.
         case RegistryAndPathFromReference parse (mon_Image img) of
           Inl _ \<Rightarrow> None
         | Inr (registry, _) \<Rightarrow> Some (om_Name (cisa_Meta c), registry, img)) (cisa_Images c)) cisas)"

definition page_entry :: "string \<times> string \<times> MonitoredImage \<Rightarrow> statusImage" where
  "page_entry = (\<lambda>(cisa, registry, img). status_image cisa registry img)"

definition metric_key :: "string \<times> string \<times> MonitoredImage \<Rightarrow> counterKey" where
  "metric_key = (\<lambda>(cisa, registry, img). image_key cisa registry img)"

text \<open>The library's parser returns normal forms and reports errors as values.\<close>

definition well_behaved :: "ref_parser \<Rightarrow> bool" where
  "well_behaved parse \<longleftrightarrow> normalizing parse \<and> (\<forall>s e. parse s = Inl e \<longrightarrow> \<not> is_panic e)"

lemma example_parse_well_behaved: "well_behaved example_parse"
  by (auto simp: well_behaved_def example_parse_normalizing) (auto simp: example_parse_def Let_def split: if_splits)

lemma registry_no_panic:
  assumes "well_behaved parse" and "RegistryAndPathFromReference parse s = Inl e"
  shows "\<not> is_panic e"
proof (cases "parse s")
  case (Inl e')
  with assms show ?thesis by (auto simp: well_behaved_def RegistryAndPathFromReference_def)
next
  case (Inr n)
  with assms RegistryAndPath_parts [of parse s n] show ?thesis by (auto simp: well_behaved_def)
qed

text \<open>A loop over the resources that folds a step over the images is one fold over what is listed.\<close>

definition add_entry :: "string \<Rightarrow> page \<Rightarrow> string \<times> string \<times> MonitoredImage \<Rightarrow> page" where
  "add_entry groupBy = (\<lambda>(groups, items, cnt) e.
     if groupBy \<noteq> [] then (case grouped groupBy (page_entry e) of (k, si) \<Rightarrow> (append_group k si groups, items, cnt + 1))
     else (groups, items @ [page_entry e], cnt + 1))"

lemma list_images_fold:
  assumes "well_behaved parse"
  shows "list_images parse groupBy cisa imgs page = Inr (foldl (add_entry groupBy) page (List.map_filter (\<lambda>img.
      case RegistryAndPathFromReference parse (mon_Image img) of
        Inl _ \<Rightarrow> None | Inr (registry, _) \<Rightarrow> Some (cisa, registry, img)) imgs))"
proof (induction imgs arbitrary: page)
  case Nil
  then show ?case by (simp add: List.map_filter_simps)
next
  case (Cons img imgs)
  obtain groups items cnt where "page = (groups, items, cnt)" by (cases page)
  with Cons registry_no_panic [OF assms, of "mon_Image img"] show ?case
    by (auto simp: List.map_filter_simps add_entry_def page_entry_def split: sum.splits prod.splits)
qed

lemma list_cisas_fold:
  assumes "well_behaved parse"
  shows "list_cisas parse groupBy cisas page = Inr (foldl (add_entry groupBy) page (listed_images parse cisas))"
  by (induction cisas arbitrary: page) (simp_all add: listed_images_def list_images_fold [OF assms])

lemma count_images_fold:
  assumes "well_behaved parse"
  shows "count_images parse cisa imgs counts = Inr (foldl (\<lambda>c e. increment (metric_key e) c) counts
    (List.map_filter (\<lambda>img. case RegistryAndPathFromReference parse (mon_Image img) of
        Inl _ \<Rightarrow> None | Inr (registry, _) \<Rightarrow> Some (cisa, registry, img)) imgs))"
proof (induction imgs arbitrary: counts)
  case Nil
  then show ?case by (simp add: List.map_filter_simps)
next
  case (Cons img imgs)
  with registry_no_panic [OF assms, of "mon_Image img"] show ?case
    by (auto simp: List.map_filter_simps metric_key_def split: sum.splits prod.splits)
qed

lemma count_cisas_fold:
  assumes "well_behaved parse"
  shows "count_cisas parse cisas counts =
    Inr (foldl (\<lambda>c e. increment (metric_key e) c) counts (listed_images parse cisas))"
  by (induction cisas arbitrary: counts) (simp_all add: listed_images_def count_images_fold [OF assms])

section \<open>The page\<close>

lemma flat_fold:
  "foldl (add_entry []) (groups, items, cnt) es = (groups, items @ map page_entry es, cnt + length es)"
  by (induction es arbitrary: items cnt) (simp_all add: add_entry_def)

lemma append_group_lookup:
  "map_of (append_group k si groups) k' =
     (if k' = k then Some ((case map_of groups k of None \<Rightarrow> [] | Some xs \<Rightarrow> xs) @ [si]) else map_of groups k')"
  by (simp add: append_group_def)

lemma append_group_size:
  "sum_list (map (\<lambda>(k, xs). length xs) (append_group k si groups)) = Suc (sum_list (map (\<lambda>(k, xs). length xs) groups))"
  unfolding append_group_def by (induction groups) auto

definition group_of :: "string \<Rightarrow> string \<Rightarrow> statusImage list \<Rightarrow> statusImage list" where
  "group_of groupBy k items = map (snd \<circ> grouped groupBy) (filter (\<lambda>si. fst (grouped groupBy si) = k) items)"

lemma group_of_simps [simp]:
  "group_of g k [] = []"
  "group_of g k (xs @ [x]) = group_of g k xs @ (if fst (grouped g x) = k then [snd (grouped g x)] else [])"
  by (simp_all add: group_of_def)

text \<open>The invariant of the grouping loop.\<close>

lemma grouped_fold:
  assumes "g \<noteq> []"
  shows "\<exists>groups. foldl (add_entry g) ([], [], 0) es = (groups, [], length es)
    \<and> (\<forall>k. map_of groups k = (let xs = group_of g k (map page_entry es) in if xs = [] then None else Some xs))
    \<and> distinct (keys groups) \<and> sum_list (map (\<lambda>(k, xs). length xs) groups) = length es"
proof (induction es rule: rev_induct)
  case Nil
  then show ?case by simp
next
  case (snoc e es)
  then obtain groups where IH: "foldl (add_entry g) ([], [], 0) es = (groups, [], length es)"
    "\<forall>k. map_of groups k = (let xs = group_of g k (map page_entry es) in if xs = [] then None else Some xs)"
    "distinct (keys groups)" "sum_list (map (\<lambda>(k, xs). length xs) groups) = length es" by blast
  obtain k si where k: "grouped g (page_entry e) = (k, si)" by fastforce
  have "foldl (add_entry g) ([], [], 0) (es @ [e]) = (append_group k si groups, [], length (es @ [e]))"
    using IH(1) assms k by (simp add: add_entry_def)
  moreover have "\<forall>k'. map_of (append_group k si groups) k' =
      (let xs = group_of g k' (map page_entry (es @ [e])) in if xs = [] then None else Some xs)"
    using IH(2) k by (simp add: append_group_lookup Let_def)
  moreover have "distinct (keys (append_group k si groups))"
    using IH(3) by (simp add: append_group_def distinct_keys_update)
  moreover have "sum_list (map (\<lambda>(k, xs). length xs) (append_group k si groups)) = length (es @ [e])"
    using IH(4) append_group_size by simp
  ultimately show ?case by blast
qed

text \<open>
  Without grouping the page lists every monitored image whose reference is valid, once and
  in the order of the resources, and the total is their number.
\<close>

theorem status_page_lists_all:
  assumes "well_behaved parse"
  shows "ServeHTTP parse err [] (Inr cisas) =
    Inr \<lparr>sr_Code = 200, sr_Body = ItemsResponse (map page_entry (listed_images parse cisas)) (length (listed_images parse cisas))\<rparr>"
  by (simp add: ServeHTTP_def list_cisas_fold [OF assms] flat_fold)

theorem status_page_lists_all_witness:
  "\<exists>items. ServeHTTP example_parse (\<lambda>_. []) []
        (Inr [example_cisa [] [example_monitored ''r/a'' None, example_monitored [] None, example_monitored ''q/b'' None]])
     = Inr \<lparr>sr_Code = 200, sr_Body = ItemsResponse items 2\<rparr>"
proof -
  let ?cs = "[example_cisa [] [example_monitored ''r/a'' None, example_monitored [] None, example_monitored ''q/b'' None]]"
  have "length (listed_images example_parse ?cs) = 2" by code_simp
  with status_page_lists_all [OF example_parse_well_behaved, of "\<lambda>_. []" ?cs] show ?thesis by auto
qed



text \<open>
  A parameter other than \<open>cisa\<close> and \<open>registry\<close> is refused with 400 whatever the API
  server would answer, and a failed list call is answered with 500 and its error; no image is
  listed in either case.
\<close>

theorem status_page_errors:
  "(g \<noteq> [] \<and> g \<noteq> ''cisa'' \<and> g \<noteq> ''registry'' \<longrightarrow>
      (\<exists>msg. ServeHTTP parse err g listed = Inr \<lparr>sr_Code = 400, sr_Body = ErrorResponse msg\<rparr>))
   \<and> (g = [] \<or> g = ''cisa'' \<or> g = ''registry'' \<longrightarrow>
      ServeHTTP parse err g (Inl e) = Inr \<lparr>sr_Code = 500, sr_Body =
         ErrorResponse (''failed to list ClusterImageSetAvailability resources: '' @ err e)\<rparr>)"
  by (auto simp: ServeHTTP_def)

theorem status_page_errors_witness:
  "(\<exists>msg. ServeHTTP example_parse (\<lambda>_. []) ''status'' (Inr []) = Inr \<lparr>sr_Code = 400, sr_Body = ErrorResponse msg\<rparr>)
   \<and> ServeHTTP example_parse (\<lambda>_. ''down'') ''cisa'' (Inl (EMsg ''down'')) = Inr \<lparr>sr_Code = 500, sr_Body =
         ErrorResponse ''failed to list ClusterImageSetAvailability resources: down''\<rparr>"
  using status_page_errors [of "''status''" example_parse "\<lambda>_. []" "Inr []"]
    status_page_errors [of "''cisa''" example_parse "\<lambda>_. ''down''" _ "EMsg ''down''"] by simp

section \<open>The metrics\<close>

lemma increment_size: "sum_list (map snd (increment k counts)) = Suc (sum_list (map snd counts))"
  unfolding increment_def by (induction counts) auto

lemma increments_lookup:
  "map_of (foldl (\<lambda>c e. increment (f e) c) [] es) k =
     (let n = length (filter (\<lambda>e. f e = k) es) in if n = 0 then None else Some n)"
  by (induction es rule: rev_induct) (auto simp: increment_def Let_def)

lemma increments_size: "sum_list (map snd (foldl (\<lambda>c e. increment (f e) c) counts es)) = sum_list (map snd counts) + length es"
  by (induction es arbitrary: counts) (simp_all add: increment_size)

text \<open>
  The metrics agree with the page: over the same list the samples count each combination
  of resource, registry, status, use and origin exactly, and add up to the total of the page.
\<close>

theorem metrics_agree_with_page:
  assumes "well_behaved parse" and "collect_images parse (Inr cisas) = Inr samples"
    and "ServeHTTP parse err [] (Inr cisas) = Inr \<lparr>sr_Code = 200, sr_Body = ItemsResponse items cnt\<rparr>"
  shows "sum_list (map fst samples) = cnt
    \<and> (\<exists>counts. samples = map (\<lambda>(k, n). (n, [ck_name k, ck_registry k, status_string (ck_status k),
                      FormatBool (ck_used k), FormatBool (ck_original k)])) counts
         \<and> (\<forall>k. map_of counts k = (let n = length (filter (\<lambda>e. metric_key e = k) (listed_images parse cisas))
                in if n = 0 then None else Some n)))"
proof -
  let ?counts = "foldl (\<lambda>c e. increment (metric_key e) c) [] (listed_images parse cisas)"
  have samples: "samples = map (\<lambda>(k, n). (n, [ck_name k, ck_registry k, status_string (ck_status k),
                      FormatBool (ck_used k), FormatBool (ck_original k)])) ?counts"
    using assms(2) by (simp add: collect_images_def count_cisas_fold [OF assms(1)])
  have "cnt = length (listed_images parse cisas)"
    using assms(3) by (simp add: ServeHTTP_def list_cisas_fold [OF assms(1)] flat_fold)
  moreover have "sum_list (map fst samples) = sum_list (map snd ?counts)"
    unfolding samples by (simp add: comp_def case_prod_unfold)
  ultimately show ?thesis
    using samples increments_lookup [of metric_key] increments_size [of metric_key "[]"] by auto
qed

theorem metrics_agree_with_page_witness:
  "\<exists>samples items. collect_images example_parse (Inr [example_cisa [] [example_monitored ''r/a'' None, example_monitored ''r/b'' None]])
       = Inr samples
     \<and> ServeHTTP example_parse (\<lambda>_. []) [] (Inr [example_cisa [] [example_monitored ''r/a'' None, example_monitored ''r/b'' None]])
       = Inr \<lparr>sr_Code = 200, sr_Body = ItemsResponse items 2\<rparr>
     \<and> sum_list (map fst samples) = 2"
proof -
  let ?cs = "[example_cisa [] [example_monitored ''r/a'' None, example_monitored ''r/b'' None]]"
  have "is_ok (collect_images example_parse (Inr ?cs))" by code_simp
  then obtain samples where s: "collect_images example_parse (Inr ?cs) = Inr samples" by (auto simp: is_ok_iff)
  have "case ServeHTTP example_parse (\<lambda>_. []) [] (Inr ?cs) of Inl _ \<Rightarrow> False
      | Inr r \<Rightarrow> sr_Code r = 200 \<and> (case sr_Body r of ItemsResponse _ n \<Rightarrow> n = 2 | _ \<Rightarrow> False)" by code_simp
  then obtain r items where "ServeHTTP example_parse (\<lambda>_. []) [] (Inr ?cs) = Inr r" "sr_Code r = 200" "sr_Body r = ItemsResponse items 2"
    by (auto split: sum.splits StatusBody.splits)
  then have p: "ServeHTTP example_parse (\<lambda>_. []) [] (Inr ?cs) = Inr \<lparr>sr_Code = 200, sr_Body = ItemsResponse items 2\<rparr>"
    by (cases r) simp
  from metrics_agree_with_page [OF example_parse_well_behaved s p] s p show ?thesis by blast
qed

end
