(* ===== verification/SecretOwner.thy ===== *)
theory SecretOwner
  imports MirrorReconciler Webhook
begin

text \<open>
  \<open>internal/controller/kuik/secretowner_controller.go\<close>: the controller that holds a cluster
  resource with a finalizer until the secrets the webhook copied for it have been deleted.
\<close>

section \<open>The owner\<close>

text \<open>\<open>client.Object\<close>, as far as the controller uses it.\<close>

record 'o OwnerObject =
  oo_Meta :: "'o \<Rightarrow> ObjectMeta"
  oo_SetMeta :: "ObjectMeta \<Rightarrow> 'o \<Rightarrow> 'o"

definition CISM_owner :: "ClusterImageSetMirror OwnerObject" where
  "CISM_owner = \<lparr>oo_Meta = cism_Meta, oo_SetMeta = (\<lambda>m c. c\<lparr>cism_Meta := m\<rparr>)\<rparr>"

definition CRIS_owner :: "ClusterReplicatedImageSet OwnerObject" where
  "CRIS_owner = \<lparr>oo_Meta = cris_Meta, oo_SetMeta = (\<lambda>m c. c\<lparr>cris_Meta := m\<rparr>)\<rparr>"

definition cleanupFinalizer :: string where
  "cleanupFinalizer = ''kuik.enix.io/secret-cleanup''"

definition OwnerUIDLabel :: string where
  "OwnerUIDLabel = ''kuik.enix.io/owner-uid''"

definition has_cleanup :: "'o OwnerObject \<Rightarrow> 'o \<Rightarrow> bool" where
  "has_cleanup ops x \<longleftrightarrow> cleanupFinalizer \<in> set (om_Finalizers (oo_Meta ops x))"

definition add_cleanup :: "'o OwnerObject \<Rightarrow> 'o \<Rightarrow> 'o" where
  "add_cleanup ops x =
     (if has_cleanup ops x then x
      else let m = oo_Meta ops x in oo_SetMeta ops (m\<lparr>om_Finalizers := om_Finalizers m @ [cleanupFinalizer]\<rparr>) x)"

definition remove_cleanup :: "'o OwnerObject \<Rightarrow> 'o \<Rightarrow> 'o" where
  "remove_cleanup ops x =
     (let m = oo_Meta ops x
      in oo_SetMeta ops (m\<lparr>om_Finalizers := filter (\<lambda>f. f \<noteq> cleanupFinalizer) (om_Finalizers m)\<rparr>) x)"

section \<open>The controller\<close>

datatype 'o SoEvent = SoGet | SoUpdate 'o | SoListSecrets string | SoDelete Secret

record 'o SoState =
  so_owner :: 'o
  so_events :: "'o SoEvent list"

type_synonym 'o so_action = "'o SoState \<Rightarrow> unit result \<times> 'o SoState"

text \<open>What the API server answers is a function of the calls before.\<close>

record 'o SoEnv =
  se_Ops :: "'o OwnerObject"
  se_Get :: "'o SoEvent list \<Rightarrow> 'o result"
  se_Update :: "'o SoEvent list \<Rightarrow> 'o \<Rightarrow> 'o result"
  se_ListSecrets :: "'o SoEvent list \<Rightarrow> string \<Rightarrow> Secret list result"
  se_Delete :: "'o SoEvent list \<Rightarrow> Secret \<Rightarrow> unit result"
  se_Retry :: "'o so_action \<Rightarrow> 'o so_action"

definition so_log :: "'o SoEvent \<Rightarrow> 'o SoState \<Rightarrow> 'o SoState" where
  "so_log ev st = st\<lparr>so_events := so_events st @ [ev]\<rparr>"

definition get_owner :: "'o SoEnv \<Rightarrow> 'o so_action" where
  "get_owner se st =
     (case se_Get se (so_events st) of
        Inl e \<Rightarrow> (Inl e, so_log SoGet st)
      | Inr x \<Rightarrow> (Inr (), (so_log SoGet st)\<lparr>so_owner := x\<rparr>))"

definition update_owner :: "'o SoEnv \<Rightarrow> 'o so_action" where
  "update_owner se st =
     (case se_Update se (so_events st) (so_owner st) of
        Inl e \<Rightarrow> (Inl e, so_log (SoUpdate (so_owner st)) st)
      | Inr x \<Rightarrow> (Inr (), (so_log (SoUpdate (so_owner st)) st)\<lparr>so_owner := x\<rparr>))"

definition is_notfound :: "error \<Rightarrow> bool" where
  "is_notfound e \<longleftrightarrow> IgnoreNotFound e = None"

fun delete_secrets :: "'o SoEnv \<Rightarrow> Secret list \<Rightarrow> 'o so_action" where
  "delete_secrets se [] st = (Inr (), st)"
| "delete_secrets se (s # ss) st =
     (case se_Delete se (so_events st) s of
        Inl e \<Rightarrow> if is_notfound e then delete_secrets se ss (so_log (SoDelete s) st)
                 else (Inl e, so_log (SoDelete s) st)
      | Inr _ \<Rightarrow> delete_secrets se ss (so_log (SoDelete s) st))"

definition release_owner :: "'o SoEnv \<Rightarrow> 'o so_action" where
  "release_owner se st =
     (case get_owner se st of
        (Inl e, st1) \<Rightarrow> ((case IgnoreNotFound e of None \<Rightarrow> Inr () | Some e' \<Rightarrow> Inl e'), st1)
      | (Inr _, st1) \<Rightarrow> update_owner se (st1\<lparr>so_owner := remove_cleanup (se_Ops se) (so_owner st1)\<rparr>))"

definition CleanupOwnedSecrets :: "'o SoEnv \<Rightarrow> 'o so_action" where
  "CleanupOwnedSecrets se st =
     (let uid = om_UID (oo_Meta (se_Ops se) (so_owner st)); st1 = so_log (SoListSecrets uid) st
      in (case se_ListSecrets se (so_events st) uid of
            Inl e \<Rightarrow> (Inl e, st1)
          | Inr secrets \<Rightarrow>
              and_then (delete_secrets se secrets st1) (\<lambda>_ st2. se_Retry se (release_owner se) st2)))"

definition hold_owner :: "'o SoEnv \<Rightarrow> 'o so_action" where
  "hold_owner se st =
     and_then (get_owner se st) (\<lambda>_ st1.
       update_owner se (st1\<lparr>so_owner := add_cleanup (se_Ops se) (so_owner st1)\<rparr>))"

definition SecretOwner_Reconcile :: "'o SoEnv \<Rightarrow> 'o so_action" where
  "SecretOwner_Reconcile se st =
     (case get_owner se st of
        (Inl e, st1) \<Rightarrow> ((case IgnoreNotFound e of None \<Rightarrow> Inr () | Some e' \<Rightarrow> Inl e'), st1)
      | (Inr _, st1) \<Rightarrow>
          (let ops = se_Ops se; x = so_owner st1
           in if \<not> mt_IsZero (om_DeletionTimestamp (oo_Meta ops x)) then
                (if \<not> has_cleanup ops x then (Inr (), st1) else CleanupOwnedSecrets se st1)
              else if \<not> has_cleanup ops x then se_Retry se (hold_owner se) st1
              else (Inr (), st1)))"

section \<open>The contract of the owner\<close>

locale owner_object =
  fixes ops :: "'o OwnerObject"
  assumes get_set: "oo_Meta ops (oo_SetMeta ops m x) = m"
begin

lemma add_holds: "has_cleanup ops (add_cleanup ops x)"
  by (auto simp: has_cleanup_def add_cleanup_def get_set Let_def)

lemma remove_releases: "\<not> has_cleanup ops (remove_cleanup ops x)"
  by (simp add: has_cleanup_def remove_cleanup_def get_set Let_def)

lemma other_finalizers:
  "f \<noteq> cleanupFinalizer \<Longrightarrow> f \<in> set (om_Finalizers (oo_Meta ops (add_cleanup ops x))) \<longleftrightarrow> f \<in> set (om_Finalizers (oo_Meta ops x))"
  "f \<noteq> cleanupFinalizer \<Longrightarrow> f \<in> set (om_Finalizers (oo_Meta ops (remove_cleanup ops x))) \<longleftrightarrow> f \<in> set (om_Finalizers (oo_Meta ops x))"
  by (auto simp: add_cleanup_def remove_cleanup_def get_set Let_def)

end

interpretation cism_owner: owner_object CISM_owner
  by unfold_locales (simp add: CISM_owner_def)

interpretation cris_owner: owner_object CRIS_owner
  by unfold_locales (simp add: CRIS_owner_def)

section \<open>The events of a run\<close>

text \<open>An update that lets the owner go.\<close>

fun releases :: "'o OwnerObject \<Rightarrow> 'o SoEvent \<Rightarrow> bool" where
  "releases ops (SoUpdate y) = (\<not> has_cleanup ops y)"
| "releases ops _ = False"

definition so_adds :: "('o SoEvent \<Rightarrow> bool) \<Rightarrow> 'o SoState \<Rightarrow> 'o SoState \<Rightarrow> bool" where
  "so_adds P st st' \<longleftrightarrow> (\<exists>evs. so_events st' = so_events st @ evs \<and> list_all P evs)"

lemma so_adds_simps [simp]:
  "so_adds P st st" "so_adds P st (so_log e st) = P e"
  "so_adds P st (st'\<lparr>so_owner := x\<rparr>) = so_adds P st st'" "so_adds P (st\<lparr>so_owner := x\<rparr>) st' = so_adds P st st'"
  by (auto simp: so_adds_def so_log_def)

lemma so_adds_trans: "so_adds P st st1 \<Longrightarrow> so_adds P st1 st2 \<Longrightarrow> so_adds P st st2"
  by (force simp: so_adds_def list_all_append)

lemma so_log_owner [simp]:
  "so_log e (st\<lparr>so_owner := x\<rparr>) = (so_log e st)\<lparr>so_owner := x\<rparr>" "so_owner (so_log e st) = so_owner st"
  "so_events (so_log e st) = so_events st @ [e]"
  by (simp_all add: so_log_def)

lemma retried_adds:
  "retried fn st r \<Longrightarrow> (\<And>s. so_adds P s (snd (fn s))) \<Longrightarrow> so_adds P st (snd r)"
proof (induction rule: retried.induct)
  case (again st msg st1 r)
  from again.prems [of st] again.hyps(1) have "so_adds P st st1" by simp
  with again show ?case by (blast intro: so_adds_trans)
qed simp

definition so_retry_contract :: "'o SoEnv \<Rightarrow> bool" where
  "so_retry_contract se \<longleftrightarrow> (\<forall>fn st. retried fn st (se_Retry se fn st))"

lemma so_retry_adds:
  "so_retry_contract se \<Longrightarrow> (\<And>s. so_adds P s (snd (fn s))) \<Longrightarrow> so_adds P st (snd (se_Retry se fn st))"
  using retried_adds [of fn st "se_Retry se fn st" P] by (simp add: so_retry_contract_def)

lemma get_owner_adds: "P SoGet \<Longrightarrow> so_adds P st (snd (get_owner se st))"
  by (simp add: get_owner_def split: sum.split)

lemma update_owner_adds: "P (SoUpdate (so_owner st)) \<Longrightarrow> so_adds P st (snd (update_owner se st))"
  by (simp add: update_owner_def split: sum.split)

text \<open>Which secrets have been answered as gone among the events.\<close>

definition gone :: "'o SoEnv \<Rightarrow> 'o SoEvent list \<Rightarrow> Secret \<Rightarrow> bool" where
  "gone se evs s \<longleftrightarrow> (\<exists>p q. evs = p @ SoDelete s # q \<and>
     (case se_Delete se p s of Inl e \<Rightarrow> is_notfound e | Inr _ \<Rightarrow> True))"

lemma gone_append: "gone se evs s \<Longrightarrow> gone se (evs @ evs') s"
  unfolding gone_def by (metis append_Cons append_assoc)

fun deletes_one_of :: "Secret set \<Rightarrow> 'o SoEvent \<Rightarrow> bool" where
  "deletes_one_of S (SoDelete s) = (s \<in> S)"
| "deletes_one_of S _ = False"

lemma delete_secrets_adds:
  "set ss \<subseteq> S \<Longrightarrow> so_adds (deletes_one_of S) st (snd (delete_secrets se ss st))"
proof (induction ss arbitrary: st)
  case Nil
  then show ?case by simp
next
  case (Cons s ss)
  then have "so_adds (deletes_one_of S) st (so_log (SoDelete s) st)"
    and "so_adds (deletes_one_of S) (so_log (SoDelete s) st) (snd (delete_secrets se ss (so_log (SoDelete s) st)))" by auto
  then have "so_adds (deletes_one_of S) st (snd (delete_secrets se ss (so_log (SoDelete s) st)))" by (rule so_adds_trans)
  with Cons.prems show ?case by (auto split: sum.split)
qed

lemma gone_now:
  "(case se_Delete se evs s of Inl e \<Rightarrow> is_notfound e | Inr _ \<Rightarrow> True) \<Longrightarrow> gone se (evs @ [SoDelete s]) s"
  unfolding gone_def by blast

lemma delete_secrets_gone:
  assumes "delete_secrets se ss st = (Inr (), st')"
  shows "\<forall>s\<in>set ss. gone se (so_events st') s"
  using assms
proof (induction ss arbitrary: st)
  case Nil
  then show ?case by simp
next
  case (Cons s ss)
  let ?st1 = "so_log (SoDelete s) st"
  from Cons.prems have ok: "case se_Delete se (so_events st) s of Inl e \<Rightarrow> is_notfound e | Inr _ \<Rightarrow> True"
    and rest: "delete_secrets se ss ?st1 = (Inr (), st')" by (auto split: sum.splits if_splits)
  obtain evs where "so_events st' = so_events ?st1 @ evs"
    using delete_secrets_adds [of ss UNIV ?st1 se] rest by (auto simp: so_adds_def)
  with gone_append [OF gone_now [OF ok]] have "gone se (so_events st') s" by simp
  with Cons.IH [OF rest] show ?case by simp
qed

section \<open>Properties\<close>

lemma events_split:
  assumes "xs @ ys = pre @ y # post" and "list_all (\<lambda>x. \<not> P x) xs" and "P y"
  shows "\<exists>zs. pre = xs @ zs"
  using assms by (auto simp: append_eq_append_conv2 append_eq_Cons_conv Cons_eq_append_conv)

lemma hold_owner_adds:
  assumes "owner_object (se_Ops se)" and "P SoGet" and "\<And>y. has_cleanup (se_Ops se) y \<Longrightarrow> P (SoUpdate y)"
  shows "so_adds P st (snd (hold_owner se st))"
proof -
  obtain r s where g: "get_owner se st = (r, s)" by fastforce
  with get_owner_adds [where P = P, OF assms(2), of st se] have one: "so_adds P st s" by simp
  let ?s1 = "s\<lparr>so_owner := add_cleanup (se_Ops se) (so_owner s)\<rparr>"
  have "P (SoUpdate (so_owner ?s1))"
    using assms(3) owner_object.add_holds [OF assms(1)] by simp
  then have "so_adds P ?s1 (snd (update_owner se ?s1))" by (rule update_owner_adds)
  with one have "so_adds P st (snd (update_owner se ?s1))" by (metis so_adds_trans so_adds_simps(4))
  with one show ?thesis by (cases r) (simp_all add: hold_owner_def g)
qed

lemma release_owner_adds:
  assumes "P SoGet" and "\<And>y. P (SoUpdate y)"
  shows "so_adds P st (snd (release_owner se st))"
proof -
  obtain r s where g: "get_owner se st = (r, s)" by fastforce
  with get_owner_adds [where P = P, OF assms(1), of st se] have one: "so_adds P st s" by simp
  let ?s1 = "s\<lparr>so_owner := remove_cleanup (se_Ops se) (so_owner s)\<rparr>"
  have "so_adds P ?s1 (snd (update_owner se ?s1))" using assms(2) by (rule update_owner_adds)
  with one have "so_adds P st (snd (update_owner se ?s1))" by (metis so_adds_trans so_adds_simps(4))
  with one show ?thesis by (cases r) (simp_all add: release_owner_def g)
qed

fun is_update :: "'o SoEvent \<Rightarrow> bool" where
  "is_update (SoUpdate _) = True"
| "is_update _ = False"

fun is_delete :: "'o SoEvent \<Rightarrow> bool" where
  "is_delete (SoDelete _) = True"
| "is_delete _ = False"

lemma deletes_not_update: "deletes_one_of S e \<Longrightarrow> \<not> is_update e"
  by (cases e) auto

text \<open>The shape of a run that holds or releases the owner.\<close>

lemma reconcile_shape:
  assumes "owner_object (se_Ops se)" and "so_retry_contract se" and "so_events st = []"
    and "SecretOwner_Reconcile se st = (r, st')"
  shows "list_all (\<lambda>e. \<not> releases (se_Ops se) e \<and> \<not> is_delete e) (so_events st')
    \<or> (\<exists>x secrets st2. se_Get se [] = Inr x \<and> \<not> mt_IsZero (om_DeletionTimestamp (oo_Meta (se_Ops se) x))
        \<and> has_cleanup (se_Ops se) x \<and> se_ListSecrets se [SoGet] (om_UID (oo_Meta (se_Ops se) x)) = Inr secrets
        \<and> (\<exists>evs. so_events st2 = [SoGet, SoListSecrets (om_UID (oo_Meta (se_Ops se) x))] @ evs
             \<and> list_all (deletes_one_of (set secrets)) evs)
        \<and> (st' = st2 \<or> (\<forall>s\<in>set secrets. gone se (so_events st2) s) \<and> so_adds (\<lambda>e. \<not> is_delete e) st2 st'))"
    (is "list_all ?quiet _ \<or> _")
proof (cases "se_Get se []")
  case (Inl e)
  with assms(3,4) show ?thesis by (auto simp: SecretOwner_Reconcile_def get_owner_def so_log_def)
next
  case (Inr x)
  let ?ops = "se_Ops se" and ?st1 = "(so_log SoGet st)\<lparr>so_owner := x\<rparr>"
  have ev1: "so_events ?st1 = [SoGet]" using assms(3) by simp
  have get: "get_owner se st = (Inr (), ?st1)" using Inr assms(3) by (simp add: get_owner_def)
  consider (hold) "st' = snd (se_Retry se (hold_owner se) ?st1)" | (idle) "st' = ?st1"
    | (cleanup) "\<not> mt_IsZero (om_DeletionTimestamp (oo_Meta ?ops x))" "has_cleanup ?ops x"
        "CleanupOwnedSecrets se ?st1 = (r, st')"
    using assms(4) by (auto simp: SecretOwner_Reconcile_def get Let_def split: if_splits)
  then show ?thesis
  proof cases
    case hold
    have "so_adds ?quiet ?st1 st'" unfolding hold
      by (rule so_retry_adds [OF assms(2)], rule hold_owner_adds [OF assms(1)]) auto
    then show ?thesis using ev1 by (auto simp: so_adds_def)
  next
    case idle
    then show ?thesis using ev1 by simp
  next
    case cleanup
    let ?uid = "om_UID (oo_Meta ?ops x)" and ?st2 = "so_log (SoListSecrets (om_UID (oo_Meta ?ops x))) ?st1"
    have ev2: "so_events ?st2 = [SoGet, SoListSecrets ?uid]" using assms(3) by simp
    show ?thesis
    proof (cases "se_ListSecrets se [SoGet] ?uid")
      case (Inl e)
      with cleanup(3) ev1 have "st' = ?st2" by (auto simp: CleanupOwnedSecrets_def Let_def)
      with ev2 show ?thesis by simp
    next
      case list: (Inr secrets)
      obtain d st3 where d: "delete_secrets se secrets ?st2 = (d, st3)" by fastforce
      obtain evs where evs: "so_events st3 = [SoGet, SoListSecrets ?uid] @ evs" "list_all (deletes_one_of (set secrets)) evs"
        using delete_secrets_adds [OF subset_refl, of secrets ?st2 se] d ev2 by (auto simp: so_adds_def)
      have "st' = st3 \<or> (\<forall>s\<in>set secrets. gone se (so_events st3) s) \<and> so_adds (\<lambda>e. \<not> is_delete e) st3 st'"
      proof (cases d)
        case (Inl e)
        with cleanup(3) list d ev1 show ?thesis by (auto simp: CleanupOwnedSecrets_def Let_def)
      next
        case (Inr u)
        then have "st' = snd (se_Retry se (release_owner se) st3)"
          using cleanup(3) list d ev1 by (auto simp: CleanupOwnedSecrets_def Let_def)
        moreover have "so_adds (\<lambda>e. \<not> is_delete e) st3 (snd (se_Retry se (release_owner se) st3))"
          by (rule so_retry_adds [OF assms(2)], rule release_owner_adds) simp_all
        ultimately show ?thesis using delete_secrets_gone [of se secrets ?st2 st3] d Inr by auto
      qed
      with \<open>se_Get se [] = Inr x\<close> cleanup(1,2) list evs show ?thesis by blast
    qed
  qed
qed

lemma released_after_deletion:
  assumes "owner_object (se_Ops se)" and "so_retry_contract se" and "so_events st = []"
    and "SecretOwner_Reconcile se st = (r, st')"
    and "so_events st' = pre @ SoUpdate y # post" and "\<not> has_cleanup (se_Ops se) y"
  shows "\<exists>x secrets. se_Get se [] = Inr x \<and> \<not> mt_IsZero (om_DeletionTimestamp (oo_Meta (se_Ops se) x))
    \<and> has_cleanup (se_Ops se) x \<and> se_ListSecrets se [SoGet] (om_UID (oo_Meta (se_Ops se) x)) = Inr secrets
    \<and> (\<forall>s\<in>set secrets. gone se pre s)"
proof -
  have "\<not> list_all (\<lambda>e. \<not> releases (se_Ops se) e \<and> \<not> is_delete e) (so_events st')" using assms(5,6) by simp
  with reconcile_shape [OF assms(1-4)] obtain x secrets st2 evs where
    x: "se_Get se [] = Inr x" "\<not> mt_IsZero (om_DeletionTimestamp (oo_Meta (se_Ops se) x))" "has_cleanup (se_Ops se) x"
      "se_ListSecrets se [SoGet] (om_UID (oo_Meta (se_Ops se) x)) = Inr secrets"
    and evs: "so_events st2 = [SoGet, SoListSecrets (om_UID (oo_Meta (se_Ops se) x))] @ evs"
      "list_all (deletes_one_of (set secrets)) evs"
    and st': "st' = st2 \<or> (\<forall>s\<in>set secrets. gone se (so_events st2) s) \<and> so_adds (\<lambda>e. \<not> is_delete e) st2 st'" by blast
  have quiet: "list_all (\<lambda>e. \<not> is_update e) (so_events st2)"
    unfolding evs(1) using evs(2) by (auto simp: list_all_iff dest: deletes_not_update)
  have "\<not> st' = st2" using quiet assms(5) by auto
  with st' obtain more where gone: "\<forall>s\<in>set secrets. gone se (so_events st2) s" and "so_events st' = so_events st2 @ more"
    by (auto simp: so_adds_def)
  with assms(5) have "so_events st2 @ more = pre @ SoUpdate y # post" by simp
  from events_split [OF this quiet] obtain zs where "pre = so_events st2 @ zs" by auto
  with gone have "\<forall>s\<in>set secrets. gone se pre s" by (simp add: gone_append)
  with x show ?thesis by blast
qed

text \<open>
  C23. A cluster resource is let go, by an update that writes it without the cleanup finalizer,
  only in a run that found it being deleted and holding the finalizer, and only after every
  secret listed under its UID was deleted or reported gone.
\<close>

theorem released_only_after_secrets_gone:
  assumes "owner_object (se_Ops se)" and "so_retry_contract se" and "so_events st = []"
    and "SecretOwner_Reconcile se st = (r, st')"
    and "so_events st' = pre @ SoUpdate y # post" and "\<not> has_cleanup (se_Ops se) y"
  shows "\<exists>x secrets. se_Get se [] = Inr x \<and> \<not> mt_IsZero (om_DeletionTimestamp (oo_Meta (se_Ops se) x))
    \<and> has_cleanup (se_Ops se) x \<and> se_ListSecrets se [SoGet] (om_UID (oo_Meta (se_Ops se) x)) = Inr secrets
    \<and> (\<forall>s\<in>set secrets. gone se pre s)"
  by (rule released_after_deletion [OF assms])

text \<open>
  The controller deletes a secret only when the resource is being deleted and holds the
  finalizer, and only one listed under its UID.
\<close>

theorem only_owned_secrets_deleted:
  assumes "owner_object (se_Ops se)" and "so_retry_contract se" and "so_events st = []"
    and "SecretOwner_Reconcile se st = (r, st')" and "SoDelete s \<in> set (so_events st')"
  shows "\<exists>x secrets. se_Get se [] = Inr x \<and> \<not> mt_IsZero (om_DeletionTimestamp (oo_Meta (se_Ops se) x))
    \<and> has_cleanup (se_Ops se) x \<and> se_ListSecrets se [SoGet] (om_UID (oo_Meta (se_Ops se) x)) = Inr secrets
    \<and> s \<in> set secrets"
proof -
  have "\<not> list_all (\<lambda>e. \<not> releases (se_Ops se) e \<and> \<not> is_delete e) (so_events st')"
    using assms(5) by (force simp: list_all_iff)
  with reconcile_shape [OF assms(1-4)] obtain x secrets st2 evs where
    x: "se_Get se [] = Inr x" "\<not> mt_IsZero (om_DeletionTimestamp (oo_Meta (se_Ops se) x))" "has_cleanup (se_Ops se) x"
      "se_ListSecrets se [SoGet] (om_UID (oo_Meta (se_Ops se) x)) = Inr secrets"
    and evs: "so_events st2 = [SoGet, SoListSecrets (om_UID (oo_Meta (se_Ops se) x))] @ evs"
      "list_all (deletes_one_of (set secrets)) evs"
    and st': "st' = st2 \<or> so_adds (\<lambda>e. \<not> is_delete e) st2 st'" by blast
  have "\<not> (\<not> is_delete (SoDelete s))" by simp
  with st' assms(5) have "SoDelete s \<in> set (so_events st2)"
    unfolding so_adds_def list_all_iff by (metis Un_iff set_append)
  with evs have "s \<in> set secrets" by (auto simp: list_all_iff)
  with x show ?thesis by blast
qed

text \<open>The API server as a store of secrets selected by the owner's label.\<close>

definition owned_by :: "string \<Rightarrow> Secret list \<Rightarrow> Secret list" where
  "owned_by uid store = filter (\<lambda>s. sec_Labels s OwnerUIDLabel = Some uid) store"

text \<open>
  C24. The copies the webhook makes do not outlive their owner: a secret written by the webhook
  for a cluster resource that is in the store when the controller lists it is deleted, or
  reported gone, before the resource is let go.
\<close>

theorem copied_secrets_deleted_before_owner:
  assumes "owner_object (se_Ops se)" and "so_retry_contract se" and "so_events st = []"
    and "SecretOwner_Reconcile se st = (r, st')"
    and "so_events st' = pre @ SoUpdate y # post" and "\<not> has_cleanup (se_Ops se) y"
    and "\<And>uid. se_ListSecrets se [SoGet] uid = Inr (owned_by uid store)" and "se_Get se [] = Inr x"
    and "mutate_target own secret target \<in> set store"
    and "om_UID (owner_meta own) = om_UID (oo_Meta (se_Ops se) x)"
  shows "gone se pre (mutate_target own secret target)"
proof -
  have "mutate_target own secret target \<in> set (owned_by (om_UID (oo_Meta (se_Ops se) x)) store)"
    using assms(9,10) mutate_fields(7) by (simp add: owned_by_def OwnerUIDLabel_def)
  with released_after_deletion [OF assms(1-6)] assms(7,8) show ?thesis by auto
qed

section \<open>Witnesses\<close>

text \<open>A mirror being deleted, whose two copied secrets are in the store.\<close>

definition held_mirror :: ClusterImageSetMirror where
  "held_mirror = (example_cism [] [])\<lparr>cism_Meta := (example_meta ''global'' [])
     \<lparr>om_Finalizers := [cleanupFinalizer], om_DeletionTimestamp := Some 5\<rparr>\<rparr>"

definition copied_secret :: "string \<Rightarrow> Secret" where
  "copied_secret ns = mutate_target (OwnerISM (flatten_cism held_mirror)) (target_secret ''src'' ''infra'') (target_secret ''kuik-src'' ns)"

definition secret_store :: "Secret list" where
  "secret_store = [copied_secret ''a'', target_secret ''other'' ''a'', copied_secret ''b'']"

definition owner_env :: "ClusterImageSetMirror SoEnv" where
  "owner_env = \<lparr>se_Ops = CISM_owner, se_Get = (\<lambda>_. Inr held_mirror), se_Update = (\<lambda>_ y. Inr y),
     se_ListSecrets = (\<lambda>_ uid. Inr (owned_by uid secret_store)),
     se_Delete = (\<lambda>_ s. if sec_Namespace s = ''b'' then Inl (ENotFound ''secret'') else Inr ()),
     se_Retry = (\<lambda>fn. fn)\<rparr>"

definition owner_start :: "ClusterImageSetMirror SoState" where
  "owner_start = \<lparr>so_owner = held_mirror, so_events = []\<rparr>"

lemma owner_env_contracts: "owner_object (se_Ops owner_env)" "so_retry_contract owner_env" "so_events owner_start = []"
  using cism_owner.owner_object_axioms
  by (auto simp: owner_env_def so_retry_contract_def owner_start_def intro: retried.once)

definition released_mirror :: ClusterImageSetMirror where
  "released_mirror = remove_cleanup CISM_owner held_mirror"

lemma owner_run:
  "SecretOwner_Reconcile owner_env owner_start = (Inr (), \<lparr>so_owner = released_mirror,
     so_events = [SoGet, SoListSecrets ''uid-global'', SoDelete (copied_secret ''a''), SoDelete (copied_secret ''b''), SoGet]
       @ SoUpdate released_mirror # []\<rparr>)"
proof -
  have uid: "sec_Labels (copied_secret ns) OwnerUIDLabel = Some ''uid-global''" for ns
    by (simp add: copied_secret_def mutate_target_def OwnerUIDLabel_def flatten_cism_def held_mirror_def example_meta_def)
  have "owned_by ''uid-global'' secret_store = [copied_secret ''a'', copied_secret ''b'']"
    by (simp add: owned_by_def secret_store_def uid target_secret_def)
  moreover have "cism_Meta held_mirror = (example_meta ''global'' [])\<lparr>om_Finalizers := [cleanupFinalizer], om_DeletionTimestamp := Some 5\<rparr>"
    "sec_Namespace (copied_secret ns) = ns" for ns
    by (simp_all add: held_mirror_def copied_secret_def mutate_target_def target_secret_def)
  ultimately show ?thesis
    by (simp add: SecretOwner_Reconcile_def get_owner_def update_owner_def CleanupOwnedSecrets_def release_owner_def
        owner_env_def owner_start_def so_log_def Let_def CISM_owner_def has_cleanup_def example_meta_def
        is_notfound_def IgnoreNotFound_def released_mirror_def)
qed

lemma owner_run_events:
  "so_events \<lparr>so_owner = released_mirror,
     so_events = [SoGet, SoListSecrets ''uid-global'', SoDelete (copied_secret ''a''), SoDelete (copied_secret ''b''), SoGet]
       @ SoUpdate released_mirror # []\<rparr>
   = [SoGet, SoListSecrets ''uid-global'', SoDelete (copied_secret ''a''), SoDelete (copied_secret ''b''), SoGet]
       @ SoUpdate released_mirror # []"
  by simp

lemma released_mirror_free: "\<not> has_cleanup (se_Ops owner_env) released_mirror"
  using cism_owner.remove_releases by (simp add: owner_env_def released_mirror_def)

theorem released_only_after_secrets_gone_witness:
  "\<exists>secrets. se_ListSecrets owner_env [SoGet] ''uid-global'' = Inr secrets \<and> secrets \<noteq> []
     \<and> (\<forall>s\<in>set secrets. gone owner_env [SoGet, SoListSecrets ''uid-global'', SoDelete (copied_secret ''a''),
          SoDelete (copied_secret ''b''), SoGet] s)"
proof -
  have "om_UID (oo_Meta (se_Ops owner_env) held_mirror) = ''uid-global''" "se_Get owner_env [] = Inr held_mirror"
    by (simp_all add: owner_env_def CISM_owner_def held_mirror_def example_meta_def)
  moreover have "owned_by ''uid-global'' secret_store \<noteq> []" by code_simp
  ultimately show ?thesis
    using released_only_after_secrets_gone [OF owner_env_contracts owner_run owner_run_events released_mirror_free]
    by (auto simp: owner_env_def)
qed

theorem only_owned_secrets_deleted_witness:
  "\<exists>secrets. se_ListSecrets owner_env [SoGet] ''uid-global'' = Inr secrets \<and> copied_secret ''b'' \<in> set secrets"
proof -
  have "om_UID (oo_Meta (se_Ops owner_env) held_mirror) = ''uid-global''" "se_Get owner_env [] = Inr held_mirror"
    by (simp_all add: owner_env_def CISM_owner_def held_mirror_def example_meta_def)
  with only_owned_secrets_deleted [OF owner_env_contracts owner_run, of "copied_secret ''b''"] show ?thesis by auto
qed

theorem copied_secrets_deleted_before_owner_witness:
  "gone owner_env [SoGet, SoListSecrets ''uid-global'', SoDelete (copied_secret ''a''), SoDelete (copied_secret ''b''), SoGet]
     (copied_secret ''a'')"
proof -
  have "mutate_target (OwnerISM (flatten_cism held_mirror)) (target_secret ''src'' ''infra'') (target_secret ''kuik-src'' ''a'')
      = copied_secret ''a''" by (simp add: copied_secret_def)
  moreover have "copied_secret ''a'' \<in> set secret_store" by (simp add: secret_store_def)
  moreover have "om_UID (owner_meta (OwnerISM (flatten_cism held_mirror))) = om_UID (oo_Meta (se_Ops owner_env) held_mirror)"
    by (simp add: owner_env_def CISM_owner_def flatten_cism_def)
  moreover have "se_ListSecrets owner_env [SoGet] uid = Inr (owned_by uid secret_store)" "se_Get owner_env [] = Inr held_mirror"
    for uid by (simp_all add: owner_env_def)
  ultimately show ?thesis
    using copied_secrets_deleted_before_owner [OF owner_env_contracts owner_run owner_run_events released_mirror_free] by metis
qed

end
