(* ===== verification/Startup.thy ===== *)
theory Startup
  imports StaleStatus AvailabilityInvariant SecretOwner
begin

text \<open>
  \<open>cmd/main.go\<close>, the loading of the configuration in \<open>internal/config/config.go\<close> and the set-up
  functions of the webhook and the controllers: what is checked before the manager starts and
  in which order its parts are registered. The calls into the libraries are answered by the
  environment; parsing the command line and the logger are left out.
\<close>

section \<open>Loading the configuration\<close>

text \<open>
  The library decodes the defaults, overlaid by the parsed file if there is one; \<open>None\<close> is the
  absence of a file. The configuration is returned beside the error.
\<close>

type_synonym koanf = "Config \<Rightarrow> string option \<Rightarrow> Config result"

definition load :: "koanf \<Rightarrow> string option \<Rightarrow> Config result" where
  "load koanf file = koanf defaultConfig file"

definition LoadDefault :: "koanf \<Rightarrow> Config result" where
  "LoadDefault koanf = load koanf None"

text \<open>\<open>stat\<close> is the answer of \<open>os.Stat\<close>.\<close>

definition Load :: "koanf \<Rightarrow> (string \<Rightarrow> error option) \<Rightarrow> string \<Rightarrow> Config result" where
  "Load koanf stat path =
     (case stat path of
        Some (ENotFound _) \<Rightarrow> LoadDefault koanf
      | Some e \<Rightarrow> Inl e
      | None \<Rightarrow> load koanf (Some path))"

section \<open>The command line and the servers\<close>

record Flags =
  fl_metricsAddr :: string
  fl_probeAddr :: string
  fl_leaderElect :: bool
  fl_secureMetrics :: bool
  fl_webhookCertPath :: string
  fl_webhookCertName :: string
  fl_webhookCertKey :: string
  fl_metricsCertPath :: string
  fl_metricsCertName :: string
  fl_metricsCertKey :: string
  fl_enableHTTP2 :: bool
  fl_configPath :: string

definition default_flags :: Flags where
  "default_flags =
     \<lparr>fl_metricsAddr = ''0'', fl_probeAddr = '':8081'', fl_leaderElect = False, fl_secureMetrics = True,
      fl_webhookCertPath = [], fl_webhookCertName = ''tls.crt'', fl_webhookCertKey = ''tls.key'',
      fl_metricsCertPath = [], fl_metricsCertName = ''tls.crt'', fl_metricsCertKey = ''tls.key'',
      fl_enableHTTP2 = False, fl_configPath = ''/etc/kube-image-keeper/config.yaml''\<rparr>"

datatype TLSOpt = DisableHTTP2 | GetCertificate string string

text \<open>What the metrics server is started with; the filter protects it with authentication.\<close>

record MetricsServer =
  msv_Addr :: string
  msv_Secure :: bool
  msv_Authenticated :: bool
  msv_TLS :: "TLSOpt list"
  msv_Handlers :: "string list"

definition common_tls :: "Flags \<Rightarrow> TLSOpt list" where
  "common_tls fl = (if \<not> fl_enableHTTP2 fl then [DisableHTTP2] else [])"

definition webhook_certificate :: "Flags \<Rightarrow> (string \<times> string) option" where
  "webhook_certificate fl =
     (if length (fl_webhookCertPath fl) > 0
      then Some (path_Join [fl_webhookCertPath fl, fl_webhookCertName fl],
                 path_Join [fl_webhookCertPath fl, fl_webhookCertKey fl]) else None)"

definition metrics_certificate :: "Flags \<Rightarrow> (string \<times> string) option" where
  "metrics_certificate fl =
     (if length (fl_metricsCertPath fl) > 0
      then Some (path_Join [fl_metricsCertPath fl, fl_metricsCertName fl],
                 path_Join [fl_metricsCertPath fl, fl_metricsCertKey fl]) else None)"

definition certificate_tls :: "(string \<times> string) option \<Rightarrow> TLSOpt list" where
  "certificate_tls c = (case c of None \<Rightarrow> [] | Some (crt, key) \<Rightarrow> [GetCertificate crt key])"

definition webhook_tls :: "Flags \<Rightarrow> TLSOpt list" where
  "webhook_tls fl = common_tls fl @ certificate_tls (webhook_certificate fl)"

definition metrics_server :: "Flags \<Rightarrow> MetricsServer" where
  "metrics_server fl =
     \<lparr>msv_Addr = fl_metricsAddr fl, msv_Secure = fl_secureMetrics fl,
      msv_Authenticated = fl_secureMetrics fl,
      msv_TLS = common_tls fl @ certificate_tls (metrics_certificate fl),
      msv_Handlers = [''/status/images'']\<rparr>"

section \<open>Setting up the parts\<close>

text \<open>
  What the webhook starts with: its filter and the capacity of the semaphore of its clean-ups.
  Making a channel of negative size panics.
\<close>

definition setup_defaulter :: "selector_parse \<Rightarrow> Config \<Rightarrow> (PodFilter \<times> nat) result" where
  "setup_defaulter sel cfg =
     (case CompilePodFilter sel [] (cfg_SkipLabels cfg) [] (cfg_SkipAnnotations cfg) of
        Inl e \<Rightarrow> Inl (EWrap ''invalid global skip (skipLabels / skipAnnotations)'' e)
      | Inr f \<Rightarrow>
          (let cap = smc_MaxConcurrent (act_StaleMirrorCleanup (rt_ActiveCheck (cfg_Routing cfg)))
           in if cap < 0 then Inl (EPanic ''makechan: size out of range'') else Inr (f, nat cap)))"

text \<open>
  What a mirror controller starts with: the platforms and the filter.
\<close>

definition setup_mirror_controller :: "selector_parse \<Rightarrow> Config \<Rightarrow> (PodFilter \<times> Platform list) result" where
  "setup_mirror_controller sel cfg =
     (case compileGlobalPodFilter sel cfg of
        Inl e \<Rightarrow> Inl e
      | Inr f \<Rightarrow> Inr (f, setupPlatforms cfg))"

definition setup_monitor :: "selector_parse \<Rightarrow> Config \<Rightarrow> PodFilter result" where
  "setup_monitor sel cfg = compileGlobalPodFilter sel cfg"

text \<open>The steps after the configuration was validated, in the order of the source.\<close>

datatype StartStep =
    WebhookWatcher string string
  | MetricsWatcher string string
  | NewManager
  | PodWebhook
  | ClusterMirrors
  | NamespacedMirrors
  | MirrorSecrets
  | ReplicatedSecrets
  | Monitor
  | Backfill
  | AddMetricsWatcher
  | AddWebhookWatcher
  | Healthz
  | Readyz
  | RegisterMetrics
  | StartManager

definition step_if :: "bool \<Rightarrow> StartStep \<Rightarrow> StartStep list" where
  "step_if b s = (if b then [s] else [])"

definition startup_steps :: "Flags \<Rightarrow> string \<Rightarrow> StartStep list" where
  "startup_steps fl enableWebhooks =
     (case webhook_certificate fl of None \<Rightarrow> [] | Some (crt, key) \<Rightarrow> [WebhookWatcher crt key])
     @ (case metrics_certificate fl of None \<Rightarrow> [] | Some (crt, key) \<Rightarrow> [MetricsWatcher crt key])
     @ [NewManager]
     @ step_if (enableWebhooks \<noteq> ''false'') PodWebhook
     @ [ClusterMirrors, NamespacedMirrors, MirrorSecrets, ReplicatedSecrets, Monitor, Backfill]
     @ step_if (metrics_certificate fl \<noteq> None) AddMetricsWatcher
     @ step_if (webhook_certificate fl \<noteq> None) AddWebhookWatcher
     @ [Healthz, Readyz, RegisterMetrics, StartManager]"

text \<open>
  One step: what the program does itself first, then the library's answer. Registering the
  metrics returns nothing; that it does not panic is shown with the collectors.
\<close>

definition as_error :: "'a result \<Rightarrow> error option" where
  "as_error r = (case r of Inl e \<Rightarrow> Some e | Inr _ \<Rightarrow> None)"

definition or_else :: "error option \<Rightarrow> error option \<Rightarrow> error option" where
  "or_else a b = (case a of Some e \<Rightarrow> Some e | None \<Rightarrow> b)"

fun do_step :: "selector_parse \<Rightarrow> (StartStep \<Rightarrow> error option) \<Rightarrow> Config \<Rightarrow> StartStep \<Rightarrow> error option" where
  "do_step sel lib cfg PodWebhook = or_else (as_error (setup_defaulter sel cfg)) (lib PodWebhook)"
| "do_step sel lib cfg ClusterMirrors = or_else (as_error (setup_mirror_controller sel cfg)) (lib ClusterMirrors)"
| "do_step sel lib cfg NamespacedMirrors = or_else (as_error (setup_mirror_controller sel cfg)) (lib NamespacedMirrors)"
| "do_step sel lib cfg Monitor = or_else (as_error (setup_monitor sel cfg)) (lib Monitor)"
| "do_step sel lib cfg RegisterMetrics = None"
| "do_step sel lib cfg s = lib s"

text \<open>The steps done, and the error the program exits with.\<close>

fun run_steps ::
  "selector_parse \<Rightarrow> (StartStep \<Rightarrow> error option) \<Rightarrow> Config \<Rightarrow> StartStep list \<Rightarrow> StartStep list \<Rightarrow>
     error option \<times> StartStep list" where
  "run_steps sel lib cfg [] made = (None, made)"
| "run_steps sel lib cfg (s # ss) made =
     (case do_step sel lib cfg s of
        Some e \<Rightarrow> (Some e, made)
      | None \<Rightarrow> run_steps sel lib cfg ss (made @ [s]))"

definition program ::
  "koanf \<Rightarrow> (string \<Rightarrow> error option) \<Rightarrow> selector_parse \<Rightarrow> (StartStep \<Rightarrow> error option) \<Rightarrow> Flags \<Rightarrow> string \<Rightarrow>
     error option \<times> StartStep list" where
  "program koanf stat sel lib fl enableWebhooks =
     (case Load koanf stat (fl_configPath fl) of
        Inl e \<Rightarrow> (Some e, [])
      | Inr cfg \<Rightarrow>
          (case Config_Validate cfg of
             Inl e \<Rightarrow> (Some e, [])
           | Inr _ \<Rightarrow>
               (case Legacy_Validate (hc_Legacy (cfg_ImageLastMonitorAgeMinutes cfg)) of
                  Inl e \<Rightarrow> (Some e, [])
                | Inr _ \<Rightarrow> run_steps sel lib cfg (startup_steps fl enableWebhooks) [])))"

section \<open>Properties\<close>

lemma run_steps_done:
  "run_steps sel lib cfg ss made = (r, made') \<Longrightarrow> \<exists>n. made' = made @ take n ss
     \<and> (\<forall>s\<in>set (take n ss). do_step sel lib cfg s = None) \<and> (r = None \<longrightarrow> n = length ss)"
proof (induction ss arbitrary: made)
  case Nil
  then show ?case by simp
next
  case (Cons s ss)
  show ?case
  proof (cases "do_step sel lib cfg s")
    case (Some e)
    with Cons.prems have "made' = made \<and> r = Some e" by simp
    then show ?thesis by (intro exI [of _ 0]) simp
  next
    case None
    with Cons.prems have "run_steps sel lib cfg ss (made @ [s]) = (r, made')" by simp
    from Cons.IH [OF this] obtain n where "made' = (made @ [s]) @ take n ss"
      "\<forall>s\<in>set (take n ss). do_step sel lib cfg s = None" "r = None \<longrightarrow> n = length ss" by blast
    with None show ?thesis by (intro exI [of _ "Suc n"]) auto
  qed
qed

lemma do_step_ok:
  "do_step sel lib cfg PodWebhook = None \<Longrightarrow> is_ok (setup_defaulter sel cfg)"
  "do_step sel lib cfg ClusterMirrors = None \<Longrightarrow> is_ok (setup_mirror_controller sel cfg)"
  "do_step sel lib cfg NamespacedMirrors = None \<Longrightarrow> is_ok (setup_mirror_controller sel cfg)"
  "do_step sel lib cfg Monitor = None \<Longrightarrow> is_ok (setup_monitor sel cfg)"
  by (auto simp: as_error_def or_else_def split: sum.splits)

text \<open>
  A manager that was started runs on a valid configuration, and all its parts skip the
  same pods: the webhook and the controllers hold one and the same filter, the mirror
  controllers copy exactly the configured platforms, of which there is at least one, and the
  clean-ups of the webhook are bounded by the configured maximum.
\<close>

theorem started_parts_agree:
  assumes "program koanf stat sel lib fl enableWebhooks = (r, made)" and "StartManager \<in> set made"
  shows "\<exists>cfg f. Load koanf stat (fl_configPath fl) = Inr cfg
    \<and> Config_Validate cfg = Inr () \<and> Legacy_Validate (hc_Legacy (cfg_ImageLastMonitorAgeMinutes cfg)) = Inr ()
    \<and> made = startup_steps fl enableWebhooks
    \<and> setup_mirror_controller sel cfg = Inr (f, setupPlatforms cfg) \<and> setupPlatforms cfg \<noteq> []
    \<and> setup_monitor sel cfg = Inr f
    \<and> (enableWebhooks \<noteq> ''false'' \<longrightarrow> (\<exists>cap. setup_defaulter sel cfg = Inr (f, cap)
         \<and> int cap = smc_MaxConcurrent (act_StaleMirrorCleanup (rt_ActiveCheck (cfg_Routing cfg)))))"
proof -
  let ?steps = "startup_steps fl enableWebhooks"
  from assms obtain cfg where cfg: "Load koanf stat (fl_configPath fl) = Inr cfg" "Config_Validate cfg = Inr ()"
    "Legacy_Validate (hc_Legacy (cfg_ImageLastMonitorAgeMinutes cfg)) = Inr ()"
    and run: "run_steps sel lib cfg ?steps [] = (r, made)"
    by (auto simp: program_def split: sum.splits)
  from run_steps_done [OF run] obtain n where n: "made = take n ?steps" "\<forall>s\<in>set made. do_step sel lib cfg s = None" by auto
  let ?init = "butlast ?steps"
  have steps: "?steps = ?init @ [StartManager]" and fresh: "StartManager \<notin> set ?init"
    by (auto simp: startup_steps_def step_if_def butlast_append split: option.splits prod.splits)
  have "n \<ge> length ?steps"
  proof (rule ccontr)
    assume "\<not> ?thesis"
    then have "take n ?steps = take n ?init" by (subst steps) simp
    with n(1) assms(2) fresh show False by (auto dest: in_set_takeD)
  qed
  with n have all: "made = ?steps" "\<forall>s\<in>set ?steps. do_step sel lib cfg s = None" by auto
  then have ok: "is_ok (setup_mirror_controller sel cfg)" "is_ok (setup_monitor sel cfg)"
    "enableWebhooks \<noteq> ''false'' \<Longrightarrow> is_ok (setup_defaulter sel cfg)"
    using do_step_ok [of sel lib cfg] by (auto simp: startup_steps_def step_if_def)
  then obtain f where f: "compileGlobalPodFilter sel cfg = Inr f" by (auto simp: setup_monitor_def is_ok_iff)
  have "setupPlatforms cfg \<noteq> []" using cfg(2) by (auto simp: Config_Validate_def setupPlatforms_def split: if_splits)
  moreover have "\<exists>cap. setup_defaulter sel cfg = Inr (f, cap)
      \<and> int cap = smc_MaxConcurrent (act_StaleMirrorCleanup (rt_ActiveCheck (cfg_Routing cfg)))"
    if "enableWebhooks \<noteq> ''false''"
    using ok(3) [OF that] f by (auto simp: setup_defaulter_def compileGlobalPodFilter_def Let_def split: if_splits)
  ultimately show ?thesis using cfg all f by (simp add: setup_mirror_controller_def setup_monitor_def)
qed

theorem started_parts_agree_witness:
  "program (\<lambda>c _. Inr c) (\<lambda>_. Some (ENotFound ''config'')) presence_sel (\<lambda>_. None) default_flags []
     = (None, startup_steps default_flags [])
   \<and> setupPlatforms defaultConfig \<noteq> []"
proof -
  let ?p = "program (\<lambda>c _. Inr c) (\<lambda>_. Some (ENotFound ''config'')) presence_sel (\<lambda>_. None) default_flags []"
  have load: "Load (\<lambda>c _. Inr c) (\<lambda>_. Some (ENotFound ''config'')) (fl_configPath default_flags) = Inr defaultConfig"
    by (simp add: Load_def LoadDefault_def load_def)
  have run: "?p = (None, startup_steps default_flags [])"
    unfolding program_def load
    by (simp add: defaultConfig_def Config_Validate_def Legacy_Validate_def flt_le_def startup_steps_def step_if_def
        default_flags_def webhook_certificate_def metrics_certificate_def or_else_def as_error_def setup_defaulter_def
        setup_mirror_controller_def setup_monitor_def compileGlobalPodFilter_def CompilePodFilter_def parseSelectors_def Let_def)
  have "StartManager \<in> set (startup_steps default_flags [])" by (simp add: startup_steps_def)
  from started_parts_agree [OF run this] load run show ?thesis by auto
qed

end
