(* ===== verification/Collectors.thy ===== *)
theory Collectors
  imports StatusPageProps Startup
begin

text \<open>
  \<open>internal/controller/collector.go\<close> and \<open>internal/info/info.go\<close>: the collectors of the manager's
  metrics, how they are built and registered, and what a scrape collects. The functions of the
  Prometheus client that can refuse their arguments are the fields of \<open>MetricsLib\<close>; a panic of a
  \<open>Must\<close> function is the error \<open>EPanic\<close>. The metrics sent to the channel are a list.
\<close>

section \<open>Descriptors and metrics\<close>

datatype ValueType = CounterValue | GaugeValue | UntypedValue

record Opts =
  op_Namespace :: string
  op_Subsystem :: string
  op_Name :: string
  op_Help :: string
  op_ConstLabels :: "(string \<times> string) list"

record Desc =
  de_fqName :: string
  de_help :: string
  de_variableLabels :: "string list"
  de_constLabels :: "(string \<times> string) list"

record HistogramOpts =
  ho_Opts :: Opts
  ho_BucketFactor :: go_float
  ho_ZeroThreshold :: go_float
  ho_MaxBucketNumber :: "32 word"
  ho_Buckets :: "go_float list"

text \<open>A histogram metric carries its observations; durations are nanoseconds, minutes in the source.\<close>

datatype Metric =
    ConstMetric Desc ValueType nat "string list"
  | HistogramMetric HistogramOpts "string list" "int list"

record MetricsLib =
  ml_BuildFQName :: "string \<Rightarrow> string \<Rightarrow> string \<Rightarrow> string"
  ml_LabelError :: "Desc \<Rightarrow> string list \<Rightarrow> error option"
  ml_Register :: "Desc list \<Rightarrow> error option"
  ml_ExponentialBuckets :: bucket_generator
  ml_ExponentialBucketsRange :: bucket_generator

definition must :: "error option \<Rightarrow> 'a \<Rightarrow> 'a result" where
  "must e x = (case e of None \<Rightarrow> Inr x | Some _ \<Rightarrow> Inl (EPanic ''prometheus''))"

definition MustNewConstMetric ::
  "MetricsLib \<Rightarrow> Desc \<Rightarrow> ValueType \<Rightarrow> nat \<Rightarrow> string list \<Rightarrow> Metric result" where
  "MustNewConstMetric lib desc valueType v labels =
     must (ml_LabelError lib desc labels) (ConstMetric desc valueType v labels)"

definition opts_desc :: "MetricsLib \<Rightarrow> Opts \<Rightarrow> string list \<Rightarrow> Desc" where
  "opts_desc lib opts labels =
     \<lparr>de_fqName = ml_BuildFQName lib (op_Namespace opts) (op_Subsystem opts) (op_Name opts),
      de_help = op_Help opts, de_variableLabels = labels, de_constLabels = op_ConstLabels opts\<rparr>"

section \<open>Build information\<close>

record BuildInfo =
  bi_Version :: string
  bi_Revision :: string
  bi_BuildDateTime :: string
  bi_GoVersion :: string
  bi_GOOS :: string
  bi_GOARCH :: string

definition MetricsNamespace :: string where
  "MetricsNamespace = ''kube_image_keeper''"

definition GetInfo :: "BuildInfo \<Rightarrow> (string \<times> string) list" where
  "GetInfo bi =
     [(''version'', bi_Version bi), (''revision'', bi_Revision bi), (''built'', bi_BuildDateTime bi),
      (''goversion'', bi_GoVersion bi), (''goos'', bi_GOOS bi), (''goarch'', bi_GOARCH bi)]"

record InfoCollector =
  ic_metric :: Metric

definition NewInfoCollector :: "MetricsLib \<Rightarrow> BuildInfo \<Rightarrow> string \<Rightarrow> InfoCollector result" where
  "NewInfoCollector lib bi subsystem =
     (let infoDesc =
        \<lparr>de_fqName = ml_BuildFQName lib MetricsNamespace subsystem ''build_info'',
         de_help = ''A metric with a constant '' @ [CHR 0x27, CHR ''1'', CHR 0x27] @ '' value labeled with version, revision, build date, Go version, Go OS, and Go architecture'',
         de_variableLabels = [], de_constLabels = GetInfo bi\<rparr>
      in (case MustNewConstMetric lib infoDesc GaugeValue 1 [] of
            Inl e \<Rightarrow> Inl e
          | Inr m \<Rightarrow> Inr \<lparr>ic_metric = m\<rparr>))"

fun metric_desc :: "MetricsLib \<Rightarrow> Metric \<Rightarrow> Desc" where
  "metric_desc lib (ConstMetric d _ _ _) = d"
| "metric_desc lib (HistogramMetric opts labels _) = opts_desc lib (ho_Opts opts) [''name'', ''registry'']"

section \<open>Generic collectors\<close>

text \<open>What a scrape finds: the leader election, the health check, the list call and the clock.\<close>

record Scrape =
  sc_Elected :: bool
  sc_Ping :: "error option"
  sc_Listed :: "ClusterImageSetAvailability list result"
  sc_Now :: int

text \<open>\<open>callback\<close> is nil until it is set; what it sends to the channel is its result.\<close>

record GenericCollector =
  gc_desc :: Desc
  gc_valueType :: ValueType
  gc_callback :: "(Scrape \<Rightarrow> Metric list result) option"

definition GenericCollector_Describe :: "GenericCollector \<Rightarrow> Desc list" where
  "GenericCollector_Describe g = [gc_desc g]"

definition GenericCollector_Collect :: "GenericCollector \<Rightarrow> Scrape \<Rightarrow> Metric list result" where
  "GenericCollector_Collect g s =
     (case gc_callback g of None \<Rightarrow> Inl (EPanic ''nil pointer dereference'') | Some f \<Rightarrow> f s)"

definition NewEmptyGenericCollector ::
  "MetricsLib \<Rightarrow> Opts \<Rightarrow> ValueType \<Rightarrow> string list \<Rightarrow> GenericCollector" where
  "NewEmptyGenericCollector lib opts valueType labels =
     \<lparr>gc_desc = opts_desc lib opts labels, gc_valueType = valueType, gc_callback = None\<rparr>"

definition NewGenericCollector ::
  "MetricsLib \<Rightarrow> Opts \<Rightarrow> ValueType \<Rightarrow> string list \<Rightarrow> (Scrape \<Rightarrow> Metric list result) option \<Rightarrow> GenericCollector" where
  "NewGenericCollector lib opts valueType labels callback =
     (NewEmptyGenericCollector lib opts valueType labels)\<lparr>gc_callback := callback\<rparr>"

text \<open>The callback of \<open>NewGenericCollectorFunc\<close> returns the values and labels it passes to \<open>collect\<close>.\<close>

definition NewGenericCollectorFunc ::
  "MetricsLib \<Rightarrow> Opts \<Rightarrow> ValueType \<Rightarrow> string list \<Rightarrow> (Scrape \<Rightarrow> (nat \<times> string list) list result) \<Rightarrow>
     GenericCollector" where
  "NewGenericCollectorFunc lib opts valueType labels callback =
     (let collector = NewGenericCollector lib opts valueType labels None
      in collector\<lparr>gc_callback := Some (\<lambda>s.
           (case callback s of
              Inl e \<Rightarrow> Inl e
            | Inr samples \<Rightarrow> traverse (\<lambda>(v, ls).
                MustNewConstMetric lib (gc_desc collector) (gc_valueType collector) v ls) samples))\<rparr>)"

section \<open>The collectors of the manager\<close>

datatype Collector =
    InfoC InfoCollector
  | GaugeFuncC Opts "Scrape \<Rightarrow> nat"
  | GenericC GenericCollector

fun Describe :: "MetricsLib \<Rightarrow> Collector \<Rightarrow> Desc list" where
  "Describe lib (InfoC i) = [metric_desc lib (ic_metric i)]"
| "Describe lib (GaugeFuncC opts f) = [opts_desc lib opts []]"
| "Describe lib (GenericC g) = GenericCollector_Describe g"

fun Collect :: "MetricsLib \<Rightarrow> Collector \<Rightarrow> Scrape \<Rightarrow> Metric list result" where
  "Collect lib (InfoC i) s = Inr [ic_metric i]"
| "Collect lib (GaugeFuncC opts f) s = Inr [ConstMetric (opts_desc lib opts []) GaugeValue (f s) []]"
| "Collect lib (GenericC g) s = GenericCollector_Collect g s"

record kuikMetrics =
  km_collectors :: "Collector list"

definition addCollector :: "Collector \<Rightarrow> kuikMetrics \<Rightarrow> kuikMetrics" where
  "addCollector c m = m\<lparr>km_collectors := km_collectors m @ [c]\<rparr>"

definition is_leader :: "Scrape \<Rightarrow> nat" where
  "is_leader s = (if sc_Elected s then 1 else 0)"

definition up :: "Scrape \<Rightarrow> nat" where
  "up s = (case sc_Ping s of Some _ \<Rightarrow> 0 | None \<Rightarrow> 1)"

definition manager_opts :: "string \<Rightarrow> string \<Rightarrow> Opts" where
  "manager_opts name help =
     \<lparr>op_Namespace = MetricsNamespace, op_Subsystem = ''manager'', op_Name = name, op_Help = help,
      op_ConstLabels = []\<rparr>"

definition monitoring_opts :: "string \<Rightarrow> string \<Rightarrow> Opts" where
  "monitoring_opts name help =
     \<lparr>op_Namespace = MetricsNamespace, op_Subsystem = ''monitoring'', op_Name = name, op_Help = help,
      op_ConstLabels = []\<rparr>"

definition image_labels :: "string list" where
  "image_labels = [''name'', ''registry'', ''status'', ''used'', ''original'']"

definition imageLastMonitorHistogramOpts :: Opts where
  "imageLastMonitorHistogramOpts =
     monitoring_opts ''image_last_monitor_age_minutes'' ''Histogram of image last monitor age in minutes.''"

definition imageLastMonitorHistogramLabels :: "string list" where
  "imageLastMonitorHistogramLabels = [''name'', ''registry'']"

text \<open>One \<open>WithLabelValues(name, registry).Observe(age)\<close> after another, in a fresh histogram.\<close>

fun observe_all ::
  "MetricsLib \<Rightarrow> (string \<times> string \<times> int) list \<Rightarrow> (string list \<times> int list) list \<Rightarrow>
     (string list \<times> int list) list result" where
  "observe_all lib [] histogram = Inr histogram"
| "observe_all lib ((name, registry, age) # ages) histogram =
     (let labels = [name, registry]
      in (case ml_LabelError lib (opts_desc lib imageLastMonitorHistogramOpts imageLastMonitorHistogramLabels) labels of
            Some e \<Rightarrow> Inl (EPanic ''prometheus'')
          | None \<Rightarrow> observe_all lib ages (AList.update labels
              ((case map_of histogram labels of None \<Rightarrow> [] | Some os \<Rightarrow> os) @ [age]) histogram)))"

definition collect_ages ::
  "MetricsLib \<Rightarrow> ref_parser \<Rightarrow> HistogramConfig \<Rightarrow> go_float list \<Rightarrow> Scrape \<Rightarrow> Metric list result" where
  "collect_ages lib parse hc buckets s =
     (case sc_Listed s of
        Inl _ \<Rightarrow> Inr []
      | Inr cisas \<Rightarrow>
          (case cisa_ages parse (sc_Now s) cisas of
             Inl e \<Rightarrow> Inl e
           | Inr ages \<Rightarrow>
               (case observe_all lib ages [] of
                  Inl e \<Rightarrow> Inl e
                | Inr histogram \<Rightarrow> Inr (map (\<lambda>(labels, os). HistogramMetric
                    \<lparr>ho_Opts = imageLastMonitorHistogramOpts, ho_BucketFactor = hc_BucketFactor hc,
                     ho_ZeroThreshold = hc_ZeroThreshold hc, ho_MaxBucketNumber = hc_MaxBucketNumber hc,
                     ho_Buckets = buckets\<rparr> labels os) histogram))))"

definition monitoring_collector :: "MetricsLib \<Rightarrow> ref_parser \<Rightarrow> Collector" where
  "monitoring_collector lib parse =
     GenericC (NewGenericCollectorFunc lib (monitoring_opts ''images'' ''Number of monitored image'')
       GaugeValue image_labels (\<lambda>s. collect_images parse (sc_Listed s)))"

definition age_collector :: "MetricsLib \<Rightarrow> ref_parser \<Rightarrow> HistogramConfig \<Rightarrow> go_float list \<Rightarrow> Collector" where
  "age_collector lib parse hc buckets =
     GenericC (NewGenericCollector lib imageLastMonitorHistogramOpts GaugeValue
       imageLastMonitorHistogramLabels (Some (collect_ages lib parse hc buckets)))"

definition Register ::
  "MetricsLib \<Rightarrow> BuildInfo \<Rightarrow> ref_parser \<Rightarrow> Config \<Rightarrow> kuikMetrics \<Rightarrow> kuikMetrics result" where
  "Register lib bi parse cfg m =
     (case NewInfoCollector lib bi ''manager'' of
        Inl e \<Rightarrow> Inl e
      | Inr info \<Rightarrow>
          (let m1 = addCollector (InfoC info) m;
               m2 = addCollector (GaugeFuncC (manager_opts ''is_leader''
                      ''Whether or not this replica is a leader. 1 if it is, 0 otherwise.'') is_leader) m1;
               m3 = addCollector (GaugeFuncC (manager_opts ''up''
                      ''Whether or not this replica is healthy.'') up) m2;
               m4 = addCollector (monitoring_collector lib parse) m3;
               hc = cfg_ImageLastMonitorAgeMinutes cfg
           in (case Legacy_Buckets (ml_ExponentialBuckets lib) (ml_ExponentialBucketsRange lib) (hc_Legacy hc) of
                 Inl e \<Rightarrow> Inl e
               | Inr buckets \<Rightarrow>
                   (let m5 = addCollector (age_collector lib parse hc buckets) m4
                    in must (ml_Register lib (concat (map (Describe lib) (km_collectors m5)))) m5))))"

end
