(* ===== verification/CollectorsProps.thy ===== *)
theory CollectorsProps
  imports Collectors
begin

text \<open>
  Properties of the metrics: with a Prometheus client that keeps its documentation, a program
  past the validation of its configuration registers its collectors without a panic, and no
  scrape panics, whatever the API server answers; the age histogram observes each checked image
  once.
\<close>

section \<open>What the client library promises\<close>

definition ascii :: "string \<Rightarrow> bool" where
  "ascii s \<longleftrightarrow> list_all (\<lambda>c. (of_char c :: nat) < 128) s"

definition name_chars :: string where
  "name_chars = ''abcdefghijklmnopqrstuvwxyzABCDEFGHIJKLMNOPQRSTUVWXYZ_''"

text \<open>Names of metrics and labels, without the digits and the colon that the program does not use.\<close>

definition valid_name :: "string \<Rightarrow> bool" where
  "valid_name s \<longleftrightarrow> s \<noteq> [] \<and> list_all (\<lambda>c. c \<in> set name_chars) s"

definition desc_ok :: "Desc \<Rightarrow> bool" where
  "desc_ok d \<longleftrightarrow>
     (let labels = de_variableLabels d @ map fst (de_constLabels d)
      in valid_name (de_fqName d) \<and> list_all valid_name labels \<and> distinct labels
         \<and> list_all (ascii \<circ> snd) (de_constLabels d))"

text \<open>
  The documentation of \<open>BuildFQName\<close>, \<open>NewConstMetric\<close> and \<open>WithLabelValues\<close>, \<open>Register\<close> (no
  other metric has the prefix of the program) and the generators of buckets.
\<close>

definition prometheus_contract :: "MetricsLib \<Rightarrow> bool" where
  "prometheus_contract lib \<longleftrightarrow>
     (\<forall>ns sub name. ns \<noteq> [] \<and> sub \<noteq> [] \<and> name \<noteq> [] \<longrightarrow>
        ml_BuildFQName lib ns sub name = ns @ ''_'' @ sub @ ''_'' @ name)
     \<and> (\<forall>d ls. desc_ok d \<and> length ls = length (de_variableLabels d) \<and> list_all ascii ls \<longrightarrow> ml_LabelError lib d ls = None)
     \<and> (\<forall>ds. list_all desc_ok ds \<and> distinct (map de_fqName ds)
          \<and> list_all (\<lambda>d. HasPrefix (de_fqName d) (MetricsNamespace @ ''_'')) ds \<longrightarrow> ml_Register lib ds = None)
     \<and> (\<forall>start factor n. \<not> flt_le start (Some 0) \<and> \<not> flt_le factor (Some 1) \<and> n \<ge> 1 \<longrightarrow>
          is_ok (ml_ExponentialBuckets lib start factor n))
     \<and> (\<forall>low high n. \<not> flt_le low (Some 0) \<and> n \<ge> 1 \<longrightarrow> is_ok (ml_ExponentialBucketsRange lib low high n))"

lemma contract_name:
  "prometheus_contract lib \<Longrightarrow> ns \<noteq> [] \<Longrightarrow> sub \<noteq> [] \<Longrightarrow> name \<noteq> [] \<Longrightarrow>
     ml_BuildFQName lib ns sub name = ns @ ''_'' @ sub @ ''_'' @ name"
  and contract_labels:
  "prometheus_contract lib \<Longrightarrow> desc_ok d \<Longrightarrow> length ls = length (de_variableLabels d) \<Longrightarrow> list_all ascii ls \<Longrightarrow>
     ml_LabelError lib d ls = None"
  and contract_register:
  "prometheus_contract lib \<Longrightarrow> list_all desc_ok ds \<Longrightarrow> distinct (map de_fqName ds) \<Longrightarrow>
     list_all (\<lambda>d. HasPrefix (de_fqName d) (MetricsNamespace @ ''_'')) ds \<Longrightarrow> ml_Register lib ds = None"
  unfolding prometheus_contract_def by blast+

lemma contract_buckets:
  assumes "prometheus_contract lib" and "Legacy_Validate c = Inr ()"
  shows "is_ok (Legacy_Buckets (ml_ExponentialBuckets lib) (ml_ExponentialBucketsRange lib) c)"
  using assms unfolding prometheus_contract_def
  by (auto simp: Legacy_Buckets_def Legacy_Validate_def not_less is_ok_iff split: if_splits)

section \<open>The descriptors\<close>

definition ascii_build :: "BuildInfo \<Rightarrow> bool" where
  "ascii_build bi \<longleftrightarrow> list_all (ascii \<circ> snd) (GetInfo bi)"

text \<open>The five descriptors, by name and labels.\<close>

definition full_name :: "string \<Rightarrow> string \<Rightarrow> string" where
  "full_name sub name = MetricsNamespace @ ''_'' @ sub @ ''_'' @ name"

lemma opts_desc_name:
  assumes "prometheus_contract lib" and "name \<noteq> []"
  shows "de_fqName (opts_desc lib (manager_opts name help) ls) = full_name ''manager'' name"
    and "de_fqName (opts_desc lib (monitoring_opts name help) ls) = full_name ''monitoring'' name"
  using assms by (simp_all add: opts_desc_def manager_opts_def monitoring_opts_def contract_name MetricsNamespace_def full_name_def)

lemma opts_desc_labels:
  "de_variableLabels (opts_desc lib opts ls) = ls" "de_constLabels (opts_desc lib opts ls) = op_ConstLabels opts"
  "op_ConstLabels (manager_opts name help) = []" "op_ConstLabels (monitoring_opts name help) = []"
  by (simp_all add: opts_desc_def manager_opts_def monitoring_opts_def)

lemma names_valid:
  "valid_name (full_name ''manager'' ''build_info'')" "valid_name (full_name ''manager'' ''is_leader'')"
  "valid_name (full_name ''manager'' ''up'')" "valid_name (full_name ''monitoring'' ''images'')"
  "valid_name (full_name ''monitoring'' ''image_last_monitor_age_minutes'')"
  "list_all valid_name image_labels" "list_all valid_name imageLastMonitorHistogramLabels"
  "list_all valid_name [''version'', ''revision'', ''built'', ''goversion'', ''goos'', ''goarch'']"
  by code_simp+

lemma names_distinct:
  "distinct [full_name ''manager'' ''build_info'', full_name ''manager'' ''is_leader'', full_name ''manager'' ''up'',
     full_name ''monitoring'' ''images'', full_name ''monitoring'' ''image_last_monitor_age_minutes'']"
  "distinct image_labels" "distinct imageLastMonitorHistogramLabels"
  by code_simp+

lemma full_name_prefix: "HasPrefix (full_name sub name) (MetricsNamespace @ ''_'')"
  unfolding full_name_def by (metis HasPrefix_append append.assoc)

lemma descs_ok:
  assumes "prometheus_contract lib"
  shows "desc_ok (opts_desc lib (manager_opts ''is_leader'' h) [])" "desc_ok (opts_desc lib (manager_opts ''up'' h) [])"
    "desc_ok (opts_desc lib (monitoring_opts ''images'' h) image_labels)"
    "desc_ok (opts_desc lib imageLastMonitorHistogramOpts imageLastMonitorHistogramLabels)"
  unfolding desc_ok_def Let_def imageLastMonitorHistogramOpts_def opts_desc_labels
  by (simp_all add: opts_desc_name [OF assms] names_valid names_distinct)

section \<open>Registration\<close>

definition build_desc :: "BuildInfo \<Rightarrow> Desc \<Rightarrow> bool" where
  "build_desc bi d \<longleftrightarrow> de_fqName d = full_name ''manager'' ''build_info'' \<and> de_variableLabels d = []
     \<and> de_constLabels d = GetInfo bi"

lemma build_desc_ok: "ascii_build bi \<Longrightarrow> build_desc bi d \<Longrightarrow> desc_ok d"
  using names_valid(1,8) by (simp add: desc_ok_def build_desc_def ascii_build_def GetInfo_def)

lemma NewInfoCollector_ok:
  assumes "prometheus_contract lib" and "ascii_build bi"
  shows "\<exists>d. NewInfoCollector lib bi ''manager'' = Inr \<lparr>ic_metric = ConstMetric d GaugeValue 1 []\<rparr> \<and> build_desc bi d"
proof -
  have "NewInfoCollector lib bi ''manager'' = (case MustNewConstMetric lib d GaugeValue 1 [] of
      Inl e \<Rightarrow> Inl e | Inr m \<Rightarrow> Inr \<lparr>ic_metric = m\<rparr>) \<Longrightarrow> build_desc bi d \<Longrightarrow> ?thesis" for d
    using contract_labels [OF assms(1) build_desc_ok [OF assms(2)], of d "[]"]
    by (auto simp: MustNewConstMetric_def must_def build_desc_def)
  then show ?thesis unfolding NewInfoCollector_def Let_def
    by (rule meta_mp) (auto simp: build_desc_def contract_name [OF assms(1)] MetricsNamespace_def full_name_def)
qed

definition manager_collectors :: "MetricsLib \<Rightarrow> ref_parser \<Rightarrow> HistogramConfig \<Rightarrow> go_float list \<Rightarrow> Collector list" where
  "manager_collectors lib parse hc buckets =
     [GaugeFuncC (manager_opts ''is_leader'' ''Whether or not this replica is a leader. 1 if it is, 0 otherwise.'') is_leader,
      GaugeFuncC (manager_opts ''up'' ''Whether or not this replica is healthy.'') up,
      monitoring_collector lib parse, age_collector lib parse hc buckets]"

lemma Register_result:
  assumes "prometheus_contract lib" and "ascii_build bi"
    and "Legacy_Validate (hc_Legacy (cfg_ImageLastMonitorAgeMinutes cfg)) = Inr ()"
  shows "\<exists>d buckets. build_desc bi d \<and> Register lib bi parse cfg \<lparr>km_collectors = []\<rparr> =
    Inr \<lparr>km_collectors = InfoC \<lparr>ic_metric = ConstMetric d GaugeValue 1 []\<rparr>
           # manager_collectors lib parse (cfg_ImageLastMonitorAgeMinutes cfg) buckets\<rparr>"
proof -
  from NewInfoCollector_ok [OF assms(1,2)] obtain d where
    d: "NewInfoCollector lib bi ''manager'' = Inr \<lparr>ic_metric = ConstMetric d GaugeValue 1 []\<rparr>" "build_desc bi d" by blast
  from contract_buckets [OF assms(1,3)] obtain buckets where
    b: "Legacy_Buckets (ml_ExponentialBuckets lib) (ml_ExponentialBucketsRange lib)
      (hc_Legacy (cfg_ImageLastMonitorAgeMinutes cfg)) = Inr buckets" by (auto simp: is_ok_iff)
  let ?cs = "InfoC \<lparr>ic_metric = ConstMetric d GaugeValue 1 []\<rparr>
      # manager_collectors lib parse (cfg_ImageLastMonitorAgeMinutes cfg) buckets"
  have ds: "concat (map (Describe lib) ?cs) =
      [d, opts_desc lib (manager_opts ''is_leader'' ''Whether or not this replica is a leader. 1 if it is, 0 otherwise.'') [],
       opts_desc lib (manager_opts ''up'' ''Whether or not this replica is healthy.'') [],
       opts_desc lib (monitoring_opts ''images'' ''Number of monitored image'') image_labels,
       opts_desc lib imageLastMonitorHistogramOpts imageLastMonitorHistogramLabels]"
    by (simp add: manager_collectors_def monitoring_collector_def age_collector_def NewGenericCollectorFunc_def
        NewGenericCollector_def NewEmptyGenericCollector_def GenericCollector_Describe_def Let_def)
  have names: "map de_fqName (concat (map (Describe lib) ?cs)) =
      [full_name ''manager'' ''build_info'', full_name ''manager'' ''is_leader'', full_name ''manager'' ''up'',
       full_name ''monitoring'' ''images'', full_name ''monitoring'' ''image_last_monitor_age_minutes'']"
    unfolding ds using d(2) by (simp add: build_desc_def opts_desc_name [OF assms(1)] imageLastMonitorHistogramOpts_def)
  have "list_all desc_ok (concat (map (Describe lib) ?cs))"
    unfolding ds using descs_ok [OF assms(1)] build_desc_ok [OF assms(2) d(2)] by simp
  moreover have "distinct (map de_fqName (concat (map (Describe lib) ?cs)))" unfolding names by (rule names_distinct)
  moreover have "list_all (\<lambda>n. HasPrefix n (MetricsNamespace @ ''_'')) (map de_fqName (concat (map (Describe lib) ?cs)))"
    unfolding names by (simp add: full_name_prefix)
  then have "list_all (\<lambda>d. HasPrefix (de_fqName d) (MetricsNamespace @ ''_'')) (concat (map (Describe lib) ?cs))"
    by (simp only: list_all_iff list.set_map) blast
  ultimately have "ml_Register lib (concat (map (Describe lib) ?cs)) = None" by (rule contract_register [OF assms(1)])
  then have "Register lib bi parse cfg \<lparr>km_collectors = []\<rparr> = Inr \<lparr>km_collectors = ?cs\<rparr>"
    by (simp only: Register_def d(1) b sum.case Let_def) (simp add: addCollector_def manager_collectors_def must_def)
  with d(2) show ?thesis by blast
qed

text \<open>
  A program that got as far as registering its metrics had a valid configuration, and
  with it the registration of its five collectors does not panic: the buckets can be
  generated, all labels and names are valid and no two collectors share a name.
\<close>

theorem started_program_registers_metrics:
  assumes "prometheus_contract ml" and "ascii_build bi"
    and "program koanf stat sel lib fl enableWebhooks = (r, made)" and "RegisterMetrics \<in> set made"
  shows "\<exists>cfg m. Load koanf stat (fl_configPath fl) = Inr cfg
    \<and> Register ml bi parse cfg \<lparr>km_collectors = []\<rparr> = Inr m \<and> length (km_collectors m) = 5"
proof -
  from assms(3,4) obtain cfg where cfg: "Load koanf stat (fl_configPath fl) = Inr cfg"
    "Legacy_Validate (hc_Legacy (cfg_ImageLastMonitorAgeMinutes cfg)) = Inr ()"
    by (auto simp: program_def split: sum.splits)
  from Register_result [OF assms(1,2) cfg(2), of parse] obtain d buckets where
    "Register ml bi parse cfg \<lparr>km_collectors = []\<rparr> = Inr \<lparr>km_collectors = InfoC \<lparr>ic_metric = ConstMetric d GaugeValue 1 []\<rparr>
       # manager_collectors ml parse (cfg_ImageLastMonitorAgeMinutes cfg) buckets\<rparr>" by blast
  with cfg(1) show ?thesis by (simp add: manager_collectors_def)
qed

section \<open>Scrapes\<close>

text \<open>The list holds names and registries of ASCII characters, as Kubernetes and image names have.\<close>

definition ascii_listed :: "ref_parser \<Rightarrow> ClusterImageSetAvailability list result \<Rightarrow> bool" where
  "ascii_listed parse listed \<longleftrightarrow>
     (case listed of Inl _ \<Rightarrow> True
      | Inr cisas \<Rightarrow> list_all (\<lambda>(cisa, registry, img). ascii cisa \<and> ascii registry) (listed_images parse cisas))"

definition is_checked :: "string \<times> string \<times> MonitoredImage \<Rightarrow> bool" where
  "is_checked = (\<lambda>(_, _, img). \<not> (mon_LastMonitor img = None \<or> mt_IsZero (mon_LastMonitor img)))"

definition age_entry :: "int \<Rightarrow> string \<times> string \<times> MonitoredImage \<Rightarrow> string \<times> string \<times> int" where
  "age_entry now = (\<lambda>(cisa, registry, img). (cisa, registry, time_sub now (the (mon_LastMonitor img))))"

lemma image_ages_spec:
  assumes "well_behaved parse"
  shows "image_ages parse now cisa imgs = Inr (map (age_entry now) (filter is_checked (List.map_filter (\<lambda>img.
      case RegistryAndPathFromReference parse (mon_Image img) of
        Inl _ \<Rightarrow> None | Inr (registry, _) \<Rightarrow> Some (cisa, registry, img)) imgs)))"
proof (induction imgs)
  case Nil
  then show ?case by (simp add: List.map_filter_simps)
next
  case (Cons img imgs)
  with registry_no_panic [OF assms, of "mon_Image img"] show ?case
    by (auto simp: List.map_filter_simps is_checked_def age_entry_def split: sum.splits prod.splits)
qed

lemma cisa_ages_spec:
  assumes "well_behaved parse"
  shows "cisa_ages parse now cisas = Inr (map (age_entry now) (filter is_checked (listed_images parse cisas)))"
  by (induction cisas) (simp_all add: listed_images_def image_ages_spec [OF assms])

lemma observe_all_spec:
  assumes "prometheus_contract lib" and "list_all (\<lambda>(n, r, _). ascii n \<and> ascii r) ages"
  shows "\<exists>h. observe_all lib ages h0 = Inr h \<and>
    (\<forall>labels. (case map_of h labels of None \<Rightarrow> [] | Some os \<Rightarrow> os) =
       (case map_of h0 labels of None \<Rightarrow> [] | Some os \<Rightarrow> os)
       @ map (\<lambda>(_, _, age). age) (filter (\<lambda>(n, r, _). [n, r] = labels) ages))"
  using assms(2)
proof (induction ages arbitrary: h0)
  case Nil
  then show ?case by simp
next
  case (Cons a ages)
  obtain n r age where a: "a = (n, r, age)" by (cases a)
  let ?d = "opts_desc lib imageLastMonitorHistogramOpts imageLastMonitorHistogramLabels"
  have "ml_LabelError lib ?d [n, r] = None"
    using Cons.prems a by (intro contract_labels [OF assms(1) descs_ok(4) [OF assms(1)]])
      (simp_all add: opts_desc_labels imageLastMonitorHistogramLabels_def)
  then have step: "observe_all lib (a # ages) h0 = observe_all lib ages (AList.update [n, r]
      ((case map_of h0 [n, r] of None \<Rightarrow> [] | Some os \<Rightarrow> os) @ [age]) h0)" by (simp add: a Let_def)
  from Cons.IH Cons.prems show ?case unfolding step by (fastforce simp: a)
qed

lemma collect_images_ok:
  assumes "well_behaved parse" and "ascii_listed parse listed"
  shows "\<exists>samples. collect_images parse listed = Inr samples
    \<and> list_all (\<lambda>(_, ls). length ls = length image_labels \<and> list_all ascii ls) samples"
proof (cases listed)
  case (Inl e)
  then show ?thesis by (simp add: collect_images_def)
next
  case (Inr cisas)
  let ?es = "listed_images parse cisas"
  let ?counts = "foldl (\<lambda>c e. increment (metric_key e) c) [] ?es"
  have "list_all ascii (map status_string [StatusUnset, Scheduled, Available, NotFound, Unreachable, InvalidAuth,
      UnavailableSecret, QuotaExceeded])" "list_all ascii (map FormatBool [True, False])" by code_simp+
  then have fixed: "list_all ascii [status_string st, FormatBool b]" for st b
    by (cases st; cases b) simp_all
  have "ck_name k \<in> fst ` set ?es \<and> ck_registry k \<in> (fst \<circ> snd) ` set ?es" if "k \<in> fst ` set ?counts" for k
  proof -
    from that have "map_of ?counts k \<noteq> None" by (simp add: map_of_eq_None_iff)
    then have "filter (\<lambda>e. metric_key e = k) ?es \<noteq> []" by (auto simp: increments_lookup Let_def split: if_splits)
    then obtain e where "e \<in> set ?es" "metric_key e = k" by (auto simp: filter_empty_conv)
    then show ?thesis by (force simp: metric_key_def image_key_def split: prod.splits)
  qed
  moreover have "ascii n \<and> ascii r" if "(n, r, i) \<in> set ?es" for n r i
    using that assms(2) Inr by (auto simp: ascii_listed_def list_all_iff)
  ultimately have "ascii (ck_name k) \<and> ascii (ck_registry k)" if "k \<in> fst ` set ?counts" for k
    using that by fastforce
  with fixed show ?thesis
    by (simp add: Inr collect_images_def count_cisas_fold [OF assms(1)] list_all_iff image_labels_def split_beta)
qed

lemma monitoring_collector_ok:
  assumes "prometheus_contract lib" and "well_behaved parse" and "ascii_listed parse (sc_Listed s)"
  shows "is_ok (Collect lib (monitoring_collector lib parse) s)"
proof -
  from collect_images_ok [OF assms(2,3)] obtain samples where
    s: "collect_images parse (sc_Listed s) = Inr samples"
      "list_all (\<lambda>(_, ls). length ls = length image_labels \<and> list_all ascii ls) samples" by blast
  let ?d = "opts_desc lib (monitoring_opts ''images'' ''Number of monitored image'') image_labels"
  have "is_ok (MustNewConstMetric lib ?d GaugeValue v ls)" if "(v, ls) \<in> set samples" for v ls
    using that s(2) contract_labels [OF assms(1) descs_ok(3) [OF assms(1)], of ls "''Number of monitored image''"]
    by (auto simp: MustNewConstMetric_def must_def is_ok_iff list_all_iff opts_desc_labels)
  then have "is_ok (traverse (\<lambda>(v, ls). MustNewConstMetric lib ?d GaugeValue v ls) samples)"
    by (intro traverse_all_ok) auto
  then show ?thesis
    by (simp add: monitoring_collector_def NewGenericCollectorFunc_def NewGenericCollector_def Let_def
        NewEmptyGenericCollector_def GenericCollector_Collect_def s(1))
qed

text \<open>The observations of a scrape for one resource and registry.\<close>

definition observations :: "string \<Rightarrow> string \<Rightarrow> Metric list \<Rightarrow> int list" where
  "observations n r ms =
     concat (map (\<lambda>m. case m of HistogramMetric _ ls os \<Rightarrow> if ls = [n, r] then os else [] | _ \<Rightarrow> []) ms)"

lemma observe_all_distinct:
  "observe_all lib ages h0 = Inr h \<Longrightarrow> distinct (map fst h0) \<Longrightarrow> distinct (map fst h)"
  by (induction lib ages h0 rule: observe_all.induct)
    (auto simp: Let_def distinct_update split: option.splits)

lemma observations_lookup:
  "distinct (map fst h) \<Longrightarrow> observations n r (map (\<lambda>(ls, os). HistogramMetric opts ls os) h) =
     (case map_of h [n, r] of None \<Rightarrow> [] | Some os \<Rightarrow> os)"
proof (induction h)
  case Nil
  then show ?case by (simp add: observations_def)
next
  case (Cons e h)
  then have "fst e = [n, r] \<Longrightarrow> map_of h [n, r] = None" by (auto simp: map_of_eq_None_iff)
  with Cons show ?case by (cases e) (auto simp: observations_def)
qed

lemma collect_ages_spec:
  assumes "prometheus_contract lib" and "well_behaved parse" and "ascii_listed parse (Inr cisas)" and "sc_Listed s = Inr cisas"
  shows "\<exists>ms. collect_ages lib parse hc buckets s = Inr ms \<and>
    (\<forall>n r. observations n r ms = map (\<lambda>(_, _, img). time_sub (sc_Now s) (the (mon_LastMonitor img)))
         (filter (\<lambda>e. is_checked e \<and> fst e = n \<and> fst (snd e) = r) (listed_images parse cisas)))"
proof -
  let ?es = "filter is_checked (listed_images parse cisas)" and ?age = "age_entry (sc_Now s)"
  have "list_all (\<lambda>(n, r, _). ascii n \<and> ascii r) (map ?age ?es)"
    using assms(3) by (auto simp: ascii_listed_def list_all_iff age_entry_def)
  from observe_all_spec [OF assms(1) this, of "[]"] obtain h where h: "observe_all lib (map ?age ?es) [] = Inr h"
    and look: "\<And>labels. (case map_of h labels of None \<Rightarrow> [] | Some os \<Rightarrow> os) =
       map (\<lambda>(_, _, age). age) (filter (\<lambda>(n, r, _). [n, r] = labels) (map ?age ?es))" by auto
  have "distinct (map fst h)" by (rule observe_all_distinct [OF h]) simp
  note obs = observations_lookup [OF this]
  have "map (\<lambda>(_, _, age). age) (filter (\<lambda>(n', r', _). [n', r'] = [n, r]) (map ?age es)) =
      map (\<lambda>(_, _, img). time_sub (sc_Now s) (the (mon_LastMonitor img))) (filter (\<lambda>e. fst e = n \<and> fst (snd e) = r) es)" for n r es
    by (induction es) (auto simp: age_entry_def)
  then show ?thesis
    by (simp add: collect_ages_def assms(4) cisa_ages_spec [OF assms(2)] h obs look conj_commute conj_left_commute)
qed

lemma age_collector_ok:
  assumes "prometheus_contract lib" and "well_behaved parse" and "ascii_listed parse (sc_Listed s)"
  shows "is_ok (Collect lib (age_collector lib parse hc buckets) s)"
proof (cases "sc_Listed s")
  case (Inl e)
  then show ?thesis
    by (simp add: age_collector_def NewGenericCollector_def GenericCollector_Collect_def collect_ages_def)
next
  case (Inr cisas)
  with collect_ages_spec [OF assms(1,2) _ Inr, of hc buckets] assms(3) show ?thesis
    by (auto simp: age_collector_def NewGenericCollector_def GenericCollector_Collect_def is_ok_iff)
qed


text \<open>
  The age histogram observes each listed image that was checked exactly once, under its
  resource and registry, with the time since its last check, and no other image.
\<close>

theorem ages_observed_once:
  assumes "prometheus_contract lib" and "well_behaved parse" and "ascii_listed parse (Inr cisas)" and "sc_Listed s = Inr cisas"
  shows "\<exists>ms. Collect lib (age_collector lib parse hc buckets) s = Inr ms \<and>
    (\<forall>n r. observations n r ms = map (\<lambda>(_, _, img). time_sub (sc_Now s) (the (mon_LastMonitor img)))
         (filter (\<lambda>e. is_checked e \<and> fst e = n \<and> fst (snd e) = r) (listed_images parse cisas)))"
  using collect_ages_spec [OF assms]
  by (simp add: age_collector_def NewGenericCollector_def GenericCollector_Collect_def)

section \<open>A client library for the witnesses\<close>

definition example_prometheus :: MetricsLib where
  "example_prometheus =
     \<lparr>ml_BuildFQName = (\<lambda>ns sub name. ns @ ''_'' @ sub @ ''_'' @ name),
      ml_LabelError = (\<lambda>d ls. if length ls = length (de_variableLabels d) then None
         else Some (EMsg ''inconsistent label cardinality'')),
      ml_Register = (\<lambda>ds. if distinct (map de_fqName ds) then None else Some (EMsg ''duplicate metrics collector registration'')),
      ml_ExponentialBuckets = (\<lambda>_ _ n. if n < 1 then Inl (EPanic ''count'') else Inr []),
      ml_ExponentialBucketsRange = (\<lambda>_ _ n. if n < 1 then Inl (EPanic ''count'') else Inr [])\<rparr>"

lemma example_prometheus_contract: "prometheus_contract example_prometheus"
  by (simp add: prometheus_contract_def example_prometheus_def)

definition example_build :: BuildInfo where
  "example_build = \<lparr>bi_Version = ''2.0.0'', bi_Revision = [], bi_BuildDateTime = [], bi_GoVersion = ''go1.26.2'',
     bi_GOOS = ''linux'', bi_GOARCH = ''amd64''\<rparr>"

lemma example_build_ascii: "ascii_build example_build"
  by code_simp

definition example_scrape :: Scrape where
  "example_scrape = \<lparr>sc_Elected = True, sc_Ping = None, sc_Listed = Inr [example_cisa []
     [example_monitored ''r/a'' (Some 9), example_monitored ''r/b'' None, example_monitored ''q/c'' (Some 5)]], sc_Now = 10\<rparr>"

lemma example_scrape_ascii: "ascii_listed example_parse (sc_Listed example_scrape)"
  by code_simp

lemma defaults_validate: "Legacy_Validate (hc_Legacy (cfg_ImageLastMonitorAgeMinutes defaultConfig)) = Inr ()"
  by (simp add: defaultConfig_def Legacy_Validate_def flt_le_def)

theorem started_program_registers_metrics_witness:
  "\<exists>m. Register example_prometheus example_build example_parse defaultConfig \<lparr>km_collectors = []\<rparr> = Inr m
     \<and> length (km_collectors m) = 5"
proof -
  let ?p = "program (\<lambda>c _. Inr c) (\<lambda>_. Some (ENotFound ''config'')) presence_sel (\<lambda>_. None) default_flags []"
  have load: "Load (\<lambda>c _. Inr c) (\<lambda>_. Some (ENotFound ''config'')) (fl_configPath default_flags) = Inr defaultConfig"
    by (simp add: Load_def LoadDefault_def load_def)
  have "RegisterMetrics \<in> set (startup_steps default_flags [])" by (simp add: startup_steps_def)
  moreover have "?p = (None, startup_steps default_flags [])"
    using started_parts_agree_witness by simp
  ultimately show ?thesis
    using started_program_registers_metrics [OF example_prometheus_contract example_build_ascii, of "\<lambda>c _. Inr c"
        "\<lambda>_. Some (ENotFound ''config'')" presence_sel "\<lambda>_. None" default_flags "[]"] load by auto
qed


theorem ages_observed_once_witness:
  "\<exists>ms. Collect example_prometheus (age_collector example_prometheus example_parse
       (cfg_ImageLastMonitorAgeMinutes defaultConfig) []) example_scrape = Inr ms
     \<and> observations ''all'' ''r'' ms = [1] \<and> observations ''all'' ''q'' ms = [5]"
proof -
  let ?cisas = "[example_cisa [] [example_monitored ''r/a'' (Some 9), example_monitored ''r/b'' None, example_monitored ''q/c'' (Some 5)]]"
  have l: "sc_Listed example_scrape = Inr ?cisas" by (simp add: example_scrape_def)
  let ?obs = "\<lambda>n r. map (\<lambda>(_, _, img). time_sub (sc_Now example_scrape) (the (mon_LastMonitor img)))
         (filter (\<lambda>e. is_checked e \<and> fst e = n \<and> fst (snd e) = r) (listed_images example_parse ?cisas))"
  have "?obs ''all'' ''r'' = [1]" "?obs ''all'' ''q'' = [5]" by code_simp+
  with ages_observed_once [OF example_prometheus_contract example_parse_well_behaved _ l,
      of "cfg_ImageLastMonitorAgeMinutes defaultConfig" "[]"] example_scrape_ascii l show ?thesis by auto
qed

end
