(* ===== verification/Spec2Isabelle.thy ===== *)
theory Spec2Isabelle
  imports Parallel MirrorEffort AvailabilitySettles Copies FlightAnswers CollectorsProps
begin

text \<open>
  A verification library of kube-image-keeper, a Kubernetes operator that keeps copies of
  container images on mirror registries, reroutes pods to an available copy, and monitors the
  availability of the images in use. All paths below are under \<open>src/\<close>.

  \<^bold>\<open>The program.\<close> Cluster and namespaced resources (\<open>api/kuik/v1alpha1\<close>) select pods and images
  by filters (\<open>internal/filter\<close>). The mirror reconcilers
  (\<open>internal/controller/kuik/mirror_reconciler.go\<close>) list the selected pods, merge their images
  into the status of the resource, delete the copies of images unused for the retention and copy
  the others with the registry client (\<open>internal/registry\<close>), whose credentials come from pull
  secrets (\<open>internal/registry/credentialprovider\<close>). The pod webhook
  (\<open>internal/webhook/core/v1/pod_webhook.go\<close>) builds for each container the ordered list of
  alternatives of its image, checks them in parallel (\<open>internal/parallel\<close>), puts the first
  available one into the pod, copies the pull secret it needs, and clears statuses found stale.
  The secret owner controller deletes those copied secrets before a cluster resource goes. The
  availability monitor (\<open>clusterimagesetavailability_controller.go\<close>, \<open>backfill_original.go\<close>)
  keeps the list of images in use and checks one image per registry and tick; the status page
  (\<open>internal/controller/status.go\<close>) and the metrics (\<open>collector.go\<close>) show its status.
  \<open>cmd/main.go\<close> wires the parts from one configuration (\<open>internal/config\<close>).

  \<^bold>\<open>The theories.\<close>

  \<^item> \<open>Prelude\<close>: Go errors, strings, paths, maps, instants, 64-bit durations and the stable sort.
    A fallible function returns \<open>error + 'a\<close>; a panic is the error \<open>EPanic\<close>, so that every return
    and every panic is a branch of the model. A Go map is an association list with distinct keys
    or a HOL map; the unspecified order of \<open>range\<close> is a parameter that permutes the keys.
  \<^item> \<open>ApiTypes\<close>, \<open>Filters\<close>, \<open>References\<close>: the resources as records, their filters and matchers,
    and image references. \<open>podMatcher\<close> and the image filter are shown to implement the documented
    semantics of include and exclude over their dimensions.
  \<^item> \<open>Parallel\<close>: \<open>FirstSuccessful\<close>; its outcome is the first success in parameter order whatever
    order the goroutines end in.
  \<^item> \<open>Urls\<close>, \<open>Base64\<close>, \<open>Keyring\<close>: URL parsing, host-port splitting, glob matching and base64 as
    the code uses them, the keyring and the keychains of an image: most specific first,
    independent of map order, only entries that cover the image, round trip of the auth field.
  \<^item> \<open>Registry\<close>, \<open>ImageTransfer\<close>: the client (\<open>Execute\<close>, \<open>GetDescriptor\<close>, \<open>CopyImage\<close>,
    \<open>DeleteImage\<close>) and \<open>CheckImageAvailability\<close>. The network is a function of the history of
    requests; the lemmas say which requests are sent and what success means.
  \<^item> \<open>Config\<close>, \<open>Startup\<close>: configuration, validation, loading, and the steps of \<open>main\<close>: a manager
    that was started runs on a valid configuration and all its parts skip the same pods.
  \<^item> \<open>Alternatives\<close>, \<open>Webhook\<close>, \<open>StaleStatus\<close>: \<open>buildAlternativesList\<close> and its order,
    \<open>findBestAlternative\<close>, \<open>defaultPod\<close> with its caches and copied secrets, and the clean-up of
    stale statuses, whose semaphore is a step relation with an invariant by rule induction.
  \<^item> \<open>Flights\<close>, \<open>FlightsProps\<close>, \<open>FlightAnswers\<close>: concurrent admissions as interleaved actions of
    goroutines over the two caches and the request group of the webhook: one check and one
    decision per image at a time, only answers that were given are handed on, nobody waits for
    ever, every admission ends within four actions and three per alternative, and the sequential
    check of \<open>Webhook\<close> is one of the runs.
  \<^item> \<open>MirrorMerge\<close>: the status of a mirror resource merged from its previous content and the
    pods, refined to a specification by image name.
  \<^item> \<open>MirrorObject\<close>, \<open>MirrorReconciler\<close>: the interface \<open>MirrorObject\<close> as a table of methods with
    the locale \<open>mirror_object\<close>, interpreted on both kinds of resource; the reconcile loop phase by
    phase, over an API server and a clock that answer as functions of the calls before. Calls are
    recorded in order, so that a property of a run is a property of its list of events.
  \<^item> \<open>MirrorSafety\<close>, \<open>MirrorProgress\<close>, \<open>MirrorEffort\<close>: what a run may delete, when a resource may
    go, what counts as mirrored, that a run without error has mirrored every matching image, and
    that no run copies more than its backlog.
  \<^item> \<open>Copies\<close>: the reconcilers and the webhook together; they compute the same references, so what
    was mirrored is tried, and an image that disappeared is replaced by a copy that did not.
  \<^item> \<open>Availability\<close>, \<open>AvailabilitySafety\<close>, \<open>AvailabilityStatus\<close>, \<open>AvailabilityInvariant\<close>,
    \<open>AvailabilitySettles\<close>: the monitor; its candidates, the spacing of its checks, the list it
    keeps, what a check writes, the invariant of every status it writes, and that its
    synchronisation comes to rest after one pass.
  \<^item> \<open>SecretOwner\<close>: the secret owner controller, with the locale \<open>owner_object\<close> interpreted on
    both kinds, and its composition with the secrets the webhook writes.
  \<^item> \<open>StatusPage\<close>, \<open>StatusPageProps\<close>: the page, its groups and the metrics, which agree.
  \<^item> \<open>Collectors\<close>, \<open>CollectorsProps\<close>: the collectors of the metrics with \<open>internal/info\<close>, their
    registration and what a scrape collects; neither panics once the configuration is validated.

  \<^bold>\<open>Parameters.\<close> Code outside the repository is an argument: compiling regular expressions
  (\<open>rx\<close>), parsing selectors (\<open>sel\<close>) and references (\<open>parse\<close>, with its documented normal form as
  \<open>normalizing\<close>), JSON decoding, the registry library and its network, the API server
  (\<open>re_Get\<close>, \<open>ae_Patch\<close>, \<open>se_Delete\<close> and the like), \<open>retry.RetryOnConflict\<close> (its documented
  behaviour is the inductive \<open>retried\<close>: the function runs again only after a conflict), the client
  of Prometheus (\<open>MetricsLib\<close>), the clock and the order in which maps are visited. Hypotheses on
  them are named (\<open>retry_contract\<close>, \<open>prometheus_contract\<close>, \<open>keeps_status\<close>, \<open>serves_wf\<close>,
  \<open>range_order\<close>) and each property that has some comes with a witness
  on concrete functions.

  \<^bold>\<open>Loops and bounds.\<close> All loops of the program run over finite lists and are structural
  recursions; no fuel is used. The number of retries is left to the library. Priorities are
  64-bit words, durations wrap at 64 bits and \<open>Time.Sub\<close> saturates; counts are natural numbers
  (the metrics' floats are exact up to \<open>2 ^ 53\<close>). Lists longer than Go's \<open>int\<close> are not considered.

  \<^bold>\<open>Not modelled.\<close> The generated deep copies (values are immutable in the model; where the code
  relies on sharing, as in the in-place clean-up of statuses and in the list of candidates, the
  sharing is written out); the registration of controllers, watches and caches with
  controller-runtime, the rate limiter of the work queue and how a histogram fills its buckets;
  command-line parsing and logging. The two caches of the webhook lose entries at any time in
  the concurrent model, so their capacity and time to live need no model of their own; in the
  concurrent model a flight ends and wakes its waiters in one action.
\<close>

end
